theory Spec2Isabelle
  imports Main "HOL-Library.Word" "HOL-Library.AList" "HOL-Library.Sublist" "HOL-Library.Multiset"
    "HOL-Library.Char_ord" "HOL-Library.List_Lexorder"
begin

section \<open>Data model of \<^verbatim>\<open>cmd/bd/backup_export.go\<close>\<close>

text \<open>
  The export engine talks to three collaborators: the relational store (queries and the
  current commit), the file system, and the Go standard library (JSON, time formatting).
  Each of them is a parameter of the model. The store and the faults of the file system
  are fields of the record \<open>env\<close>, one value per run; the standard library functions
  are fields of the record \<open>stdlib\<close>. The files and the sequence of calls made so far
  form the record \<open>world\<close>, which every operation takes and returns.

  Left out: the context argument (a cancellation shows as a call that fails), the debug
  log (\<^verbatim>\<open>debug.Logf\<close>, and with it \<^verbatim>\<open>truncateHash\<close>, which only shortens the commit in
  a log line), and the directories of the file system (\<^verbatim>\<open>os.MkdirAll\<close> is a call with an
  outcome, not a change of \<open>files\<close>).
\<close>

type_synonym bytes = string
type_synonym path = string
type_synonym int64 = "64 word"

text \<open>
  A \<^verbatim>\<open>time.Time\<close>: the seconds elapsed since January 1, year 1, 00:00:00 UTC, the
  nanoseconds within that second, and the offset of its location east of UTC in seconds.
\<close>

record gotime =
  t_sec :: int
  t_nsec :: nat
  t_offset :: int

text \<open>\<^verbatim>\<open>func (t Time) IsZero() bool { return t.sec() == 0 && t.nsec() == 0 }\<close>\<close>

definition IsZero :: "gotime \<Rightarrow> bool" where
  "IsZero t = (t_sec t = 0 \<and> t_nsec t = 0)"

definition zero_time :: gotime where
  "zero_time = \<lparr>t_sec = 0, t_nsec = 0, t_offset = 0\<rparr>"

text \<open>
  The dynamic type of an \<^verbatim>\<open>interface{}\<close> value that a driver puts into a scanned
  column. \<open>VOther\<close> stands for a value of any further type (a float, an unsigned
  integer, a pointer, ...), identified by a tag.
\<close>

datatype gvalue =
    VNil
  | VBytes bytes
  | VTime gotime
  | VInt64 int64
  | VString string
  | VBool bool
  | VOther nat

record counts =
  Issues :: "64 word"
  Events :: "64 word"
  Comments :: "64 word"
  Dependencies :: "64 word"
  Labels :: "64 word"
  Config :: "64 word"

text \<open>
  \<^verbatim>\<open>backupState\<close>. The fields of type \<^verbatim>\<open>int\<close> are 64 bit words (a 64 bit target),
  so that \<^verbatim>\<open>+=\<close> wraps as it does in Go.
\<close>

record backupState =
  LastDoltCommit :: string
  LastEventID :: int64
  Timestamp :: gotime
  Counts :: counts

definition zero_counts :: counts where
  "zero_counts = \<lparr>Issues = 0, Events = 0, Comments = 0, Dependencies = 0, Labels = 0, Config = 0\<rparr>"

text \<open>The value of \<^verbatim>\<open>&backupState{}\<close>.\<close>

definition zero_state :: backupState where
  "zero_state = \<lparr>LastDoltCommit = [], LastEventID = 0, Timestamp = zero_time, Counts = zero_counts\<rparr>"

datatype error =
    ErrCreateBackupDirInGitRepo
  | ErrCreateBackupDir
  | ErrReadState
  | ErrParseState
  | ErrMarshalState
  | ErrCreateTemp
  | ErrWriteTemp
  | ErrSyncTemp
  | ErrCloseTemp
  | ErrRenameTemp
  | ErrGetCommit
  | ErrGetCommitForState
  | ErrQuery
  | ErrColumns
  | ErrScan
  | ErrMarshal
  | ErrRowIteration
  | ErrOpenEvents
  | ErrAppendEvents
  | ErrCloseEvents
  | ErrBackup string error

text \<open>
  The functions of the Go standard library that the code calls on data:
  \<^verbatim>\<open>Time.Format(time.RFC3339)\<close>, \<^verbatim>\<open>json.Marshal\<close> of a row
  (a \<^verbatim>\<open>map[string]interface{}\<close>, here the list of its entries),
  \<^verbatim>\<open>json.MarshalIndent\<close> of a state and \<^verbatim>\<open>json.Unmarshal\<close> into a state.
  \<open>None\<close> is a returned error.
\<close>

record stdlib =
  time_Format_RFC3339 :: "gotime \<Rightarrow> string"
  json_Marshal :: "(string \<times> gvalue) list \<Rightarrow> bytes option"
  json_MarshalIndent :: "backupState \<Rightarrow> bytes option"
  json_Unmarshal :: "bytes \<Rightarrow> backupState option"

text \<open>
  The result set of a query: the column names (\<open>None\<close> when \<^verbatim>\<open>rows.Columns()\<close>
  fails), the rows that \<^verbatim>\<open>rows.Next()\<close> delivers in order, each with the outcome of
  \<^verbatim>\<open>rows.Scan\<close> (\<open>None\<close> when it fails, otherwise one value per column), and
  whether \<^verbatim>\<open>rows.Err()\<close> is an error once \<^verbatim>\<open>Next\<close> has returned false.
\<close>

datatype rows = Rows (rows_columns: "string list option") (rows_scans: "gvalue list option list") (rows_err: bool)

text \<open>
  The step at which \<^verbatim>\<open>atomicWriteFile\<close> fails, and the step at which the append to
  the events file fails; \<open>AppendWriteFails k\<close> has put \<open>k\<close> bytes into the file before
  the error.
\<close>

datatype write_fault = NoFault | CreateTempFails | WriteFails | SyncFails | CloseFails | RenameFails

datatype append_fault = AppendOK | OpenFails | AppendWriteFails nat | AppendCloseFails

record env =
  config_git_repo :: string
  user_home :: string
  stat_fails :: "path \<Rightarrow> bool"
  mkdir_fails :: "path \<Rightarrow> bool"
  find_beads_dir :: string
  read_fault :: "path \<Rightarrow> bool"
  write_fault :: "path \<Rightarrow> write_fault"
  append_fault :: "path \<Rightarrow> append_fault"
  commit_at_check :: "string option"
  commit_at_save :: "string option"
  store_query :: "string \<Rightarrow> gvalue list \<Rightarrow> rows option"
  now_utc :: gotime

text \<open>The calls that leave the process, in the order they are made.\<close>

datatype io_event =
    Stat path
  | MkdirAll path
  | ReadFile path
  | GetCurrentCommit
  | Query string "gvalue list"
  | AtomicWrite path bytes write_fault
  | AppendFile path bytes append_fault

record world =
  files :: "path \<rightharpoonup> bytes"
  trace :: "io_event list"

definition emit :: "io_event \<Rightarrow> world \<Rightarrow> world" where
  "emit e w = w\<lparr>trace := trace w @ [e]\<rparr>"

text \<open>
  \<^verbatim>\<open>filepath.Clean\<close> and \<^verbatim>\<open>filepath.Join\<close> of two elements, as they are on Unix,
  where the separator is the slash. \<^verbatim>\<open>Clean\<close> goes through the elements between the
  separators: an empty element and \<^verbatim>\<open>.\<close> are dropped, \<^verbatim>\<open>..\<close> removes the element
  before it, is dropped at the root and is kept at the front of a path that is not rooted;
  the empty result is \<^verbatim>\<open>.\<close>. \<^verbatim>\<open>Join\<close> joins from the first element that is not empty
  and cleans the result; it is empty when both elements are.
\<close>

fun split_sep :: "string \<Rightarrow> string list" where
  "split_sep [] = [] # []"
| "split_sep (c # cs) =
     (if c = CHR ''/'' then [] # split_sep cs
      else (case split_sep cs of [] \<Rightarrow> [c] # [] | x # xs \<Rightarrow> (c # x) # xs))"

fun clean_elems :: "bool \<Rightarrow> string list \<Rightarrow> string list \<Rightarrow> string list" where
  "clean_elems rooted out [] = out"
| "clean_elems rooted out (e # es) =
     (if e = [] \<or> e = ''.'' then clean_elems rooted out es
      else if e = ''..'' then
        (if out \<noteq> [] \<and> last out \<noteq> ''..'' then clean_elems rooted (butlast out) es
         else if rooted then clean_elems rooted out es
         else clean_elems rooted (out @ [''..'']) es)
      else clean_elems rooted (out @ [e]) es)"

fun join_sep :: "string list \<Rightarrow> string" where
  "join_sep [] = []"
| "join_sep [x] = x"
| "join_sep (x # y # ys) = x @ ''/'' @ join_sep (y # ys)"

fun is_rooted :: "path \<Rightarrow> bool" where
  "is_rooted [] = False"
| "is_rooted (c # cs) = (c = CHR ''/'')"

definition filepath_Clean :: "path \<Rightarrow> path" where
  "filepath_Clean p =
     (let rooted = is_rooted p;
          out = clean_elems rooted [] (split_sep p);
          r = (if rooted then ''/'' else []) @ join_sep out
      in if r = [] then ''.'' else r)"

definition filepath_Join :: "path \<Rightarrow> path \<Rightarrow> path" where
  "filepath_Join a b =
     (if a \<noteq> [] then filepath_Clean (a @ ''/'' @ b)
      else if b \<noteq> [] then filepath_Clean b
      else [])"

section \<open>The functions\<close>

subsection \<open>\<^verbatim>\<open>backupDir\<close>\<close>

definition backupDir :: "env \<Rightarrow> world \<Rightarrow> (error + path) \<times> world" where
  "backupDir E w =
     (let gitRepo = config_git_repo E;
          gitRepo' = (if take 2 gitRepo = ''~/'' then filepath_Join (user_home E) (drop 2 gitRepo) else gitRepo);
          w1 = (if gitRepo \<noteq> [] then emit (Stat (filepath_Join gitRepo' ''.git'')) w else w)
      in if gitRepo \<noteq> [] \<and> \<not> stat_fails E (filepath_Join gitRepo' ''.git'') then
           (let dir = filepath_Join gitRepo' ''backup'';
                w2 = emit (MkdirAll dir) w1
            in if mkdir_fails E dir then (Inl ErrCreateBackupDirInGitRepo, w2) else (Inr dir, w2))
         else
           (let beadsDir = (if find_beads_dir E = [] then ''.beads'' else find_beads_dir E);
                dir = filepath_Join beadsDir ''backup'';
                w2 = emit (MkdirAll dir) w1
            in if mkdir_fails E dir then (Inl ErrCreateBackupDir, w2) else (Inr dir, w2)))"

subsection \<open>\<^verbatim>\<open>atomicWriteFile\<close>\<close>

text \<open>
  The temporary file has a fresh name and is removed or renamed away on every path, so it
  is not kept in \<open>files\<close>: only a successful rename changes the target.
\<close>

definition atomicWriteFile :: "env \<Rightarrow> path \<Rightarrow> bytes \<Rightarrow> world \<Rightarrow> error option \<times> world" where
  "atomicWriteFile E p data w =
     (let w' = emit (AtomicWrite p data (write_fault E p)) w
      in case write_fault E p of
           CreateTempFails \<Rightarrow> (Some ErrCreateTemp, w')
         | WriteFails \<Rightarrow> (Some ErrWriteTemp, w')
         | SyncFails \<Rightarrow> (Some ErrSyncTemp, w')
         | CloseFails \<Rightarrow> (Some ErrCloseTemp, w')
         | RenameFails \<Rightarrow> (Some ErrRenameTemp, w')
         | NoFault \<Rightarrow> (None, w'\<lparr>files := (files w')(p \<mapsto> data)\<rparr>))"

subsection \<open>\<^verbatim>\<open>loadBackupState\<close> and \<^verbatim>\<open>saveBackupState\<close>\<close>

definition state_path :: "path \<Rightarrow> path" where
  "state_path dir = filepath_Join dir ''backup_state.json''"

definition loadBackupState :: "stdlib \<Rightarrow> env \<Rightarrow> path \<Rightarrow> world \<Rightarrow> (error + backupState) \<times> world" where
  "loadBackupState L E dir w =
     (let p = state_path dir;
          w' = emit (ReadFile p) w
      in case files w p of
           None \<Rightarrow> (Inr zero_state, w')
         | Some data \<Rightarrow>
             if read_fault E p then (Inl ErrReadState, w')
             else (case json_Unmarshal L data of
                     None \<Rightarrow> (Inl ErrParseState, w')
                   | Some state \<Rightarrow> (Inr state, w')))"

definition saveBackupState :: "stdlib \<Rightarrow> env \<Rightarrow> path \<Rightarrow> backupState \<Rightarrow> world \<Rightarrow> error option \<times> world" where
  "saveBackupState L E dir state w =
     (case json_MarshalIndent L state of
        None \<Rightarrow> (Some ErrMarshalState, w)
      | Some data \<Rightarrow> atomicWriteFile E (state_path dir) data w)"

subsection \<open>\<^verbatim>\<open>normalizeValue\<close>\<close>

fun normalizeValue :: "stdlib \<Rightarrow> gvalue \<Rightarrow> gvalue" where
  "normalizeValue L (VBytes val) = VString val"
| "normalizeValue L (VTime val) = (if IsZero val then VNil else VString (time_Format_RFC3339 L val))"
| "normalizeValue L VNil = VNil"
| "normalizeValue L val = val"

subsection \<open>\<^verbatim>\<open>tableExistsCheck\<close>\<close>

definition table_exists_query :: string where
  "table_exists_query = ''SELECT TABLE_NAME FROM information_schema.tables WHERE TABLE_NAME = ?''"

definition tableExistsCheck :: "env \<Rightarrow> string \<Rightarrow> world \<Rightarrow> bool \<times> world" where
  "tableExistsCheck E table w =
     (let w' = emit (Query table_exists_query [VString table]) w
      in case store_query E table_exists_query [VString table] of
           None \<Rightarrow> (False, w')
         | Some rs \<Rightarrow> (rows_scans rs \<noteq> [], w'))"

subsection \<open>\<^verbatim>\<open>exportTable\<close>\<close>

text \<open>
  The row that the loop body builds from the scanned values: \<^verbatim>\<open>row[col] =
  normalizeValue(values[i])\<close> for each column in turn, a later column of the same name
  replacing the earlier one.
\<close>

definition build_row :: "stdlib \<Rightarrow> string list \<Rightarrow> gvalue list \<Rightarrow> (string \<times> gvalue) list" where
  "build_row L cols vals =
     foldl (\<lambda>row (col, v). AList.update col (normalizeValue L v) row) [] (zip cols vals)"

definition newline :: char where
  "newline = CHR 0x0A"

text \<open>
  The loop \<^verbatim>\<open>for rows.Next() { ... }\<close> of \<^verbatim>\<open>exportTable\<close>, with the buffer
  \<^verbatim>\<open>lines\<close> and the counter \<^verbatim>\<open>count\<close> (here \<open>cnt\<close>) as accumulators. The counter is a natural
  number: it counts rows held in memory.
\<close>

fun scan_rows :: "stdlib \<Rightarrow> string list \<Rightarrow> gvalue list option list \<Rightarrow> bytes \<Rightarrow> nat \<Rightarrow> error + (bytes \<times> nat)" where
  "scan_rows L cols [] lines cnt = Inr (lines, cnt)"
| "scan_rows L cols (None # rest) lines cnt = Inl ErrScan"
| "scan_rows L cols (Some vals # rest) lines cnt =
     (case json_Marshal L (build_row L cols vals) of
        None \<Rightarrow> Inl ErrMarshal
      | Some data \<Rightarrow> scan_rows L cols rest (lines @ data @ [newline]) (Suc cnt))"

definition exportTable :: "stdlib \<Rightarrow> env \<Rightarrow> path \<Rightarrow> string \<Rightarrow> string \<Rightarrow> world \<Rightarrow> (nat \<times> error option) \<times> world" where
  "exportTable L E dir filename query w =
     (let w1 = emit (Query query []) w
      in case store_query E query [] of
           None \<Rightarrow> ((0, Some ErrQuery), w1)
         | Some rs \<Rightarrow>
             (case rows_columns rs of
                None \<Rightarrow> ((0, Some ErrColumns), w1)
              | Some cols \<Rightarrow>
                  (case scan_rows L cols (rows_scans rs) [] 0 of
                     Inl err \<Rightarrow> ((0, Some err), w1)
                   | Inr (lines, cnt) \<Rightarrow>
                       if rows_err rs then ((0, Some ErrRowIteration), w1)
                       else (let (r, w2) = atomicWriteFile E (filepath_Join dir filename) lines w1
                             in ((cnt, r), w2)))))"

subsection \<open>\<^verbatim>\<open>exportEventsIncremental\<close>\<close>

definition events_query :: "bool \<Rightarrow> string" where
  "events_query hasWisps =
     (if hasWisps then
        ''SELECT id, issue_id, event_type, actor, old_value, new_value, comment, created_at '' @
        ''FROM events WHERE id > ? '' @
        ''UNION ALL '' @
        ''SELECT id, issue_id, event_type, actor, old_value, new_value, comment, created_at '' @
        ''FROM wisp_events WHERE id > ? '' @
        ''ORDER BY id ASC''
      else
        ''SELECT id, issue_id, event_type, actor, old_value, new_value, comment, created_at '' @
        ''FROM events WHERE id > ? ORDER BY id ASC'')"

definition events_args :: "bool \<Rightarrow> backupState \<Rightarrow> gvalue list" where
  "events_args hasWisps state =
     (if hasWisps then [VInt64 (LastEventID state), VInt64 (LastEventID state)]
      else [VInt64 (LastEventID state)])"

text \<open>
  \<^verbatim>\<open>if id, ok := row["id"].(int64); ok && id > maxID { maxID = id }\<close>: the comparison
  is the signed one of \<^verbatim>\<open>int64\<close>.
\<close>

definition track_max :: "(string \<times> gvalue) list \<Rightarrow> int64 \<Rightarrow> int64" where
  "track_max row maxID =
     (case map_of row ''id'' of
        Some (VInt64 i) \<Rightarrow> if sint maxID < sint i then i else maxID
      | _ \<Rightarrow> maxID)"

fun scan_events :: "stdlib \<Rightarrow> string list \<Rightarrow> gvalue list option list \<Rightarrow> bytes \<Rightarrow> nat \<Rightarrow> int64 \<Rightarrow> error + (bytes \<times> nat \<times> int64)" where
  "scan_events L cols [] newLines cnt maxID = Inr (newLines, cnt, maxID)"
| "scan_events L cols (None # rest) newLines cnt maxID = Inl ErrScan"
| "scan_events L cols (Some vals # rest) newLines cnt maxID =
     (let row = build_row L cols vals;
          maxID' = track_max row maxID
      in case json_Marshal L row of
           None \<Rightarrow> Inl ErrMarshal
         | Some data \<Rightarrow> scan_events L cols rest (newLines @ data @ [newline]) (Suc cnt) maxID')"

text \<open>
  \<^verbatim>\<open>os.OpenFile(eventsPath, O_APPEND|O_CREATE|O_WRONLY, 0600)\<close>, \<^verbatim>\<open>f.Write\<close>,
  \<^verbatim>\<open>f.Close\<close>: a missing file is created, the bytes go after the old content.
\<close>

definition appendFile :: "env \<Rightarrow> path \<Rightarrow> bytes \<Rightarrow> world \<Rightarrow> error option \<times> world" where
  "appendFile E p data w =
     (let w' = emit (AppendFile p data (append_fault E p)) w;
          old = (case files w p of None \<Rightarrow> [] | Some c \<Rightarrow> c)
      in case append_fault E p of
           OpenFails \<Rightarrow> (Some ErrOpenEvents, w')
         | AppendWriteFails k \<Rightarrow> (Some ErrAppendEvents, w'\<lparr>files := (files w')(p \<mapsto> old @ take k data)\<rparr>)
         | AppendCloseFails \<Rightarrow> (Some ErrCloseEvents, w'\<lparr>files := (files w')(p \<mapsto> old @ data)\<rparr>)
         | AppendOK \<Rightarrow> (None, w'\<lparr>files := (files w')(p \<mapsto> old @ data)\<rparr>))"

definition exportEventsIncremental ::
  "stdlib \<Rightarrow> env \<Rightarrow> path \<Rightarrow> backupState \<Rightarrow> bool \<Rightarrow> world \<Rightarrow> (nat \<times> error option) \<times> backupState \<times> world" where
  "exportEventsIncremental L E dir state hasWisps w =
     (let query = events_query hasWisps;
          args = events_args hasWisps state;
          w1 = emit (Query query args) w
      in case store_query E query args of
           None \<Rightarrow> ((0, Some ErrQuery), state, w1)
         | Some rs \<Rightarrow>
             (case rows_columns rs of
                None \<Rightarrow> ((0, Some ErrColumns), state, w1)
              | Some cols \<Rightarrow>
                  (case scan_events L cols (rows_scans rs) [] 0 0 of
                     Inl err \<Rightarrow> ((0, Some err), state, w1)
                   | Inr (newLines, cnt, maxID) \<Rightarrow>
                       if rows_err rs then ((0, Some ErrRowIteration), state, w1)
                       else if cnt = 0 then ((0, None), state, w1)
                       else
                         (let eventsPath = filepath_Join dir ''events.jsonl'';
                              (r, w2) = (if LastEventID state = 0
                                         then atomicWriteFile E eventsPath newLines w1
                                         else appendFile E eventsPath newLines w1)
                          in case r of
                               Some err \<Rightarrow> ((0, Some err), state, w2)
                             | None \<Rightarrow> ((cnt, None), state\<lparr>LastEventID := maxID\<rparr>, w2)))))"

subsection \<open>\<^verbatim>\<open>runBackupExport\<close>\<close>

definition issues_query :: "bool \<Rightarrow> string" where
  "issues_query hasWisps =
     (if hasWisps then ''SELECT * FROM issues UNION ALL SELECT * FROM wisps ORDER BY id''
      else ''SELECT * FROM issues ORDER BY id'')"

definition comments_query :: "bool \<Rightarrow> string" where
  "comments_query hasWisps =
     (if hasWisps then
        ''SELECT id, issue_id, author, text, created_at FROM comments '' @
        ''UNION ALL '' @
        ''SELECT id, issue_id, author, text, created_at FROM wisp_comments '' @
        ''ORDER BY id''
      else ''SELECT id, issue_id, author, text, created_at FROM comments ORDER BY id'')"

definition deps_query :: "bool \<Rightarrow> string" where
  "deps_query hasWisps =
     (if hasWisps then
        ''SELECT issue_id, depends_on_id, type, created_at, created_by FROM dependencies '' @
        ''UNION ALL '' @
        ''SELECT issue_id, depends_on_id, type, created_at, created_by FROM wisp_dependencies '' @
        ''ORDER BY issue_id, depends_on_id''
      else ''SELECT issue_id, depends_on_id, type, created_at, created_by FROM dependencies ORDER BY issue_id, depends_on_id'')"

definition labels_query :: "bool \<Rightarrow> string" where
  "labels_query hasWisps =
     (if hasWisps then
        ''SELECT issue_id, label FROM labels '' @
        ''UNION ALL '' @
        ''SELECT issue_id, label FROM wisp_labels '' @
        ''ORDER BY issue_id, label''
      else ''SELECT issue_id, label FROM labels ORDER BY issue_id, label'')"

definition config_query :: string where
  "config_query = ''SELECT `key`, value FROM config ORDER BY `key`''"

text \<open>
  Lines 152 to 217 of \<^verbatim>\<open>runBackupExport\<close>: the probe for the table \<^verbatim>\<open>wisps\<close> and
  the six exports, in the order of the source. An error of an export is wrapped with the
  name of the entity and ends the run.
\<close>

definition set_count :: "(counts \<Rightarrow> counts) \<Rightarrow> backupState \<Rightarrow> backupState" where
  "set_count f state = state\<lparr>Counts := f (Counts state)\<rparr>"

definition export_entities :: "stdlib \<Rightarrow> env \<Rightarrow> path \<Rightarrow> backupState \<Rightarrow> world \<Rightarrow> (error + backupState) \<times> world" where
  "export_entities L E dir state w =
     (case tableExistsCheck E ''wisps'' w of (hasWisps, w0) \<Rightarrow>
     (case exportTable L E dir ''issues.jsonl'' (issues_query hasWisps) w0 of
        ((n1, Some err), w1) \<Rightarrow> (Inl (ErrBackup ''issues'' err), w1)
      | ((n1, None), w1) \<Rightarrow>
     (let state1 = set_count (\<lambda>c. c\<lparr>Issues := of_nat n1\<rparr>) state in
     (case exportEventsIncremental L E dir state1 hasWisps w1 of
        ((n2, Some err), state2, w2) \<Rightarrow> (Inl (ErrBackup ''events'' err), w2)
      | ((n2, None), state2, w2) \<Rightarrow>
     (let state2' = set_count (\<lambda>c. c\<lparr>Events := Events c + of_nat n2\<rparr>) state2 in
     (case exportTable L E dir ''comments.jsonl'' (comments_query hasWisps) w2 of
        ((n3, Some err), w3) \<Rightarrow> (Inl (ErrBackup ''comments'' err), w3)
      | ((n3, None), w3) \<Rightarrow>
     (let state3 = set_count (\<lambda>c. c\<lparr>Comments := of_nat n3\<rparr>) state2' in
     (case exportTable L E dir ''dependencies.jsonl'' (deps_query hasWisps) w3 of
        ((n4, Some err), w4) \<Rightarrow> (Inl (ErrBackup ''dependencies'' err), w4)
      | ((n4, None), w4) \<Rightarrow>
     (let state4 = set_count (\<lambda>c. c\<lparr>Dependencies := of_nat n4\<rparr>) state3 in
     (case exportTable L E dir ''labels.jsonl'' (labels_query hasWisps) w4 of
        ((n5, Some err), w5) \<Rightarrow> (Inl (ErrBackup ''labels'' err), w5)
      | ((n5, None), w5) \<Rightarrow>
     (let state5 = set_count (\<lambda>c. c\<lparr>Labels := of_nat n5\<rparr>) state4 in
     (case exportTable L E dir ''config.jsonl'' config_query w5 of
        ((n6, Some err), w6) \<Rightarrow> (Inl (ErrBackup ''config'' err), w6)
      | ((n6, None), w6) \<Rightarrow>
          (Inr (set_count (\<lambda>c. c\<lparr>Config := of_nat n6\<rparr>) state5), w6)))))))))))))"

text \<open>
  Lines 219 to 231: the commit is read again, the state is stamped and saved.
\<close>

definition update_watermarks :: "stdlib \<Rightarrow> env \<Rightarrow> path \<Rightarrow> backupState \<Rightarrow> world \<Rightarrow> (error + backupState) \<times> world" where
  "update_watermarks L E dir state w =
     (let w1 = emit GetCurrentCommit w
      in case commit_at_save E of
           None \<Rightarrow> (Inl ErrGetCommitForState, w1)
         | Some currentCommit \<Rightarrow>
             (let state' = state\<lparr>LastDoltCommit := currentCommit, Timestamp := now_utc E\<rparr>
              in case saveBackupState L E dir state' w1 of
                   (Some err, w2) \<Rightarrow> (Inl err, w2)
                 | (None, w2) \<Rightarrow> (Inr state', w2)))"

text \<open>
  The change detection of lines 140 to 150: \<open>None\<close> when the run goes on, otherwise the
  value that \<^verbatim>\<open>runBackupExport\<close> returns at that point.
\<close>

definition change_detection :: "env \<Rightarrow> bool \<Rightarrow> backupState \<Rightarrow> world \<Rightarrow> (error + backupState) option \<times> world" where
  "change_detection E force state w =
     (if \<not> force then
        (let w1 = emit GetCurrentCommit w
         in case commit_at_check E of
              None \<Rightarrow> (Some (Inl ErrGetCommit), w1)
            | Some currentCommit \<Rightarrow>
                if currentCommit = LastDoltCommit state \<and> LastDoltCommit state \<noteq> []
                then (Some (Inr state), w1)
                else (None, w1))
      else (None, w))"

definition runBackupExport :: "stdlib \<Rightarrow> env \<Rightarrow> bool \<Rightarrow> world \<Rightarrow> (error + backupState) \<times> world" where
  "runBackupExport L E force w =
     (case backupDir E w of
        (Inl err, w1) \<Rightarrow> (Inl err, w1)
      | (Inr dir, w1) \<Rightarrow>
          (case loadBackupState L E dir w1 of
             (Inl err, w2) \<Rightarrow> (Inl err, w2)
           | (Inr state, w2) \<Rightarrow>
               (case change_detection E force state w2 of
                  (Some result, w3) \<Rightarrow> (result, w3)
                | (None, w3) \<Rightarrow>
                    (case export_entities L E dir state w3 of
                       (Inl err, w4) \<Rightarrow> (Inl err, w4)
                     | (Inr state4, w4) \<Rightarrow> update_watermarks L E dir state4 w4))))"

section \<open>Vocabulary of the properties\<close>

text \<open>The calls that an operation has added to the trace.\<close>

definition new_events :: "world \<Rightarrow> world \<Rightarrow> io_event list" where
  "new_events w w' = drop (length (trace w)) (trace w')"

fun is_file_write :: "io_event \<Rightarrow> bool" where
  "is_file_write (AtomicWrite p d f) = True"
| "is_file_write (AppendFile p d f) = True"
| "is_file_write e = False"

fun queries_of :: "io_event list \<Rightarrow> string list" where
  "queries_of [] = []"
| "queries_of (Query q args # es) = q # queries_of es"
| "queries_of (e # es) = queries_of es"

text \<open>The answer of the probe for the table \<^verbatim>\<open>wisps\<close>, as \<^verbatim>\<open>tableExistsCheck\<close> reads it.\<close>

definition has_wisps :: "env \<Rightarrow> bool" where
  "has_wisps E = fst (tableExistsCheck E ''wisps'' \<lparr>files = Map.empty, trace = []\<rparr>)"

text \<open>
  A failure among the rows of a result set: a scan that fails, a row that
  \<^verbatim>\<open>json.Marshal\<close> rejects, or an error of the iteration.
\<close>

definition row_ok :: "stdlib \<Rightarrow> string list \<Rightarrow> gvalue list option \<Rightarrow> bool" where
  "row_ok L cols sc = (case sc of None \<Rightarrow> False | Some vals \<Rightarrow> json_Marshal L (build_row L cols vals) \<noteq> None)"

definition row_failure :: "stdlib \<Rightarrow> string list \<Rightarrow> rows \<Rightarrow> bool" where
  "row_failure L cols rs = (\<not> list_all (row_ok L cols) (rows_scans rs) \<or> rows_err rs)"

text \<open>The line of one row, and the buffer of a list of rows: one JSON object per line.\<close>

definition json_line :: "stdlib \<Rightarrow> string list \<Rightarrow> gvalue list option \<Rightarrow> bytes" where
  "json_line L cols sc = the (json_Marshal L (build_row L cols (the sc))) @ [newline]"

definition jsonl :: "stdlib \<Rightarrow> string list \<Rightarrow> gvalue list option list \<Rightarrow> bytes" where
  "jsonl L cols scs = concat (map (json_line L cols) scs)"

text \<open>The store queries of a run that is not cut short, in the order of the source.\<close>

definition export_order :: "bool \<Rightarrow> string list" where
  "export_order hasWisps =
     [table_exists_query, issues_query hasWisps, events_query hasWisps, comments_query hasWisps,
      deps_query hasWisps, labels_query hasWisps, config_query]"

definition snapshot_queries :: "bool \<Rightarrow> string list" where
  "snapshot_queries hasWisps =
     [issues_query hasWisps, comments_query hasWisps, deps_query hasWisps, labels_query hasWisps, config_query]"

text \<open>
  The order that the specification gives (all full snapshots, then the incremental
  stream), read on the list of the queries of a run: no query of a full snapshot comes
  at or after the query of the events.
\<close>

definition snapshots_before_incremental :: "bool \<Rightarrow> string list \<Rightarrow> bool" where
  "snapshots_before_incremental hasWisps qs =
     list_all (\<lambda>q. q \<notin> set (snapshot_queries hasWisps)) (dropWhile (\<lambda>q. q \<noteq> events_query hasWisps) qs)"

text \<open>The paths that the exports write in a backup directory.\<close>

definition data_files :: "string list" where
  "data_files = [''issues.jsonl'', ''events.jsonl'', ''comments.jsonl'', ''dependencies.jsonl'', ''labels.jsonl'', ''config.jsonl'']"

definition data_path :: "path \<Rightarrow> path \<Rightarrow> bool" where
  "data_path dir p = (p \<in> set (map (filepath_Join dir) data_files))"

text \<open>The base name of a path: what follows its last separator.\<close>

definition base_name :: "path \<Rightarrow> string" where
  "base_name p = rev (takeWhile (\<lambda>c. c \<noteq> CHR ''/'') (rev p))"

fun written_path :: "io_event \<Rightarrow> path option" where
  "written_path (AtomicWrite p d f) = Some p"
| "written_path (AppendFile p d f) = Some p"
| "written_path e = None"

definition writes_state_file :: "io_event \<Rightarrow> bool" where
  "writes_state_file e =
     (case written_path e of None \<Rightarrow> False | Some p \<Rightarrow> base_name p = ''backup_state.json'')"

text \<open>The number of rows that the store delivers for a query.\<close>

definition row_count :: "env \<Rightarrow> string \<Rightarrow> gvalue list \<Rightarrow> nat" where
  "row_count E q args = (case store_query E q args of None \<Rightarrow> 0 | Some rs \<Rightarrow> length (rows_scans rs))"

text \<open>
  The key of an exported event: the value of its column \<^verbatim>\<open>id\<close> when that is an
  \<^verbatim>\<open>int64\<close>, as the type assertion of \<^verbatim>\<open>exportEventsIncremental\<close> reads it.
\<close>

definition row_id :: "stdlib \<Rightarrow> string list \<Rightarrow> gvalue list option \<Rightarrow> int64 option" where
  "row_id L cols sc =
     (case sc of
        None \<Rightarrow> None
      | Some vals \<Rightarrow> (case map_of (build_row L cols vals) ''id'' of Some (VInt64 i) \<Rightarrow> Some i | _ \<Rightarrow> None))"

definition event_ids :: "stdlib \<Rightarrow> string list \<Rightarrow> gvalue list option list \<Rightarrow> int64 list" where
  "event_ids L cols scs = List.map_filter (row_id L cols) scs"

text \<open>The value of \<^verbatim>\<open>maxID\<close> after the loop has gone through the rows.\<close>

definition track_all :: "stdlib \<Rightarrow> string list \<Rightarrow> gvalue list option list \<Rightarrow> int64 \<Rightarrow> int64" where
  "track_all L cols scs maxID = foldl (\<lambda>m sc. track_max (build_row L cols (the sc)) m) maxID scs"

text \<open>
  What the filter \<^verbatim>\<open>WHERE id > ?\<close> of the events query asks of the store: every row of
  the answer has an \<^verbatim>\<open>int64\<close> key above the watermark that was passed.
\<close>

definition newer_rows :: "stdlib \<Rightarrow> int64 \<Rightarrow> rows \<Rightarrow> bool" where
  "newer_rows L wm rs =
     (case rows_columns rs of
        None \<Rightarrow> True
      | Some cols \<Rightarrow>
          list_all (\<lambda>sc. case row_id L cols sc of None \<Rightarrow> False | Some i \<Rightarrow> sint wm < sint i) (rows_scans rs))"

definition honours_filter :: "stdlib \<Rightarrow> env \<Rightarrow> backupState \<Rightarrow> bool" where
  "honours_filter L E state =
     (case store_query E (events_query (has_wisps E)) (events_args (has_wisps E) state) of
        None \<Rightarrow> True
      | Some rs \<Rightarrow> newer_rows L (LastEventID state) rs)"

text \<open>
  The order that the specification asks of a merged export, in its own words: a stable
  ascending merge by key, the row of the primary table first where keys are equal.
\<close>

fun spec_stable_merge :: "('a \<Rightarrow> int) \<Rightarrow> 'a list \<Rightarrow> 'a list \<Rightarrow> 'a list" where
  "spec_stable_merge key [] ys = ys"
| "spec_stable_merge key xs [] = xs"
| "spec_stable_merge key (x # xs) (y # ys) =
     (if key x \<le> key y then x # spec_stable_merge key xs (y # ys)
      else y # spec_stable_merge key (x # xs) ys)"

text \<open>
  What \<^verbatim>\<open>SELECT ... UNION ALL SELECT ... ORDER BY id\<close> asks of the store: the answer
  holds the rows of both tables and is ascending by key. SQL leaves the order of rows with
  equal keys open.
\<close>

definition answers_union_order_by :: "('a \<Rightarrow> int) \<Rightarrow> 'a list \<Rightarrow> 'a list \<Rightarrow> 'a list \<Rightarrow> bool" where
  "answers_union_order_by key primary shadow answer \<longleftrightarrow>
     mset answer = mset primary + mset shadow \<and> sorted (map key answer)"

definition id_key :: "gvalue list option \<Rightarrow> int" where
  "id_key sc = (case sc of Some (VInt64 i # _) \<Rightarrow> sint i | _ \<Rightarrow> 0)"

text \<open>
  The counts of a state after the six exports: the state is the one that
  \<^verbatim>\<open>exportEventsIncremental\<close> has left (the count of the issues is set before that call),
  \<open>n2\<close> is the number of events exported now, the other numbers are the rows of the
  full snapshots.
\<close>

definition with_counts :: "nat \<Rightarrow> nat \<Rightarrow> nat \<Rightarrow> nat \<Rightarrow> nat \<Rightarrow> backupState \<Rightarrow> backupState" where
  "with_counts n2 n3 n4 n5 n6 state =
     state\<lparr>Counts := (Counts state)\<lparr>Events := Events (Counts state) + of_nat n2, Comments := of_nat n3,
                Dependencies := of_nat n4, Labels := of_nat n5, Config := of_nat n6\<rparr>\<rparr>"



text \<open>
  A device of the proofs: \<open>w'\<close> comes from \<open>w\<close> by calls that make the queries \<open>qs\<close>
  in this order and write only files whose path satisfies \<open>P\<close>.
\<close>

definition step :: "string list \<Rightarrow> (path \<Rightarrow> bool) \<Rightarrow> world \<Rightarrow> world \<Rightarrow> bool" where
  "step qs P w w' \<longleftrightarrow>
     (\<exists>evs. trace w' = trace w @ evs \<and> queries_of evs = qs
        \<and> (\<forall>e \<in> set evs. \<forall>p. written_path e = Some p \<longrightarrow> P p))
     \<and> (\<forall>p. \<not> P p \<longrightarrow> files w' p = files w p)"

text \<open>The environment in which the store answers the probe with no row.\<close>

definition without_wisps :: "env \<Rightarrow> env" where
  "without_wisps E =
     E\<lparr>store_query := (\<lambda>q args. if q = table_exists_query then Some (Rows (Some [''TABLE_NAME'']) [] False)
                                 else store_query E q args)\<rparr>"

section \<open>Sample collaborators\<close>

text \<open>
  Concrete values for the parameters of the model, on which the theorems are tried. The
  theorems themselves hold for every \<open>stdlib\<close> and every \<open>env\<close>.
  \<^item> Times are rendered in the layout \<^verbatim>\<open>2006-01-02T15:04:05Z07:00\<close> as package
    \<^verbatim>\<open>time\<close> does, with the fraction of a second for the timestamp of a state.
  \<^item> Rows and states are encoded as \<^verbatim>\<open>encoding/json\<close> encodes them when the values
    are null, booleans, \<^verbatim>\<open>int64\<close> and strings of printable ASCII characters: the keys
    of a row sorted, the state indented by two spaces. The sample encoder rejects a value
    of any further type.
  \<^item> The decoder of states is a table of documents.
  \<^item> A store is a function from the statement and its arguments to the result set.
\<close>

text \<open>The decimal digits of a natural number.\<close>

fun nat_digits :: "nat \<Rightarrow> string" where
  "nat_digits n =
     (if n < 10 then [''0123456789'' ! n]
      else nat_digits (n div 10) @ [''0123456789'' ! (n mod 10)])"

declare nat_digits.simps [simp del]

text \<open>\<^verbatim>\<open>appendInt\<close> of package \<^verbatim>\<open>time\<close>: the sign, then the digits padded with zeros to the width.\<close>

definition appendInt :: "int \<Rightarrow> nat \<Rightarrow> string" where
  "appendInt x width =
     (let ds = nat_digits (nat \<bar>x\<bar>)
      in (if x < 0 then ''-'' else []) @ replicate (width - length ds) (CHR ''0'') @ ds)"

text \<open>Year, month and day of the proleptic Gregorian calendar, from the days since January 1, year 1.\<close>

definition civil_from_days :: "int \<Rightarrow> int \<times> int \<times> int" where
  "civil_from_days z =
     (let z' = z + 306;
          era = z' div 146097;
          doe = z' mod 146097;
          yoe = (doe - doe div 1460 + doe div 36524 - doe div 146096) div 365;
          y = yoe + era * 400;
          doy = doe - (365 * yoe + yoe div 4 - yoe div 100);
          mp = (5 * doy + 2) div 153;
          d = doy - (153 * mp + 2) div 5 + 1;
          m = (if mp < 10 then mp + 3 else mp - 9)
      in (if m \<le> 2 then y + 1 else y, m, d))"

text \<open>The zone of the layout: \<^verbatim>\<open>Z\<close> for the offset 0, otherwise sign, hours and minutes.\<close>

definition format_zone :: "int \<Rightarrow> string" where
  "format_zone offset =
     (if offset = 0 then ''Z''
      else (let zone = \<bar>offset\<bar> div 60
            in (if offset \<le> - 60 then ''-'' else ''+'') @
               appendInt (zone div 60) 2 @ '':'' @ appendInt (zone mod 60) 2))"

text \<open>The fraction of a second of the layout \<^verbatim>\<open>RFC3339Nano\<close>: no trailing zeros, nothing for 0.\<close>

definition format_fraction :: "nat \<Rightarrow> string" where
  "format_fraction ns =
     (if ns = 0 then []
      else ''.'' @ rev (dropWhile (\<lambda>c. c = CHR ''0'') (rev (appendInt (int ns) 9))))"

definition format_time :: "bool \<Rightarrow> gotime \<Rightarrow> string" where
  "format_time nanos t =
     (let abs = t_sec t + t_offset t;
          (year, month, day) = civil_from_days (abs div 86400);
          s = abs mod 86400
      in appendInt year 4 @ ''-'' @ appendInt month 2 @ ''-'' @ appendInt day 2 @ ''T'' @
         appendInt (s div 3600) 2 @ '':'' @ appendInt (s mod 3600 div 60) 2 @ '':'' @
         appendInt (s mod 60) 2 @
         (if nanos then format_fraction (t_nsec t) else []) @ format_zone (t_offset t))"

text \<open>A string of JSON, with the escapes of \<^verbatim>\<open>encoding/json\<close> for the quote, the backslash,
  the line breaks, the tabulator and the characters that it escapes for HTML.\<close>

fun json_escape :: "string \<Rightarrow> string" where
  "json_escape [] = []"
| "json_escape (c # cs) =
     (if c = CHR 0x22 then [CHR 0x5C, CHR 0x22]
      else if c = CHR 0x5C then [CHR 0x5C, CHR 0x5C]
      else if c = CHR 0x0A then [CHR 0x5C, CHR ''n'']
      else if c = CHR 0x0D then [CHR 0x5C, CHR ''r'']
      else if c = CHR 0x09 then [CHR 0x5C, CHR ''t'']
      else if c = CHR ''<'' then [CHR 0x5C] @ ''u003c''
      else if c = CHR ''>'' then [CHR 0x5C] @ ''u003e''
      else if c = CHR ''&'' then [CHR 0x5C] @ ''u0026''
      else [c]) @ json_escape cs"

definition json_string :: "string \<Rightarrow> string" where
  "json_string s = [CHR 0x22] @ json_escape s @ [CHR 0x22]"

fun json_value :: "gvalue \<Rightarrow> string option" where
  "json_value VNil = Some ''null''"
| "json_value (VBool b) = Some (if b then ''true'' else ''false'')"
| "json_value (VInt64 i) = Some (appendInt (sint i) 0)"
| "json_value (VString s) = Some (json_string s)"
| "json_value v = None"

fun json_members :: "(string \<times> gvalue) list \<Rightarrow> string list option" where
  "json_members [] = Some []"
| "json_members ((k, v) # kvs) =
     (case json_value v of
        None \<Rightarrow> None
      | Some j \<Rightarrow> map_option ((#) (json_string k @ '':'' @ j)) (json_members kvs))"

fun join_with :: "string \<Rightarrow> string list \<Rightarrow> string" where
  "join_with sep [] = []"
| "join_with sep [x] = x"
| "join_with sep (x # y # ys) = x @ sep @ join_with sep (y # ys)"

definition sample_Marshal :: "(string \<times> gvalue) list \<Rightarrow> bytes option" where
  "sample_Marshal row =
     map_option (\<lambda>ms. ''{'' @ join_with '','' ms @ ''}'') (json_members (sort_key fst row))"

definition sample_MarshalIndent :: "backupState \<Rightarrow> bytes option" where
  \<open>sample_MarshalIndent s =
     (let year = fst (civil_from_days ((t_sec (Timestamp s) + t_offset (Timestamp s)) div 86400));
          c = Counts s
      in if year < 0 \<or> 9999 < year then None
         else Some (
           ''{'' @ [newline] @
           ''  "last_dolt_commit": '' @ json_string (LastDoltCommit s) @ '','' @ [newline] @
           ''  "last_event_id": '' @ appendInt (sint (LastEventID s)) 0 @ '','' @ [newline] @
           ''  "timestamp": '' @ json_string (format_time True (Timestamp s)) @ '','' @ [newline] @
           ''  "counts": {'' @ [newline] @
           ''    "issues": '' @ appendInt (sint (Issues c)) 0 @ '','' @ [newline] @
           ''    "events": '' @ appendInt (sint (Events c)) 0 @ '','' @ [newline] @
           ''    "comments": '' @ appendInt (sint (Comments c)) 0 @ '','' @ [newline] @
           ''    "dependencies": '' @ appendInt (sint (Dependencies c)) 0 @ '','' @ [newline] @
           ''    "labels": '' @ appendInt (sint (Labels c)) 0 @ '','' @ [newline] @
           ''    "config": '' @ appendInt (sint (Config c)) 0 @ [newline] @
           ''  }'' @ [newline] @
           ''}''))\<close>

definition sample_lib :: "(bytes \<times> backupState) list \<Rightarrow> stdlib" where
  "sample_lib docs =
     \<lparr>time_Format_RFC3339 = format_time False,
      json_Marshal = sample_Marshal,
      json_MarshalIndent = sample_MarshalIndent,
      json_Unmarshal = map_of docs\<rparr>"

text \<open>A result set without rows.\<close>

definition empty_rows :: "string list \<Rightarrow> rows" where
  "empty_rows cols = Rows (Some cols) [] False"

text \<open>The instant 2006-01-02 15:04:05 UTC.\<close>

definition sample_time :: gotime where
  "sample_time = \<lparr>t_sec = 63271811045, t_nsec = 0, t_offset = 0\<rparr>"

text \<open>An environment without faults: the backup directory is \<^verbatim>\<open>/repo/.beads/backup\<close>, the
  store reports the given commit at both readings.\<close>

definition sample_env :: "(string \<Rightarrow> gvalue list \<Rightarrow> rows option) \<Rightarrow> string \<Rightarrow> env" where
  "sample_env store commit =
     \<lparr>config_git_repo = [],
      user_home = ''/home/sam'',
      stat_fails = (\<lambda>p. False),
      mkdir_fails = (\<lambda>p. False),
      find_beads_dir = ''/repo/.beads'',
      read_fault = (\<lambda>p. False),
      write_fault = (\<lambda>p. NoFault),
      append_fault = (\<lambda>p. AppendOK),
      commit_at_check = Some commit,
      commit_at_save = Some commit,
      store_query = store,
      now_utc = sample_time\<rparr>"

definition sample_dir :: path where
  "sample_dir = ''/repo/.beads/backup''"

text \<open>The world with the given files and no call made so far.\<close>

definition world_with :: "(path \<times> bytes) list \<Rightarrow> world" where
  "world_with fs = \<lparr>files = map_of fs, trace = []\<rparr>"

text \<open>Stores. The first fails on the probe and has no rows otherwise; the second answers only
  the events query, with no row; the third answers only the issues query, with the given
  rows.\<close>

definition probe_fails_store :: "string \<Rightarrow> gvalue list \<Rightarrow> rows option" where
  "probe_fails_store q args = (if q = table_exists_query then None else Some (empty_rows []))"

definition no_events_store :: "string \<Rightarrow> gvalue list \<Rightarrow> rows option" where
  "no_events_store q args = (if q = events_query False then Some (empty_rows [''id'', ''event_type'']) else None)"

definition two_issues :: "gvalue list option list" where
  "two_issues = [Some [VBytes ''bd-1'', VBytes ''First''], Some [VBytes ''bd-2'', VBytes ''Second'']]"

definition issues_store :: "gvalue list option list \<Rightarrow> string \<Rightarrow> gvalue list \<Rightarrow> rows option" where
  "issues_store scans q args = (if q = issues_query False then Some (Rows (Some [''id'', ''title'']) scans False) else None)"

text \<open>A state file as an earlier run may have left it, and the state that it parses to.\<close>

definition recorded_state :: backupState where
  "recorded_state =
     zero_state\<lparr>LastDoltCommit := ''abc123'', LastEventID := 2,
       Counts := zero_counts\<lparr>Issues := 9, Events := 5\<rparr>\<rparr>"

definition recorded_doc :: bytes where
  \<open>recorded_doc = ''{"last_dolt_commit":"abc123","last_event_id":2,"counts":{"issues":9,"events":5}}''\<close>

text \<open>A store with two issues and no events, whose comments query fails: the third export of a
  run is the first to fail.\<close>

definition comments_fail_store :: "string \<Rightarrow> gvalue list \<Rightarrow> rows option" where
  "comments_fail_store q args =
     (if q = table_exists_query then Some (empty_rows [''TABLE_NAME''])
      else if q = issues_query False then Some (Rows (Some [''id'', ''title'']) two_issues False)
      else if q = events_query False then Some (empty_rows [''id'', ''event_type''])
      else None)"

text \<open>A store that answers every statement with no row.\<close>

definition no_rows_store :: "string \<Rightarrow> gvalue list \<Rightarrow> rows option" where
  "no_rows_store q args = Some (empty_rows [])"

text \<open>A store with tables of issues and events, whose events query returns the rows above the
  watermark, and without the table \<^verbatim>\<open>wisps\<close>.\<close>

definition sample_event :: "int64 \<Rightarrow> gvalue list" where
  "sample_event i = [VInt64 i, VBytes ''created'']"

definition newer_than :: "int64 \<Rightarrow> gvalue list \<Rightarrow> bool" where
  "newer_than wm vals = (case vals of VInt64 i # rest \<Rightarrow> sint wm < sint i | _ \<Rightarrow> False)"

definition table_store :: "gvalue list option list \<Rightarrow> gvalue list list \<Rightarrow> string \<Rightarrow> gvalue list \<Rightarrow> rows option" where
  "table_store issues events q args =
     (if q = table_exists_query then Some (empty_rows [''TABLE_NAME''])
      else if q = issues_query False then Some (Rows (Some [''id'', ''title'']) issues False)
      else if q = events_query False then
        (case args of
           [VInt64 wm] \<Rightarrow> Some (Rows (Some [''id'', ''event_type'']) (map Some (filter (newer_than wm) events)) False)
         | _ \<Rightarrow> None)
      else Some (empty_rows []))"

text \<open>The rows of the example of the specification: primary keys 1, 3, 5, shadow keys 2, 3, 4,
  and an answer to the merged query that is ascending by key with the shadow row first at
  key 3.\<close>

definition primary_rows :: "gvalue list option list" where
  "primary_rows = [Some [VInt64 1, VBytes ''p1''], Some [VInt64 3, VBytes ''p3''], Some [VInt64 5, VBytes ''p5'']]"

definition shadow_rows :: "gvalue list option list" where
  "shadow_rows = [Some [VInt64 2, VBytes ''s2''], Some [VInt64 3, VBytes ''s3''], Some [VInt64 4, VBytes ''s4'']]"

definition tie_answer :: "gvalue list option list" where
  "tie_answer = [Some [VInt64 1, VBytes ''p1''], Some [VInt64 2, VBytes ''s2''], Some [VInt64 3, VBytes ''s3''],
                 Some [VInt64 3, VBytes ''p3''], Some [VInt64 4, VBytes ''s4''], Some [VInt64 5, VBytes ''p5'']]"

definition union_store :: "string \<Rightarrow> gvalue list \<Rightarrow> rows option" where
  "union_store q args =
     (if q = issues_query True \<or> q = events_query True
      then Some (Rows (Some [''id'', ''title'']) tie_answer False) else None)"

text \<open>Two runs in a row: the first on a fresh directory with the events 1 and 2, the second
  after the events 3 and 4 have come. \<open>first_doc\<close> is the state file that the first run writes.\<close>

definition first_state :: backupState where
  "first_state =
     \<lparr>LastDoltCommit = ''c1'', LastEventID = 2, Timestamp = sample_time,
      Counts = \<lparr>Issues = 2, Events = 2, Comments = 0, Dependencies = 0, Labels = 0, Config = 0\<rparr>\<rparr>"

definition second_state :: backupState where
  "second_state =
     \<lparr>LastDoltCommit = ''c2'', LastEventID = 4, Timestamp = sample_time,
      Counts = \<lparr>Issues = 2, Events = 4, Comments = 0, Dependencies = 0, Labels = 0, Config = 0\<rparr>\<rparr>"

definition first_doc :: bytes where
  \<open>first_doc =
     ''{'' @ [newline] @
     ''  "last_dolt_commit": "c1",'' @ [newline] @
     ''  "last_event_id": 2,'' @ [newline] @
     ''  "timestamp": "2006-01-02T15:04:05Z",'' @ [newline] @
     ''  "counts": {'' @ [newline] @
     ''    "issues": 2,'' @ [newline] @
     ''    "events": 2,'' @ [newline] @
     ''    "comments": 0,'' @ [newline] @
     ''    "dependencies": 0,'' @ [newline] @
     ''    "labels": 0,'' @ [newline] @
     ''    "config": 0'' @ [newline] @
     ''  }'' @ [newline] @
     ''}''\<close>

definition first_env :: env where
  "first_env = sample_env (table_store two_issues (map sample_event [1, 2])) ''c1''"

definition second_env :: env where
  "second_env = sample_env (table_store two_issues (map sample_event [1, 2, 3, 4])) ''c2''"

definition first_world :: world where
  "first_world = snd (runBackupExport (sample_lib [(first_doc, first_state)]) first_env False (world_with []))"

text \<open>The worlds of a run against the store whose comments query fails, on a directory that
  holds a state file and an old file of issues: at the start, after the probe, after the
  export of the issues, and at the end.\<close>

definition aborted_start :: world where
  "aborted_start = world_with [(state_path sample_dir, recorded_doc), (filepath_Join sample_dir ''issues.jsonl'', ''old'')]"

definition aborted_probed :: world where
  "aborted_probed =
     aborted_start\<lparr>trace := [MkdirAll sample_dir, ReadFile (state_path sample_dir), GetCurrentCommit,
                             Query table_exists_query [VString ''wisps'']]\<rparr>"

definition aborted_issues :: world where
  \<open>aborted_issues =
     \<lparr>files = (files aborted_start)(filepath_Join sample_dir ''issues.jsonl'' \<mapsto>
                ''{"id":"bd-1","title":"First"}'' @ [newline] @ ''{"id":"bd-2","title":"Second"}'' @ [newline]),
      trace = trace aborted_probed @
        [Query (issues_query False) [],
         AtomicWrite (filepath_Join sample_dir ''issues.jsonl'')
           (''{"id":"bd-1","title":"First"}'' @ [newline] @ ''{"id":"bd-2","title":"Second"}'' @ [newline]) NoFault]\<rparr>\<close>

definition aborted_end :: world where
  "aborted_end =
     aborted_issues\<lparr>trace := trace aborted_issues @ [Query (events_query False) [VInt64 2], Query (comments_query False) []]\<rparr>"

text \<open>The world after an export that has written the given bytes, and the worlds of the first
  run: after the probe, after the export of the issues, of the events, of the labels, and
  after the last export.\<close>

definition exported :: "string \<Rightarrow> path \<Rightarrow> bytes \<Rightarrow> world \<Rightarrow> world" where
  "exported q p data w =
     \<lparr>files = (files w)(p \<mapsto> data), trace = trace w @ [Query q [], AtomicWrite p data NoFault]\<rparr>"






text \<open>A store as the second run may find it when the driver delivers the column \<^verbatim>\<open>id\<close> of
  the events as bytes: one event above the watermark 2. \<open>reset_state\<close> is the state
  that the run against it returns.\<close>

definition byte_id_store :: "string \<Rightarrow> gvalue list \<Rightarrow> rows option" where
  "byte_id_store q args =
     (if q = table_exists_query then Some (empty_rows [''TABLE_NAME''])
      else if q = issues_query False then Some (Rows (Some [''id'', ''title'']) two_issues False)
      else if q = events_query False then
        (if args = [VInt64 2] then Some (Rows (Some [''id'', ''event_type'']) [Some [VBytes ''3'', VBytes ''created'']] False)
         else None)
      else Some (empty_rows []))"

definition byte_id_env :: env where
  "byte_id_env = sample_env byte_id_store ''c2''"

definition reset_state :: backupState where
  "reset_state =
     \<lparr>LastDoltCommit = ''c2'', LastEventID = 0, Timestamp = sample_time,
      Counts = \<lparr>Issues = 2, Events = 3, Comments = 0, Dependencies = 0, Labels = 0, Config = 0\<rparr>\<rparr>"

section \<open>Effects of the operations\<close>

lemma files_emit [simp]: "files (emit e w) = files w"
  by (simp add: emit_def)

lemma trace_emit [simp]: "trace (emit e w) = trace w @ [e]"
  by (simp add: emit_def)

lemma new_events_append [simp]: "trace w' = trace w @ evs \<Longrightarrow> new_events w w' = evs"
  by (simp add: new_events_def)

lemma new_events_self [simp]: "new_events w w = []"
  by (simp add: new_events_def)

lemma scan_rows_ok:
  "list_all (row_ok L cols) scs \<Longrightarrow>
   scan_rows L cols scs lines n = Inr (lines @ jsonl L cols scs, n + length scs)"
proof (induction scs arbitrary: lines n)
  case Nil
  then show ?case by (simp add: jsonl_def)
next
  case (Cons sc scs)
  then obtain vals data where sc: "sc = Some vals" and m: "json_Marshal L (build_row L cols vals) = Some data"
    by (auto simp: row_ok_def split: option.splits)
  from Cons have "scan_rows L cols scs (lines @ data @ [newline]) (Suc n)
      = Inr ((lines @ data @ [newline]) @ jsonl L cols scs, Suc n + length scs)"
    by simp
  with sc m show ?case by (simp add: jsonl_def json_line_def)
qed

lemma scan_rows_fail:
  "\<not> list_all (row_ok L cols) scs \<Longrightarrow>
   scan_rows L cols scs lines n = Inl ErrScan \<or> scan_rows L cols scs lines n = Inl ErrMarshal"
proof (induction scs arbitrary: lines n)
  case Nil
  then show ?case by simp
next
  case (Cons sc scs)
  show ?case
  proof (cases sc)
    case None
    then show ?thesis by simp
  next
    case (Some vals)
    show ?thesis
    proof (cases "json_Marshal L (build_row L cols vals)")
      case None
      with Some show ?thesis by simp
    next
      case (Some data)
      with \<open>sc = Some vals\<close> have "row_ok L cols sc"
        by (simp add: row_ok_def)
      with Cons.prems have "\<not> list_all (row_ok L cols) scs"
        by simp
      from Cons.IH [OF this] Some \<open>sc = Some vals\<close> show ?thesis by simp
    qed
  qed
qed

lemma atomicWriteFile_NoFault:
  "write_fault E p = NoFault \<Longrightarrow>
   atomicWriteFile E p data w = (None, (emit (AtomicWrite p data NoFault) w)\<lparr>files := (files w)(p \<mapsto> data)\<rparr>)"
  by (simp add: atomicWriteFile_def Let_def)

lemma atomicWriteFile_fault:
  "write_fault E p \<noteq> NoFault \<Longrightarrow>
   \<exists>err. atomicWriteFile E p data w = (Some err, emit (AtomicWrite p data (write_fault E p)) w)"
  by (simp add: atomicWriteFile_def Let_def split: write_fault.splits)

lemma exportTable_row_failure:
  assumes "store_query E q [] = Some rs" "rows_columns rs = Some cols" "row_failure L cols rs"
  shows "\<exists>err. exportTable L E dir fn q w = ((0, Some err), emit (Query q []) w)
           \<and> err \<in> {ErrScan, ErrMarshal, ErrRowIteration}"
proof (cases "list_all (row_ok L cols) (rows_scans rs)")
  case True
  with assms have "rows_err rs" by (simp add: row_failure_def)
  with assms True show ?thesis
    by (simp add: exportTable_def Let_def scan_rows_ok)
next
  case False
  from scan_rows_fail [OF this, of "[]" 0] assms show ?thesis
    by (auto simp: exportTable_def Let_def)
qed

lemma exportTable_rows_ok:
  assumes "store_query E q [] = Some rs" "rows_columns rs = Some cols" "\<not> row_failure L cols rs"
  shows "exportTable L E dir fn q w =
           (let (r, w') = atomicWriteFile E (filepath_Join dir fn) (jsonl L cols (rows_scans rs)) (emit (Query q []) w)
            in ((length (rows_scans rs), r), w'))"
  using assms by (simp add: exportTable_def Let_def scan_rows_ok row_failure_def)


lemma queries_of_append [simp]: "queries_of (xs @ ys) = queries_of xs @ queries_of ys"
  by (induction xs rule: queries_of.induct) simp_all

lemma step_trans: "step qs P w w' \<Longrightarrow> step qs' P w' w'' \<Longrightarrow> step (qs @ qs') P w w''"
  unfolding step_def by (elim conjE exE) (rule conjI, rule_tac x = "evs @ evsa" in exI, auto)

lemma step_mono: "step qs P w w' \<Longrightarrow> (\<And>p. P p \<Longrightarrow> Q p) \<Longrightarrow> step qs Q w w'"
  unfolding step_def by blast

lemma scan_events_ok:
  "list_all (row_ok L cols) scs \<Longrightarrow>
   scan_events L cols scs lines n m = Inr (lines @ jsonl L cols scs, n + length scs, track_all L cols scs m)"
proof (induction scs arbitrary: lines n m)
  case Nil
  then show ?case by (simp add: jsonl_def track_all_def)
next
  case (Cons sc scs)
  then obtain vals data where sc: "sc = Some vals" and m: "json_Marshal L (build_row L cols vals) = Some data"
    by (auto simp: row_ok_def split: option.splits)
  from Cons have "scan_events L cols scs (lines @ data @ [newline]) (Suc n) (track_max (build_row L cols vals) m)
      = Inr ((lines @ data @ [newline]) @ jsonl L cols scs, Suc n + length scs,
             track_all L cols scs (track_max (build_row L cols vals) m))"
    by simp
  with sc m show ?case by (simp add: jsonl_def json_line_def track_all_def Let_def)
qed

lemma scan_events_fail:
  "\<not> list_all (row_ok L cols) scs \<Longrightarrow>
   scan_events L cols scs lines n m = Inl ErrScan \<or> scan_events L cols scs lines n m = Inl ErrMarshal"
proof (induction scs arbitrary: lines n m)
  case Nil
  then show ?case by simp
next
  case (Cons sc scs)
  show ?case
  proof (cases sc)
    case None
    then show ?thesis by simp
  next
    case (Some vals)
    show ?thesis
    proof (cases "json_Marshal L (build_row L cols vals)")
      case None
      with Some show ?thesis by (simp add: Let_def)
    next
      case (Some data)
      with \<open>sc = Some vals\<close> have "row_ok L cols sc"
        by (simp add: row_ok_def)
      with Cons.prems have "\<not> list_all (row_ok L cols) scs"
        by simp
      from Cons.IH [OF this] Some \<open>sc = Some vals\<close> show ?thesis by (simp add: Let_def)
    qed
  qed
qed

lemma tableExistsCheck_eq:
  "tableExistsCheck E ''wisps'' w = (has_wisps E, emit (Query table_exists_query [VString ''wisps'']) w)"
  by (simp add: tableExistsCheck_def has_wisps_def Let_def split: option.splits)

lemma step_tableExistsCheck: "step [table_exists_query] P w (snd (tableExistsCheck E ''wisps'' w))"
  by (simp add: tableExistsCheck_eq step_def)

lemma step_exportTable:
  "P (filepath_Join dir fn) \<Longrightarrow> step [q] P w (snd (exportTable L E dir fn q w))"
  by (auto simp: exportTable_def Let_def atomicWriteFile_def step_def
      split: option.splits sum.splits prod.splits write_fault.splits)

lemma step_exportEvents:
  "P (filepath_Join dir ''events.jsonl'') \<Longrightarrow>
   step [events_query hw] P w (snd (snd (exportEventsIncremental L E dir st hw w)))"
  by (auto simp: exportEventsIncremental_def Let_def atomicWriteFile_def appendFile_def step_def
      split: option.splits sum.splits prod.splits write_fault.splits append_fault.splits)

lemma step_exportTable_data:
  "fn \<in> set data_files \<Longrightarrow> step [q] (data_path dir) w (snd (exportTable L E dir fn q w))"
  by (rule step_exportTable) (simp add: data_path_def)

lemma step_exportEvents_data:
  "step [events_query hw] (data_path dir) w (snd (snd (exportEventsIncremental L E dir st hw w)))"
  by (rule step_exportEvents) (simp add: data_path_def data_files_def)

lemma export_entities_step:
  assumes run: "export_entities L E dir st w = (r, w')"
  shows "\<exists>qs. prefix qs (export_order (has_wisps E)) \<and> step qs (data_path dir) w w'
           \<and> prefix [table_exists_query, issues_query (has_wisps E)] qs
           \<and> ((\<exists>st'. r = Inr st') \<longrightarrow> qs = export_order (has_wisps E))"
proof -
  define hw where "hw = has_wisps E"
  define P where "P = data_path dir"
  define w0 where "w0 = emit (Query table_exists_query [VString ''wisps'']) w"
  note defs = export_entities_def tableExistsCheck_eq hw_def [symmetric] w0_def [symmetric] Let_def
  have s0: "step [table_exists_query] P w w0"
    using step_tableExistsCheck [of P w E] by (simp add: tableExistsCheck_eq w0_def)
  obtain n1 r1 w1 where X1: "exportTable L E dir ''issues.jsonl'' (issues_query hw) w0 = ((n1, r1), w1)"
    by (metis prod.exhaust)
  have "step [issues_query hw] P w0 w1"
    using step_exportTable_data [of "''issues.jsonl''" "issues_query hw" dir w0 L E]
    by (simp add: X1 P_def data_files_def)
  from step_trans [OF s0 this]
  have s1: "step [table_exists_query, issues_query hw] P w w1"
    by simp
  define st1 where "st1 = set_count (\<lambda>c. c\<lparr>Issues := of_nat n1\<rparr>) st"
  obtain n2 r2 st2 w2 where X2: "exportEventsIncremental L E dir st1 hw w1 = ((n2, r2), st2, w2)"
    by (metis prod.exhaust)
  have "step [events_query hw] P w1 w2"
    using step_exportEvents_data [of hw dir w1 L E st1] by (simp add: X2 P_def)
  from step_trans [OF s1 this]
  have s2: "step [table_exists_query, issues_query hw, events_query hw] P w w2"
    by simp
  obtain n3 r3 w3 where X3: "exportTable L E dir ''comments.jsonl'' (comments_query hw) w2 = ((n3, r3), w3)"
    by (metis prod.exhaust)
  have "step [comments_query hw] P w2 w3"
    using step_exportTable_data [of "''comments.jsonl''" "comments_query hw" dir w2 L E]
    by (simp add: X3 P_def data_files_def)
  from step_trans [OF s2 this]
  have s3: "step [table_exists_query, issues_query hw, events_query hw, comments_query hw] P w w3"
    by simp
  obtain n4 r4 w4 where X4: "exportTable L E dir ''dependencies.jsonl'' (deps_query hw) w3 = ((n4, r4), w4)"
    by (metis prod.exhaust)
  have "step [deps_query hw] P w3 w4"
    using step_exportTable_data [of "''dependencies.jsonl''" "deps_query hw" dir w3 L E]
    by (simp add: X4 P_def data_files_def)
  from step_trans [OF s3 this]
  have s4: "step [table_exists_query, issues_query hw, events_query hw, comments_query hw, deps_query hw] P w w4"
    by simp
  obtain n5 r5 w5 where X5: "exportTable L E dir ''labels.jsonl'' (labels_query hw) w4 = ((n5, r5), w5)"
    by (metis prod.exhaust)
  have "step [labels_query hw] P w4 w5"
    using step_exportTable_data [of "''labels.jsonl''" "labels_query hw" dir w4 L E]
    by (simp add: X5 P_def data_files_def)
  from step_trans [OF s4 this]
  have s5: "step [table_exists_query, issues_query hw, events_query hw, comments_query hw, deps_query hw, labels_query hw] P w w5"
    by simp
  obtain n6 r6 w6 where X6: "exportTable L E dir ''config.jsonl'' config_query w5 = ((n6, r6), w6)"
    by (metis prod.exhaust)
  have "step [config_query] P w5 w6"
    using step_exportTable_data [of "''config.jsonl''" config_query dir w5 L E]
    by (simp add: X6 P_def data_files_def)
  from step_trans [OF s5 this]
  have s6: "step (export_order hw) P w w6"
    by (simp add: export_order_def)
  have goal: "prefix qs (export_order hw) \<Longrightarrow> step qs P w w' \<Longrightarrow> prefix [table_exists_query, issues_query hw] qs
      \<Longrightarrow> (\<And>st'. r = Inr st' \<Longrightarrow> qs = export_order hw) \<Longrightarrow> ?thesis" for qs
    unfolding hw_def P_def by blast
  show ?thesis
  proof (cases r1)
    case (Some err)
    with run X1 have "r = Inl (ErrBackup ''issues'' err)" "w' = w1"
      by (auto simp: defs)
    with s1 show ?thesis
      by (intro goal [of "[table_exists_query, issues_query hw]"]) (simp_all add: export_order_def)
  next
    case r1: None
    show ?thesis
    proof (cases r2)
      case (Some err)
      with run X1 X2 r1 have "r = Inl (ErrBackup ''events'' err)" "w' = w2"
        by (auto simp: defs st1_def [symmetric])
      with s2 show ?thesis
        by (intro goal [of "[table_exists_query, issues_query hw, events_query hw]"]) (simp_all add: export_order_def)
    next
      case r2: None
      show ?thesis
      proof (cases r3)
        case (Some err)
        with run X1 X2 X3 r1 r2 have "r = Inl (ErrBackup ''comments'' err)" "w' = w3"
          by (auto simp: defs st1_def [symmetric])
        with s3 show ?thesis
          by (intro goal [of "[table_exists_query, issues_query hw, events_query hw, comments_query hw]"])
            (simp_all add: export_order_def)
      next
        case r3: None
        show ?thesis
        proof (cases r4)
          case (Some err)
          with run X1 X2 X3 X4 r1 r2 r3 have "r = Inl (ErrBackup ''dependencies'' err)" "w' = w4"
            by (auto simp: defs st1_def [symmetric])
          with s4 show ?thesis
            by (intro goal [of "[table_exists_query, issues_query hw, events_query hw, comments_query hw, deps_query hw]"])
              (simp_all add: export_order_def)
        next
          case r4: None
          show ?thesis
          proof (cases r5)
            case (Some err)
            with run X1 X2 X3 X4 X5 r1 r2 r3 r4 have "r = Inl (ErrBackup ''labels'' err)" "w' = w5"
              by (auto simp: defs st1_def [symmetric])
            with s5 show ?thesis
              by (intro goal [of "[table_exists_query, issues_query hw, events_query hw, comments_query hw, deps_query hw, labels_query hw]"])
                (simp_all add: export_order_def)
          next
            case r5: None
            show ?thesis
            proof (cases r6)
              case (Some err)
              with run X1 X2 X3 X4 X5 X6 r1 r2 r3 r4 r5 have "r = Inl (ErrBackup ''config'' err)" "w' = w6"
                by (auto simp: defs st1_def [symmetric])
              with s6 show ?thesis
                by (intro goal [of "export_order hw"]) (simp_all add: export_order_def)
            next
              case r6: None
              with run X1 X2 X3 X4 X5 X6 r1 r2 r3 r4 r5 have "w' = w6"
                by (auto simp: defs st1_def [symmetric])
              with s6 show ?thesis
                by (intro goal [of "export_order hw"]) (simp_all add: export_order_def)
            qed
          qed
        qed
      qed
    qed
  qed
qed

lemma export_entities_Inr:
  assumes "export_entities L E dir st w = (Inr st', w')"
  shows "\<exists>n1 w1 n2 st2 w2 n3 w3 n4 w4 n5 w5 n6.
     exportTable L E dir ''issues.jsonl'' (issues_query (has_wisps E))
       (emit (Query table_exists_query [VString ''wisps'']) w) = ((n1, None), w1)
   \<and> exportEventsIncremental L E dir (set_count (\<lambda>c. c\<lparr>Issues := of_nat n1\<rparr>) st) (has_wisps E) w1 = ((n2, None), st2, w2)
   \<and> exportTable L E dir ''comments.jsonl'' (comments_query (has_wisps E)) w2 = ((n3, None), w3)
   \<and> exportTable L E dir ''dependencies.jsonl'' (deps_query (has_wisps E)) w3 = ((n4, None), w4)
   \<and> exportTable L E dir ''labels.jsonl'' (labels_query (has_wisps E)) w4 = ((n5, None), w5)
   \<and> exportTable L E dir ''config.jsonl'' config_query w5 = ((n6, None), w')
   \<and> st' = set_count (\<lambda>c. c\<lparr>Config := of_nat n6\<rparr>)
             (set_count (\<lambda>c. c\<lparr>Labels := of_nat n5\<rparr>)
             (set_count (\<lambda>c. c\<lparr>Dependencies := of_nat n4\<rparr>)
             (set_count (\<lambda>c. c\<lparr>Comments := of_nat n3\<rparr>)
             (set_count (\<lambda>c. c\<lparr>Events := Events c + of_nat n2\<rparr>) st2))))"
  using assms
  by (simp add: export_entities_def tableExistsCheck_eq Let_def split: prod.splits option.splits)

lemma step_backupDir: "step [] P w (snd (backupDir E w))"
  by (simp add: backupDir_def Let_def step_def)

lemma step_loadBackupState: "step [] P w (snd (loadBackupState L E dir w))"
  by (simp add: loadBackupState_def Let_def step_def split: option.splits)

lemma step_files: "step qs (\<lambda>p. False) w w' \<Longrightarrow> files w' = files w"
  by (auto simp: step_def)

lemma is_file_write_iff: "is_file_write e \<longleftrightarrow> written_path e \<noteq> None"
  by (cases e) simp_all

lemma step_new_events:
  assumes "step qs P w w'"
  shows "queries_of (new_events w w') = qs"
    and "\<And>e p. e \<in> set (new_events w w') \<Longrightarrow> written_path e = Some p \<Longrightarrow> P p"
    and "trace w' = trace w @ new_events w w'"
  using assms by (auto simp: step_def)

lemma step_no_writes: "step qs (\<lambda>p. False) w w' \<Longrightarrow> \<not> list_ex is_file_write (new_events w w')"
  by (auto simp: step_def is_file_write_iff list_ex_iff)

lemma step_change_detection: "step [] P w (snd (change_detection E force st w))"
  by (simp add: change_detection_def Let_def step_def split: option.splits)

lemma step_atomicWriteFile: "P p \<Longrightarrow> step [] P w (snd (atomicWriteFile E p data w))"
  by (auto simp: atomicWriteFile_def Let_def step_def split: write_fault.splits)

lemma step_update_watermarks:
  "P (state_path dir) \<Longrightarrow> step [] P w (snd (update_watermarks L E dir st w))"
  by (auto simp: update_watermarks_def saveBackupState_def atomicWriteFile_def Let_def step_def
      split: option.splits write_fault.splits)

lemma step_refl: "step [] P w w"
  by (simp add: step_def)

lemma runBackupExport_cases:
  assumes run: "runBackupExport L E force w = (r, w')"
  obtains
    (early) "step [] (\<lambda>p. False) w w'"
      "\<And>dir st0. fst (backupDir E w) = Inr dir \<Longrightarrow> fst (loadBackupState L E dir w) = Inr st0 \<Longrightarrow>
         r = Inl ErrGetCommit \<or> (r = Inr st0 \<and> \<not> force \<and> commit_at_check E = Some (LastDoltCommit st0) \<and> LastDoltCommit st0 \<noteq> [])"
  | (export_failed) dir st0 w3 err where
      "fst (backupDir E w) = Inr dir" "fst (loadBackupState L E dir w) = Inr st0"
      "step [] (\<lambda>p. False) w w3"
      "export_entities L E dir st0 w3 = (Inl err, w')" "r = Inl err"
  | (exported) dir st0 w3 st4 w4 where
      "fst (backupDir E w) = Inr dir" "fst (loadBackupState L E dir w) = Inr st0"
      "step [] (\<lambda>p. False) w w3"
      "export_entities L E dir st0 w3 = (Inr st4, w4)"
      "update_watermarks L E dir st4 w4 = (r, w')"
proof -
  obtain r1 w1 where bd: "backupDir E w = (r1, w1)"
    by (metis prod.exhaust)
  have s1: "step [] (\<lambda>p. False) w w1"
    using step_backupDir [of "\<lambda>p. False" w E] by (simp add: bd)
  show thesis
  proof (cases r1)
    case (Inl err)
    with run bd have "w' = w1" by (simp add: runBackupExport_def)
    with s1 Inl bd show thesis by (intro early) simp_all
  next
    case (Inr dir)
    obtain r2 w2 where ld: "loadBackupState L E dir w1 = (r2, w2)"
      by (metis prod.exhaust)
    have f1: "files w1 = files w"
      using s1 by (rule step_files)
    have ld': "fst (loadBackupState L E dir w) = r2"
      using ld f1 by (auto simp: loadBackupState_def Let_def split: option.splits if_splits)
    have "step [] (\<lambda>p. False) w1 w2"
      using step_loadBackupState [of "\<lambda>p. False" w1 L E dir] by (simp add: ld)
    from step_trans [OF s1 this] have s2: "step [] (\<lambda>p. False) w w2"
      by simp
    show thesis
    proof (cases r2)
      case (Inl err)
      with run bd ld Inr have "w' = w2" by (simp add: runBackupExport_def)
      with s2 Inl Inr bd ld' show thesis by (intro early) simp_all
    next
      case st0: (Inr st0)
      obtain r3 w3 where cd: "change_detection E force st0 w2 = (r3, w3)"
        by (metis prod.exhaust)
      have "step [] (\<lambda>p. False) w2 w3"
        using step_change_detection [of "\<lambda>p. False" w2 E force st0] by (simp add: cd)
      from step_trans [OF s2 this] have s3: "step [] (\<lambda>p. False) w w3"
        by simp
      show thesis
      proof (cases r3)
        case (Some res)
        with run bd ld Inr st0 cd have rw: "r = res" "w' = w3"
          by (simp_all add: runBackupExport_def)
        from cd Some have "res = Inl ErrGetCommit
            \<or> (res = Inr st0 \<and> \<not> force \<and> commit_at_check E = Some (LastDoltCommit st0) \<and> LastDoltCommit st0 \<noteq> [])"
          by (auto simp: change_detection_def Let_def split: if_splits option.splits)
        with rw s3 Inr st0 bd ld' show thesis
          by (intro early) auto
      next
        case None
        obtain r4 w4 where ex: "export_entities L E dir st0 w3 = (r4, w4)"
          by (metis prod.exhaust)
        show thesis
        proof (cases r4)
          case (Inl err)
          with run bd ld Inr st0 cd None ex have "r = Inl err" "w' = w4"
            by (simp_all add: runBackupExport_def)
          with ex Inl s3 bd ld' Inr st0 show thesis
            by (intro export_failed [of dir st0 w3 err]) simp_all
        next
          case st4: (Inr st4)
          with run bd ld Inr st0 cd None ex have "update_watermarks L E dir st4 w4 = (r, w')"
            by (simp add: runBackupExport_def)
          with ex st4 s3 bd ld' Inr st0 show thesis
            by (intro exported [of dir st0 w3 st4 w4]) simp_all
        qed
      qed
    qed
  qed
qed

text \<open>Paths: the join of a directory and a file name.\<close>

lemma split_sep_nonempty [simp]: "split_sep s \<noteq> []"
  by (induction s) (auto split: list.splits)

lemma split_sep_append: "split_sep (d @ CHR ''/'' # n) = split_sep d @ split_sep n"
  by (induction d) (auto split: list.splits)

lemma split_sep_simple: "CHR ''/'' \<notin> set n \<Longrightarrow> split_sep n = [n]"
  by (induction n) (auto split: list.splits)

lemma clean_elems_append:
  "clean_elems r out (es @ fs) = clean_elems r (clean_elems r out es) fs"
  by (induction es arbitrary: out) auto

lemma join_sep_snoc: "join_sep (xs @ [n]) = (if xs = [] then n else join_sep xs @ ''/'' @ n)"
  by (induction xs rule: join_sep.induct) auto

text \<open>The join with a file name puts the name after a prefix that the directory fixes.\<close>

lemma Join_file_name:
  "\<exists>pre. (pre = [] \<or> last pre = CHR ''/'')
      \<and> (\<forall>n. n \<noteq> [] \<and> CHR ''/'' \<notin> set n \<and> n \<noteq> ''.'' \<and> n \<noteq> ''..'' \<longrightarrow> filepath_Join d n = pre @ n)"
proof (cases "d = []")
  case True
  have "filepath_Join d n = [] @ n" if "n \<noteq> []" "CHR ''/'' \<notin> set n" "n \<noteq> ''.''" "n \<noteq> ''..''" for n
  proof -
    from that have "\<not> is_rooted n"
      by (cases n) auto
    with True that show ?thesis
      by (simp add: filepath_Join_def filepath_Clean_def split_sep_simple Let_def)
  qed
  then show ?thesis
    by blast
next
  case False
  define pre where "pre = (if is_rooted d then ''/'' else []) @
      (case clean_elems (is_rooted d) [] (split_sep d) of [] \<Rightarrow> [] | out \<Rightarrow> join_sep out @ ''/'')"
  have e: "pre = [] \<or> last pre = CHR ''/''"
    by (simp add: pre_def split: list.splits)
  have "filepath_Join d n = pre @ n" if n: "n \<noteq> []" "CHR ''/'' \<notin> set n" "n \<noteq> ''.''" "n \<noteq> ''..''" for n
  proof -
    from False have t: "is_rooted (d @ CHR ''/'' # n) = is_rooted d"
      by (cases d) simp_all
    from n have one: "clean_elems r out [n] = out @ [n]" for r out
      by simp
    have "clean_elems r [] (split_sep (d @ CHR ''/'' # n)) = clean_elems r [] (split_sep d) @ [n]" for r
      using n by (simp add: split_sep_append split_sep_simple clean_elems_append one del: clean_elems.simps)
    with False n show ?thesis
      by (simp add: filepath_Join_def filepath_Clean_def pre_def Let_def t join_sep_snoc split: list.splits)
  qed
  with e show ?thesis
    by blast
qed

lemma takeWhile_no_slash:
  "CHR ''/'' \<notin> set xs \<Longrightarrow> takeWhile (\<lambda>c. c \<noteq> CHR ''/'') (xs @ CHR ''/'' # ys) = xs"
  by (induction xs) auto

lemma takeWhile_all_no_slash:
  "CHR ''/'' \<notin> set xs \<Longrightarrow> takeWhile (\<lambda>c. c \<noteq> CHR ''/'') xs = xs"
  by (induction xs) auto

lemma base_name_prefixed:
  assumes "CHR ''/'' \<notin> set n" "pre = [] \<or> last pre = CHR ''/''"
  shows "base_name (pre @ n) = n"
proof (cases "pre = []")
  case True
  with assms show ?thesis by (simp add: base_name_def takeWhile_all_no_slash)
next
  case False
  with assms obtain q where "pre = q @ [CHR ''/'']"
    by (metis append_butlast_last_id)
  with assms show ?thesis by (simp add: base_name_def takeWhile_no_slash)
qed

lemma base_name_Join:
  assumes "CHR ''/'' \<notin> set n" "n \<noteq> []" "n \<noteq> ''.''" "n \<noteq> ''..''"
  shows "base_name (filepath_Join d n) = n"
proof -
  from Join_file_name [of d] assms obtain pre where
    "pre = [] \<or> last pre = CHR ''/''" "filepath_Join d n = pre @ n"
    by blast
  with assms(1) show ?thesis
    by (simp add: base_name_prefixed)
qed


text \<open>The paths of the sample directory.\<close>

lemma sample_paths:
  "filepath_Join ''/repo/.beads'' ''backup'' = ''/repo/.beads/backup''"
  "filepath_Join ''/repo/.beads/backup'' ''backup_state.json'' = ''/repo/.beads/backup/backup_state.json''"
  "filepath_Join ''/repo/.beads/backup'' ''issues.jsonl'' = ''/repo/.beads/backup/issues.jsonl''"
  "filepath_Join ''/repo/.beads/backup'' ''events.jsonl'' = ''/repo/.beads/backup/events.jsonl''"
  "filepath_Join ''/repo/.beads/backup'' ''comments.jsonl'' = ''/repo/.beads/backup/comments.jsonl''"
  "filepath_Join ''/repo/.beads/backup'' ''dependencies.jsonl'' = ''/repo/.beads/backup/dependencies.jsonl''"
  "filepath_Join ''/repo/.beads/backup'' ''labels.jsonl'' = ''/repo/.beads/backup/labels.jsonl''"
  "filepath_Join ''/repo/.beads/backup'' ''config.jsonl'' = ''/repo/.beads/backup/config.jsonl''"
  by code_simp+

text \<open>A separator at the end of the directory, a doubled separator and an element
  \<^verbatim>\<open>.\<close> or \<^verbatim>\<open>..\<close> do not show in the result.\<close>

lemma Join_cleans:
  "filepath_Join ''/repo/.beads/'' ''backup'' = ''/repo/.beads/backup''"
  "filepath_Join ''/repo//.beads'' ''backup'' = ''/repo/.beads/backup''"
  "filepath_Join ''/repo/./x/../.beads'' ''backup'' = ''/repo/.beads/backup''"
  "filepath_Join ''.beads'' ''backup'' = ''.beads/backup''"
  "filepath_Join ''/home/sam'' ''../repo'' = ''/home/repo''"
  by code_simp+

lemma base_name_state_path [simp]: "base_name (state_path d) = ''backup_state.json''"
  by (simp add: state_path_def base_name_Join)

lemma data_path_base_name: "data_path dir p \<Longrightarrow> base_name p \<in> set data_files"
  by (auto simp: data_path_def data_files_def base_name_Join)

lemma data_path_not_state: "data_path dir p \<Longrightarrow> base_name p \<noteq> ''backup_state.json''"
  by (auto simp: data_path_def data_files_def base_name_Join)

lemma run_queries:
  assumes run: "runBackupExport L E force w = (r, w')"
  shows "prefix (queries_of (new_events w w')) (export_order (has_wisps E))"
  using run
proof (cases rule: runBackupExport_cases)
  case early
  then show ?thesis by (simp add: step_new_events(1))
next
  case (export_failed dir st0 w3 err)
  from export_entities_step [OF export_failed(4)] obtain qs where
    qs: "prefix qs (export_order (has_wisps E))" "step qs (data_path dir) w3 w'"
    by blast
  from step_trans [OF step_mono [OF export_failed(3), of "data_path dir"] qs(2)]
  have "step qs (data_path dir) w w'" by simp
  with qs(1) show ?thesis by (simp add: step_new_events(1))
next
  case (exported dir st0 w3 st4 w4)
  define P where "P = (\<lambda>p. data_path dir p \<or> p = state_path dir)"
  from export_entities_step [OF exported(4)] obtain qs where
    qs: "prefix qs (export_order (has_wisps E))" "step qs (data_path dir) w3 w4"
    by blast
  have a: "step [] P w w3"
    using step_mono [OF exported(3), of P] by simp
  have b: "step qs P w3 w4"
    using step_mono [OF qs(2), of P] by (simp add: P_def)
  have c: "step [] P w4 w'"
    using step_update_watermarks [of P dir w4 L E st4] by (simp add: exported(5) P_def)
  from step_trans [OF step_trans [OF a b] c] have "step qs P w w'" by simp
  with qs(1) show ?thesis by (simp add: step_new_events(1))
qed

lemma query_distinct:
  "issues_query hw \<noteq> table_exists_query"
  "events_query hw \<noteq> table_exists_query"
  "comments_query hw \<noteq> table_exists_query"
  "deps_query hw \<noteq> table_exists_query"
  "labels_query hw \<noteq> table_exists_query"
  "config_query \<noteq> table_exists_query"
  by (simp_all add: issues_query_def events_query_def comments_query_def deps_query_def labels_query_def
      config_query_def table_exists_query_def)

lemma without_wisps_fields:
  "config_git_repo (without_wisps E) = config_git_repo E"
  "user_home (without_wisps E) = user_home E"
  "stat_fails (without_wisps E) = stat_fails E"
  "mkdir_fails (without_wisps E) = mkdir_fails E"
  "find_beads_dir (without_wisps E) = find_beads_dir E"
  "read_fault (without_wisps E) = read_fault E"
  "write_fault (without_wisps E) = write_fault E"
  "append_fault (without_wisps E) = append_fault E"
  "commit_at_check (without_wisps E) = commit_at_check E"
  "commit_at_save (without_wisps E) = commit_at_save E"
  "now_utc (without_wisps E) = now_utc E"
  by (simp_all add: without_wisps_def)

lemma without_wisps_ops:
  "backupDir (without_wisps E) = backupDir E"
  "loadBackupState L (without_wisps E) = loadBackupState L E"
  "change_detection (without_wisps E) = change_detection E"
  "atomicWriteFile (without_wisps E) = atomicWriteFile E"
  "appendFile (without_wisps E) = appendFile E"
  by (simp_all add: fun_eq_iff backupDir_def loadBackupState_def change_detection_def
      atomicWriteFile_def appendFile_def without_wisps_fields Let_def
      cong: option.case_cong if_cong)

lemma without_wisps_update_watermarks:
  "update_watermarks L (without_wisps E) = update_watermarks L E"
  by (simp add: fun_eq_iff update_watermarks_def saveBackupState_def without_wisps_ops without_wisps_fields Let_def
      cong: option.case_cong if_cong)

lemma store_query_without_wisps:
  "store_query (without_wisps E) q args =
     (if q = table_exists_query then Some (Rows (Some [''TABLE_NAME'']) [] False) else store_query E q args)"
  by (simp add: without_wisps_def)

lemma without_wisps_exportTable:
  "q \<noteq> table_exists_query \<Longrightarrow> exportTable L (without_wisps E) dir fn q w = exportTable L E dir fn q w"
  by (simp add: exportTable_def without_wisps_ops store_query_without_wisps Let_def
      cong: option.case_cong sum.case_cong prod.case_cong if_cong)

lemma without_wisps_exportEvents:
  "exportEventsIncremental L (without_wisps E) dir st hw w = exportEventsIncremental L E dir st hw w"
  by (simp add: exportEventsIncremental_def without_wisps_ops store_query_without_wisps query_distinct Let_def
      cong: option.case_cong sum.case_cong prod.case_cong if_cong)

lemma has_wisps_without [simp]: "has_wisps (without_wisps E) = False"
  by (simp add: has_wisps_def tableExistsCheck_def without_wisps_def empty_rows_def Let_def)

lemma has_wisps_failed_probe:
  "store_query E table_exists_query [VString ''wisps''] = None \<Longrightarrow> has_wisps E = False"
  by (simp add: has_wisps_def tableExistsCheck_def Let_def)

lemma without_wisps_export_entities:
  "has_wisps E = False \<Longrightarrow> export_entities L (without_wisps E) dir st w = export_entities L E dir st w"
  by (simp add: export_entities_def tableExistsCheck_eq without_wisps_exportTable without_wisps_exportEvents
      query_distinct cong: prod.case_cong option.case_cong)

lemmas query_defs = table_exists_query_def issues_query_def events_query_def comments_query_def
  deps_query_def labels_query_def config_query_def

lemmas run_defs = runBackupExport_def backupDir_def loadBackupState_def change_detection_def
  export_entities_def tableExistsCheck_def exportTable_def exportEventsIncremental_def
  atomicWriteFile_def appendFile_def events_args_def sample_paths state_path_def emit_def
  set_count_def update_watermarks_def saveBackupState_def Let_def

lemma sample_now_year: "fst (civil_from_days ((t_sec sample_time + t_offset sample_time) div 86400)) = 2006"
  by code_simp

lemma sample_MarshalIndent_now:
  "Timestamp st = sample_time \<Longrightarrow> sample_MarshalIndent st \<noteq> None"
  by (simp add: sample_MarshalIndent_def sample_now_year Let_def)

lemma jsonl_two_issues:
  \<open>jsonl (sample_lib []) [''id'', ''title''] two_issues =
     ''{"id":"bd-1","title":"First"}'' @ [newline] @ ''{"id":"bd-2","title":"Second"}'' @ [newline]\<close>
  by code_simp

lemma two_issues_ok: "list_all (row_ok (sample_lib []) [''id'', ''title'']) two_issues"
  by code_simp

lemma has_wisps_probe_fails [simp]: "has_wisps (sample_env probe_fails_store c) = False"
  by (simp add: has_wisps_def tableExistsCheck_def sample_env_def probe_fails_store_def Let_def)

lemma step_no_state_write:
  assumes "step qs P w w'" and "\<And>p. P p \<Longrightarrow> base_name p \<noteq> ''backup_state.json''"
  shows "filter writes_state_file (new_events w w') = []"
    and "base_name p = ''backup_state.json'' \<Longrightarrow> files w' p = files w p"
  using assms by (auto simp: step_def writes_state_file_def filter_empty_conv split: option.splits)

lemma load_depends_on_file:
  "files w' (state_path d) = files w (state_path d) \<Longrightarrow>
   fst (loadBackupState L E d w') = fst (loadBackupState L E d w)"
  by (simp add: loadBackupState_def Let_def split: option.splits)

lemma update_watermarks_cases:
  assumes "update_watermarks L E dir st w = (r, w')"
  obtains
    (no_write) err where "r = Inl err" "trace w' = trace w @ [GetCurrentCommit]" "files w' = files w"
  | (attempt) c data where
      "commit_at_save E = Some c"
      "json_MarshalIndent L (st\<lparr>LastDoltCommit := c, Timestamp := now_utc E\<rparr>) = Some data"
      "trace w' = trace w @ [GetCurrentCommit, AtomicWrite (state_path dir) data (write_fault E (state_path dir))]"
      "write_fault E (state_path dir) \<noteq> NoFault \<Longrightarrow> (\<exists>err. r = Inl err) \<and> files w' = files w"
      "write_fault E (state_path dir) = NoFault \<Longrightarrow>
         r = Inr (st\<lparr>LastDoltCommit := c, Timestamp := now_utc E\<rparr>) \<and> files w' = (files w)(state_path dir \<mapsto> data)"
proof (cases "commit_at_save E")
  case None
  with assms show thesis
    by (intro no_write [of ErrGetCommitForState]) (auto simp: update_watermarks_def Let_def)
next
  case (Some c)
  show thesis
  proof (cases "json_MarshalIndent L (st\<lparr>LastDoltCommit := c, Timestamp := now_utc E\<rparr>)")
    case None
    with assms Some show thesis
      by (intro no_write [of ErrMarshalState]) (auto simp: update_watermarks_def saveBackupState_def Let_def)
  next
    case (Some data)
    with assms \<open>commit_at_save E = Some c\<close> show thesis
      by (intro attempt [of c data])
        (auto simp: update_watermarks_def saveBackupState_def atomicWriteFile_def Let_def
          split: write_fault.splits)
  qed
qed

lemma new_events_trans:
  "trace b = trace a @ xs \<Longrightarrow> trace c = trace b @ ys \<Longrightarrow> new_events a c = new_events a b @ ys"
  by (simp add: new_events_def)

lemma writes_state_file_AtomicWrite [simp]:
  "writes_state_file (AtomicWrite (state_path dir) data f)"
  by (simp add: writes_state_file_def)

lemma writes_state_file_GetCurrentCommit [simp]: "\<not> writes_state_file GetCurrentCommit"
  by (simp add: writes_state_file_def)

lemma marshal_two_issues:
  \<open>sample_Marshal [(''id'', VString ''bd-1''), (''title'', VString ''First'')] = Some ''{"id":"bd-1","title":"First"}''\<close>
  \<open>sample_Marshal [(''id'', VString ''bd-2''), (''title'', VString ''Second'')] = Some ''{"id":"bd-2","title":"Second"}''\<close>
  by code_simp+

lemma comments_fail_run:
  \<open>runBackupExport (sample_lib [(recorded_doc, recorded_state)]) (sample_env comments_fail_store ''def456'') False
       (world_with [(state_path sample_dir, recorded_doc), (filepath_Join sample_dir ''issues.jsonl'', ''old'')])
   = (Inl (ErrBackup ''comments'' ErrQuery),
      \<lparr>files = map_of [(filepath_Join sample_dir ''issues.jsonl'',
                          ''{"id":"bd-1","title":"First"}'' @ [newline] @ ''{"id":"bd-2","title":"Second"}'' @ [newline]),
                        (state_path sample_dir, recorded_doc)],
        trace = [MkdirAll sample_dir, ReadFile (state_path sample_dir), GetCurrentCommit,
                 Query table_exists_query [VString ''wisps''],
                 Query (issues_query False) [],
                 AtomicWrite (filepath_Join sample_dir ''issues.jsonl'')
                   (''{"id":"bd-1","title":"First"}'' @ [newline] @ ''{"id":"bd-2","title":"Second"}'' @ [newline]) NoFault,
                 Query (events_query False) [VInt64 2],
                 Query (comments_query False) []]\<rparr>)\<close>
  by (simp add: run_defs query_defs sample_env_def sample_lib_def comments_fail_store_def world_with_def
      empty_rows_def recorded_state_def recorded_doc_def zero_state_def zero_counts_def zero_time_def
      sample_dir_def two_issues_def build_row_def marshal_two_issues fun_eq_iff)

lemma exportTable_success_query:
  assumes "exportTable L E dir fn q w = ((n, None), w')"
  shows "\<exists>rs cols. store_query E q [] = Some rs \<and> rows_columns rs = Some cols \<and> \<not> row_failure L cols rs"
proof (cases "store_query E q []")
  case None
  with assms show ?thesis by (simp add: exportTable_def Let_def)
next
  case (Some rs)
  show ?thesis
  proof (cases "rows_columns rs")
    case None
    with assms Some show ?thesis by (simp add: exportTable_def Let_def)
  next
    case c: (Some cols)
    have "\<not> row_failure L cols rs"
    proof
      assume "row_failure L cols rs"
      from exportTable_row_failure [OF Some c this, of dir fn w] assms show False by auto
    qed
    with Some c show ?thesis by simp
  qed
qed

lemma atomicWriteFile_None:
  assumes "atomicWriteFile E p data w = (None, w')"
  shows "write_fault E p = NoFault" "trace w' = trace w @ [AtomicWrite p data NoFault]"
    "files w' = (files w)(p \<mapsto> data)"
  using assms by (auto simp: atomicWriteFile_def Let_def split: write_fault.splits)

lemma exportTable_success:
  assumes "exportTable L E dir fn q w = ((n, None), w')"
  obtains rs cols where
    "store_query E q [] = Some rs" "rows_columns rs = Some cols" "\<not> row_failure L cols rs"
    "n = length (rows_scans rs)" "write_fault E (filepath_Join dir fn) = NoFault"
    "trace w' = trace w @ [Query q [], AtomicWrite (filepath_Join dir fn) (jsonl L cols (rows_scans rs)) NoFault]"
    "files w' = (files w)(filepath_Join dir fn \<mapsto> jsonl L cols (rows_scans rs))"
proof -
  from exportTable_success_query [OF assms] obtain rs cols where
    q: "store_query E q [] = Some rs" and c: "rows_columns rs = Some cols" and ok: "\<not> row_failure L cols rs"
    by blast
  define p where "p = filepath_Join dir fn"
  define buf where "buf = jsonl L cols (rows_scans rs)"
  define w1 where "w1 = emit (Query q []) w"
  obtain r0 w0 where aw: "atomicWriteFile E p buf w1 = (r0, w0)"
    by (metis prod.exhaust)
  have "exportTable L E dir fn q w = ((length (rows_scans rs), r0), w0)"
    using exportTable_rows_ok [OF q c ok, of dir fn w] aw by (simp add: p_def buf_def w1_def)
  with assms have eq: "n = length (rows_scans rs)" "r0 = None" "w0 = w'"
    by simp_all
  from atomicWriteFile_None [of E p buf w1 w'] aw eq
  have "write_fault E p = NoFault" "trace w' = trace w1 @ [AtomicWrite p buf NoFault]"
    "files w' = (files w1)(p \<mapsto> buf)"
    by simp_all
  then show thesis
    using q c ok eq(1) by (intro that [of rs cols]) (simp_all add: p_def buf_def w1_def)
qed

lemma exportEvents_row_failure:
  assumes "store_query E (events_query hw) (events_args hw st) = Some rs" "rows_columns rs = Some cols"
    "row_failure L cols rs"
  shows "\<exists>err. exportEventsIncremental L E dir st hw w = ((0, Some err), st, emit (Query (events_query hw) (events_args hw st)) w)"
proof (cases "list_all (row_ok L cols) (rows_scans rs)")
  case True
  with assms have "rows_err rs" by (simp add: row_failure_def)
  with assms True show ?thesis
    by (simp add: exportEventsIncremental_def Let_def scan_events_ok)
next
  case False
  from scan_events_fail [OF this, of "[]" 0 0] assms show ?thesis
    by (auto simp: exportEventsIncremental_def Let_def)
qed

lemma exportEvents_rows_ok:
  assumes "store_query E (events_query hw) (events_args hw st) = Some rs" "rows_columns rs = Some cols"
    "\<not> row_failure L cols rs"
  shows "exportEventsIncremental L E dir st hw w =
     (if rows_scans rs = [] then ((0, None), st, emit (Query (events_query hw) (events_args hw st)) w)
      else (case (if LastEventID st = 0
                  then atomicWriteFile E (filepath_Join dir ''events.jsonl'') (jsonl L cols (rows_scans rs))
                         (emit (Query (events_query hw) (events_args hw st)) w)
                  else appendFile E (filepath_Join dir ''events.jsonl'') (jsonl L cols (rows_scans rs))
                         (emit (Query (events_query hw) (events_args hw st)) w)) of
              (Some err, w2) \<Rightarrow> ((0, Some err), st, w2)
            | (None, w2) \<Rightarrow> ((length (rows_scans rs), None),
                               st\<lparr>LastEventID := track_all L cols (rows_scans rs) 0\<rparr>, w2)))"
  using assms
  by (simp add: exportEventsIncremental_def Let_def scan_events_ok row_failure_def split: prod.splits option.splits)

lemma appendFile_None:
  assumes "appendFile E p data w = (None, w')"
  shows "append_fault E p = AppendOK" "trace w' = trace w @ [AppendFile p data AppendOK]"
    "files w' = (files w)(p \<mapsto> (case files w p of None \<Rightarrow> [] | Some c \<Rightarrow> c) @ data)"
  using assms by (auto simp: appendFile_def Let_def split: append_fault.splits)

lemma exportEvents_success:
  assumes "exportEventsIncremental L E dir st hw w = ((n, None), st', w')"
  obtains rs cols where
    "store_query E (events_query hw) (events_args hw st) = Some rs" "rows_columns rs = Some cols"
    "\<not> row_failure L cols rs" "n = length (rows_scans rs)"
    "rows_scans rs = [] \<Longrightarrow> st' = st \<and> files w' = files w
        \<and> trace w' = trace w @ [Query (events_query hw) (events_args hw st)]"
    "rows_scans rs \<noteq> [] \<Longrightarrow> st' = st\<lparr>LastEventID := track_all L cols (rows_scans rs) 0\<rparr>
        \<and> (\<exists>e. trace w' = trace w @ [Query (events_query hw) (events_args hw st), e]
              \<and> (e = AtomicWrite (filepath_Join dir ''events.jsonl'') (jsonl L cols (rows_scans rs)) NoFault
                 \<or> e = AppendFile (filepath_Join dir ''events.jsonl'') (jsonl L cols (rows_scans rs)) AppendOK))"
proof -
  define q where "q = events_query hw"
  define args where "args = events_args hw st"
  define w1 where "w1 = emit (Query q args) w"
  from assms obtain rs where rs: "store_query E q args = Some rs"
    by (cases "store_query E q args") (simp_all add: exportEventsIncremental_def Let_def q_def args_def)
  from assms rs obtain cols where c: "rows_columns rs = Some cols"
    by (cases "rows_columns rs") (simp_all add: exportEventsIncremental_def Let_def q_def args_def)
  have ok: "\<not> row_failure L cols rs"
  proof
    assume "row_failure L cols rs"
    from exportEvents_row_failure [OF rs [unfolded q_def args_def] c this, of dir w] assms show False by auto
  qed
  note eq = exportEvents_rows_ok [OF rs [unfolded q_def args_def] c ok, of dir w, folded q_def args_def, folded w1_def]
  define p where "p = filepath_Join dir ''events.jsonl''"
  define buf where "buf = jsonl L cols (rows_scans rs)"
  show thesis
  proof (cases "rows_scans rs = []")
    case True
    with eq assms have "n = 0" "st' = st" "w' = w1" by simp_all
    with True rs c ok show thesis
      by (intro that [of rs cols]) (simp_all add: q_def args_def w1_def)
  next
    case False
    obtain r0 w0 where fw: "(if LastEventID st = 0 then atomicWriteFile E p buf w1 else appendFile E p buf w1) = (r0, w0)"
      by (metis prod.exhaust)
    from eq assms False fw [unfolded p_def buf_def] have r: "r0 = None" "n = length (rows_scans rs)"
      "st' = st\<lparr>LastEventID := track_all L cols (rows_scans rs) 0\<rparr>" "w0 = w'"
      by (auto split: option.splits)
    have "\<exists>e. trace w' = trace w1 @ [e] \<and> (e = AtomicWrite p buf NoFault \<or> e = AppendFile p buf AppendOK)"
    proof (cases "LastEventID st = 0")
      case True
      with fw r have "atomicWriteFile E p buf w1 = (None, w')" by simp
      from atomicWriteFile_None(1,2) [OF this] show ?thesis by simp
    next
      case False
      with fw r have "appendFile E p buf w1 = (None, w')" by simp
      from appendFile_None(1,2) [OF this] show ?thesis by simp
    qed
    with False rs c ok r show thesis
      by (intro that [of rs cols]) (auto simp: q_def args_def w1_def p_def buf_def)
  qed
qed

lemma update_watermarks_Inr:
  assumes "update_watermarks L E dir st w = (Inr st', w')"
  shows "\<exists>c data. commit_at_save E = Some c \<and> st' = st\<lparr>LastDoltCommit := c, Timestamp := now_utc E\<rparr>
           \<and> json_MarshalIndent L st' = Some data \<and> write_fault E (state_path dir) = NoFault
           \<and> files w' = (files w)(state_path dir \<mapsto> data)
           \<and> trace w' = trace w @ [GetCurrentCommit, AtomicWrite (state_path dir) data NoFault]"
  using assms
proof (cases rule: update_watermarks_cases)
  case (no_write err)
  then show ?thesis by simp
next
  case (attempt c data)
  then show ?thesis by (cases "write_fault E (state_path dir) = NoFault") auto
qed

lemma set_count_simps [simp]:
  "LastEventID (set_count f st) = LastEventID st"
  "LastDoltCommit (set_count f st) = LastDoltCommit st"
  "Timestamp (set_count f st) = Timestamp st"
  "Counts (set_count f st) = f (Counts st)"
  by (simp_all add: set_count_def)

lemma events_args_cong: "LastEventID st = LastEventID st' \<Longrightarrow> events_args hw st = events_args hw st'"
  by (simp add: events_args_def)

lemma export_entities_counts:
  assumes "export_entities L E dir st w = (Inr st', w')"
  shows "Issues (Counts st') = of_nat (row_count E (issues_query (has_wisps E)) [])"
    and "Events (Counts st') = Events (Counts st)
           + of_nat (row_count E (events_query (has_wisps E)) (events_args (has_wisps E) st))"
    and "Comments (Counts st') = of_nat (row_count E (comments_query (has_wisps E)) [])"
    and "Dependencies (Counts st') = of_nat (row_count E (deps_query (has_wisps E)) [])"
    and "Labels (Counts st') = of_nat (row_count E (labels_query (has_wisps E)) [])"
    and "Config (Counts st') = of_nat (row_count E config_query [])"
proof -
  define hw where "hw = has_wisps E"
  from export_entities_Inr [OF assms] obtain n1 w1 n2 st2 w2 n3 w3 n4 w4 n5 w5 n6 where
    x1: "exportTable L E dir ''issues.jsonl'' (issues_query hw)
       (emit (Query table_exists_query [VString ''wisps'']) w) = ((n1, None), w1)"
    and x2: "exportEventsIncremental L E dir (set_count (\<lambda>c. c\<lparr>Issues := of_nat n1\<rparr>) st) hw w1 = ((n2, None), st2, w2)"
    and x3: "exportTable L E dir ''comments.jsonl'' (comments_query hw) w2 = ((n3, None), w3)"
    and x4: "exportTable L E dir ''dependencies.jsonl'' (deps_query hw) w3 = ((n4, None), w4)"
    and x5: "exportTable L E dir ''labels.jsonl'' (labels_query hw) w4 = ((n5, None), w5)"
    and x6: "exportTable L E dir ''config.jsonl'' config_query w5 = ((n6, None), w')"
    and st': "st' = set_count (\<lambda>c. c\<lparr>Config := of_nat n6\<rparr>)
             (set_count (\<lambda>c. c\<lparr>Labels := of_nat n5\<rparr>)
             (set_count (\<lambda>c. c\<lparr>Dependencies := of_nat n4\<rparr>)
             (set_count (\<lambda>c. c\<lparr>Comments := of_nat n3\<rparr>)
             (set_count (\<lambda>c. c\<lparr>Events := Events c + of_nat n2\<rparr>) st2))))"
    unfolding hw_def by blast
  have n1: "n1 = row_count E (issues_query hw) []"
    using x1 by (rule exportTable_success) (simp add: row_count_def)
  have n3: "n3 = row_count E (comments_query hw) []"
    using x3 by (rule exportTable_success) (simp add: row_count_def)
  have n4: "n4 = row_count E (deps_query hw) []"
    using x4 by (rule exportTable_success) (simp add: row_count_def)
  have n5: "n5 = row_count E (labels_query hw) []"
    using x5 by (rule exportTable_success) (simp add: row_count_def)
  have n6: "n6 = row_count E config_query []"
    using x6 by (rule exportTable_success) (simp add: row_count_def)
  have n2: "n2 = row_count E (events_query hw) (events_args hw st) \<and> Counts st2 = (Counts st)\<lparr>Issues := of_nat n1\<rparr>"
    using x2
  proof (rule exportEvents_success)
    fix rs cols
    assume q: "store_query E (events_query hw) (events_args hw (set_count (\<lambda>c. c\<lparr>Issues := of_nat n1\<rparr>) st)) = Some rs"
      and n: "n2 = length (rows_scans rs)"
      and a: "rows_scans rs = [] \<Longrightarrow> st2 = set_count (\<lambda>c. c\<lparr>Issues := of_nat n1\<rparr>) st
          \<and> files w2 = files w1
          \<and> trace w2 = trace w1 @ [Query (events_query hw) (events_args hw (set_count (\<lambda>c. c\<lparr>Issues := of_nat n1\<rparr>) st))]"
      and b: "rows_scans rs \<noteq> [] \<Longrightarrow> st2 = set_count (\<lambda>c. c\<lparr>Issues := of_nat n1\<rparr>) st
              \<lparr>LastEventID := track_all L cols (rows_scans rs) 0\<rparr>
          \<and> (\<exists>e. trace w2 = trace w1 @ [Query (events_query hw) (events_args hw (set_count (\<lambda>c. c\<lparr>Issues := of_nat n1\<rparr>) st)), e]
              \<and> (e = AtomicWrite (filepath_Join dir ''events.jsonl'') (jsonl L cols (rows_scans rs)) NoFault
                 \<or> e = AppendFile (filepath_Join dir ''events.jsonl'') (jsonl L cols (rows_scans rs)) AppendOK))"
    have "events_args hw (set_count (\<lambda>c. c\<lparr>Issues := of_nat n1\<rparr>) st) = events_args hw st"
      by (rule events_args_cong) simp
    with q n have "n2 = row_count E (events_query hw) (events_args hw st)"
      by (simp add: row_count_def)
    moreover have "Counts st2 = (Counts st)\<lparr>Issues := of_nat n1\<rparr>"
      using a b by (cases "rows_scans rs = []") simp_all
    ultimately show ?thesis by simp
  qed
  show "Issues (Counts st') = of_nat (row_count E (issues_query (has_wisps E)) [])"
    and "Events (Counts st') = Events (Counts st)
           + of_nat (row_count E (events_query (has_wisps E)) (events_args (has_wisps E) st))"
    and "Comments (Counts st') = of_nat (row_count E (comments_query (has_wisps E)) [])"
    and "Dependencies (Counts st') = of_nat (row_count E (deps_query (has_wisps E)) [])"
    and "Labels (Counts st') = of_nat (row_count E (labels_query (has_wisps E)) [])"
    and "Config (Counts st') = of_nat (row_count E config_query [])"
    using n1 n2 n3 n4 n5 n6 by (simp_all add: st' hw_def)
qed

lemma no_rows_run_queries:
  "queries_of (new_events (world_with [])
     (snd (runBackupExport (sample_lib []) (sample_env no_rows_store ''abc123'') False (world_with []))))
   = [table_exists_query, issues_query False, events_query False, comments_query False,
      deps_query False, labels_query False, config_query]"
  by (simp add: run_defs sample_env_def sample_lib_def no_rows_store_def world_with_def
      empty_rows_def zero_state_def zero_counts_def zero_time_def new_events_def
      sample_MarshalIndent_def sample_now_year)

lemma marshal_events:
  \<open>sample_Marshal [(''id'', VInt64 1), (''event_type'', VString ''created'')] = Some ''{"event_type":"created","id":1}''\<close>
  \<open>sample_Marshal [(''id'', VInt64 2), (''event_type'', VString ''created'')] = Some ''{"event_type":"created","id":2}''\<close>
  \<open>sample_Marshal [(''id'', VInt64 3), (''event_type'', VString ''created'')] = Some ''{"event_type":"created","id":3}''\<close>
  \<open>sample_Marshal [(''id'', VInt64 4), (''event_type'', VString ''created'')] = Some ''{"event_type":"created","id":4}''\<close>
  by code_simp+

lemmas sample_run_defs = run_defs query_defs sample_env_def sample_lib_def world_with_def
  empty_rows_def zero_state_def zero_counts_def zero_time_def sample_dir_def build_row_def
  sample_MarshalIndent_def sample_now_year track_max_def

lemma accumulating_run:
  \<open>fst (runBackupExport (sample_lib [(recorded_doc, recorded_state)])
       (sample_env (table_store two_issues (map sample_event [1, 2, 3, 4])) ''def456'') False
       (world_with [(state_path sample_dir, recorded_doc)]))
   = Inr \<lparr>LastDoltCommit = ''def456'', LastEventID = 4, Timestamp = sample_time,
           Counts = \<lparr>Issues = 2, Events = 7, Comments = 0, Dependencies = 0, Labels = 0, Config = 0\<rparr>\<rparr>\<close>
  \<open>queries_of (new_events (world_with [(state_path sample_dir, recorded_doc)])
     (snd (runBackupExport (sample_lib [(recorded_doc, recorded_state)])
       (sample_env (table_store two_issues (map sample_event [1, 2, 3, 4])) ''def456'') False
       (world_with [(state_path sample_dir, recorded_doc)]))))
   = [table_exists_query, issues_query False, events_query False, comments_query False,
      deps_query False, labels_query False, config_query]\<close>
  by (simp_all add: sample_run_defs table_store_def recorded_state_def recorded_doc_def
      two_issues_def marshal_two_issues sample_event_def newer_than_def marshal_events new_events_def)

lemma marshal_merged:
  \<open>sample_Marshal [(''id'', VInt64 1), (''title'', VString ''p1'')] = Some ''{"id":1,"title":"p1"}''\<close>
  \<open>sample_Marshal [(''id'', VInt64 2), (''title'', VString ''s2'')] = Some ''{"id":2,"title":"s2"}''\<close>
  \<open>sample_Marshal [(''id'', VInt64 3), (''title'', VString ''s3'')] = Some ''{"id":3,"title":"s3"}''\<close>
  \<open>sample_Marshal [(''id'', VInt64 3), (''title'', VString ''p3'')] = Some ''{"id":3,"title":"p3"}''\<close>
  \<open>sample_Marshal [(''id'', VInt64 4), (''title'', VString ''s4'')] = Some ''{"id":4,"title":"s4"}''\<close>
  \<open>sample_Marshal [(''id'', VInt64 5), (''title'', VString ''p5'')] = Some ''{"id":5,"title":"p5"}''\<close>
  by code_simp+

lemma tie_answer_contract: "answers_union_order_by id_key primary_rows shadow_rows tie_answer"
  by (simp add: answers_union_order_by_def primary_rows_def shadow_rows_def tie_answer_def id_key_def)

lemma spec_merge_rows:
  "spec_stable_merge id_key primary_rows shadow_rows =
     [Some [VInt64 1, VBytes ''p1''], Some [VInt64 2, VBytes ''s2''], Some [VInt64 3, VBytes ''p3''],
      Some [VInt64 3, VBytes ''s3''], Some [VInt64 4, VBytes ''s4''], Some [VInt64 5, VBytes ''p5'']]"
  by (simp add: primary_rows_def shadow_rows_def id_key_def)

lemma jsonl_tie_answer:
  \<open>jsonl (sample_lib []) [''id'', ''title''] tie_answer =
     ''{"id":1,"title":"p1"}'' @ [newline] @ ''{"id":2,"title":"s2"}'' @ [newline] @
     ''{"id":3,"title":"s3"}'' @ [newline] @ ''{"id":3,"title":"p3"}'' @ [newline] @
     ''{"id":4,"title":"s4"}'' @ [newline] @ ''{"id":5,"title":"p5"}'' @ [newline]\<close>
  by (simp add: jsonl_def json_line_def tie_answer_def build_row_def sample_lib_def marshal_merged)

lemma jsonl_spec_merge:
  \<open>jsonl (sample_lib []) [''id'', ''title''] (spec_stable_merge id_key primary_rows shadow_rows) =
     ''{"id":1,"title":"p1"}'' @ [newline] @ ''{"id":2,"title":"s2"}'' @ [newline] @
     ''{"id":3,"title":"p3"}'' @ [newline] @ ''{"id":3,"title":"s3"}'' @ [newline] @
     ''{"id":4,"title":"s4"}'' @ [newline] @ ''{"id":5,"title":"p5"}'' @ [newline]\<close>
  by (simp add: spec_merge_rows jsonl_def json_line_def build_row_def sample_lib_def marshal_merged)

lemma union_export:
  \<open>exportTable (sample_lib []) (sample_env union_store ''abc123'') sample_dir ''issues.jsonl''
       (issues_query True) (world_with [])
   = ((6, None),
      \<lparr>files = map_of [(filepath_Join sample_dir ''issues.jsonl'',
           ''{"id":1,"title":"p1"}'' @ [newline] @ ''{"id":2,"title":"s2"}'' @ [newline] @
           ''{"id":3,"title":"s3"}'' @ [newline] @ ''{"id":3,"title":"p3"}'' @ [newline] @
           ''{"id":4,"title":"s4"}'' @ [newline] @ ''{"id":5,"title":"p5"}'' @ [newline])],
        trace = [Query (issues_query True) [],
                 AtomicWrite (filepath_Join sample_dir ''issues.jsonl'')
                   (''{"id":1,"title":"p1"}'' @ [newline] @ ''{"id":2,"title":"s2"}'' @ [newline] @
                    ''{"id":3,"title":"s3"}'' @ [newline] @ ''{"id":3,"title":"p3"}'' @ [newline] @
                    ''{"id":4,"title":"s4"}'' @ [newline] @ ''{"id":5,"title":"p5"}'' @ [newline]) NoFault]\<rparr>)\<close>
  by (simp add: sample_run_defs union_store_def tie_answer_def marshal_merged fun_eq_iff)

lemma tie_answer_ok: "list_all (row_ok (sample_lib []) [''id'', ''title'']) tie_answer"
  by (simp add: row_ok_def tie_answer_def build_row_def sample_lib_def marshal_merged)

lemma track_max_row_id:
  "track_max (build_row L cols vals) m =
     (case row_id L cols (Some vals) of None \<Rightarrow> m | Some i \<Rightarrow> if sint m < sint i then i else m)"
  by (simp add: track_max_def row_id_def split: option.splits gvalue.splits)

lemma track_max_ge: "sint m \<le> sint (track_max row m)"
  by (simp add: track_max_def split: option.splits gvalue.splits)

lemma track_all_Nil [simp]: "track_all L cols [] m = m"
  by (simp add: track_all_def)

lemma track_all_Cons [simp]:
  "track_all L cols (sc # scs) m = track_all L cols scs (track_max (build_row L cols (the sc)) m)"
  by (simp add: track_all_def)

lemma track_all_ge: "sint m \<le> sint (track_all L cols scs m)"
proof (induction scs arbitrary: m)
  case Nil
  show ?case by simp
next
  case (Cons sc scs)
  have "sint m \<le> sint (track_max (build_row L cols (the sc)) m)"
    by (rule track_max_ge)
  also have "\<dots> \<le> sint (track_all L cols scs (track_max (build_row L cols (the sc)) m))"
    by (rule Cons.IH)
  finally show ?case by simp
qed

lemma track_all_upper:
  "sc \<in> set scs \<Longrightarrow> row_id L cols sc = Some i \<Longrightarrow> sint i \<le> sint (track_all L cols scs m)"
proof (induction scs arbitrary: m)
  case Nil
  then show ?case by simp
next
  case (Cons a scs)
  show ?case
  proof (cases "sc = a")
    case True
    with Cons.prems obtain vals where a: "a = Some vals"
      by (cases a) (simp_all add: row_id_def)
    with True Cons.prems have "sint i \<le> sint (track_max (build_row L cols (the a)) m)"
      by (simp add: track_max_row_id)
    also have "\<dots> \<le> sint (track_all L cols scs (track_max (build_row L cols (the a)) m))"
      by (rule track_all_ge)
    finally show ?thesis by simp
  next
    case False
    with Cons.prems have "sc \<in> set scs" by simp
    from Cons.IH [OF this Cons.prems(2)] show ?thesis by simp
  qed
qed

lemma track_all_mem:
  "\<forall>sc \<in> set scs. sc \<noteq> None \<Longrightarrow>
   track_all L cols scs m = m \<or> track_all L cols scs m \<in> set (event_ids L cols scs)"
proof (induction scs arbitrary: m)
  case Nil
  show ?case by simp
next
  case (Cons a scs)
  then obtain vals where a: "a = Some vals" by auto
  define m' where "m' = track_max (build_row L cols vals) m"
  have ids: "set (event_ids L cols (a # scs)) =
      (case row_id L cols a of None \<Rightarrow> {} | Some i \<Rightarrow> {i}) \<union> set (event_ids L cols scs)"
    by (auto simp: event_ids_def List.map_filter_simps split: option.splits)
  have m': "m' = m \<or> row_id L cols a = Some m'"
    unfolding m'_def a track_max_row_id by (simp split: option.splits)
  from Cons.prems have "\<forall>sc \<in> set scs. sc \<noteq> None" by simp
  from Cons.IH [OF this, of m'] have "track_all L cols scs m' = m' \<or> track_all L cols scs m' \<in> set (event_ids L cols scs)" .
  with m' show ?case
    unfolding ids by (auto simp: a m'_def)
qed

lemma row_ok_not_None: "list_all (row_ok L cols) scs \<Longrightarrow> \<forall>sc \<in> set scs. sc \<noteq> None"
  by (auto simp: list_all_iff row_ok_def split: option.splits)

lemma event_ids_mem: "i \<in> set (event_ids L cols scs) \<longleftrightarrow> (\<exists>sc \<in> set scs. row_id L cols sc = Some i)"
  by (force simp: event_ids_def List.map_filter_def)

text \<open>The watermark that a batch of rows above the old one gives.\<close>

lemma track_all_newer:
  assumes ok: "list_all (row_ok L cols) scs"
    and newer: "list_all (\<lambda>sc. case row_id L cols sc of None \<Rightarrow> False | Some i \<Rightarrow> sint wm < sint i) scs"
    and ne: "scs \<noteq> []"
  shows "sint wm < sint (track_all L cols scs 0)"
    and "\<forall>i \<in> set (event_ids L cols scs). sint i \<le> sint (track_all L cols scs 0)"
    and "0 \<le> sint wm \<Longrightarrow> track_all L cols scs 0 \<in> set (event_ids L cols scs)"
proof -
  from ne obtain sc where sc: "sc \<in> set scs" by (cases scs) auto
  with newer obtain i where i: "row_id L cols sc = Some i" "sint wm < sint i"
    by (auto simp: list_all_iff split: option.splits)
  from track_all_upper [OF sc i(1), of 0] i(2) show gt: "sint wm < sint (track_all L cols scs 0)"
    by simp
  show "\<forall>i \<in> set (event_ids L cols scs). sint i \<le> sint (track_all L cols scs 0)"
    by (auto simp: event_ids_mem intro: track_all_upper)
  assume "0 \<le> sint wm"
  with gt have "track_all L cols scs 0 \<noteq> 0" by auto
  with track_all_mem [OF row_ok_not_None [OF ok], of L cols 0] show "track_all L cols scs 0 \<in> set (event_ids L cols scs)"
    by simp
qed

lemma run_Inr_loaded:
  assumes "runBackupExport L E force w = (Inr st', w')"
  shows "\<exists>dir st0. fst (backupDir E w) = Inr dir \<and> fst (loadBackupState L E dir w) = Inr st0"
proof -
  obtain r1 w1 where bd: "backupDir E w = (r1, w1)" by (metis prod.exhaust)
  with assms obtain dir where dir: "r1 = Inr dir"
    by (cases r1) (simp_all add: runBackupExport_def)
  obtain r2 w2 where ld: "loadBackupState L E dir w1 = (r2, w2)" by (metis prod.exhaust)
  with assms bd dir obtain st0 where st0: "r2 = Inr st0"
    by (cases r2) (simp_all add: runBackupExport_def)
  have "files w1 = files w"
    using step_backupDir [of "\<lambda>p. False" w E] bd by (simp add: step_files)
  then have "fst (loadBackupState L E dir w) = fst (loadBackupState L E dir w1)"
    by (intro load_depends_on_file) simp
  with bd dir ld st0 show ?thesis by simp
qed

lemma export_entities_watermark:
  assumes ex: "export_entities L E dir st w = (Inr st', w')"
  obtains rs cols where
    "store_query E (events_query (has_wisps E)) (events_args (has_wisps E) st) = Some rs"
    "rows_columns rs = Some cols" "\<not> row_failure L cols rs"
    "rows_scans rs = [] \<Longrightarrow> LastEventID st' = LastEventID st"
    "rows_scans rs \<noteq> [] \<Longrightarrow> LastEventID st' = track_all L cols (rows_scans rs) 0"
proof -
  define hw where "hw = has_wisps E"
  from export_entities_Inr [OF ex] obtain n1 w1 n2 st2 w2 n3 n4 n5 n6 where
    x2: "exportEventsIncremental L E dir (set_count (\<lambda>c. c\<lparr>Issues := of_nat n1\<rparr>) st) hw w1 = ((n2, None), st2, w2)"
    and st': "st' = set_count (\<lambda>c. c\<lparr>Config := of_nat n6\<rparr>)
             (set_count (\<lambda>c. c\<lparr>Labels := of_nat n5\<rparr>)
             (set_count (\<lambda>c. c\<lparr>Dependencies := of_nat n4\<rparr>)
             (set_count (\<lambda>c. c\<lparr>Comments := of_nat n3\<rparr>)
             (set_count (\<lambda>c. c\<lparr>Events := Events c + of_nat n2\<rparr>) st2))))"
    unfolding hw_def by blast
  have wm: "LastEventID st' = LastEventID st2"
    by (simp add: st')
  have args: "events_args hw (set_count (\<lambda>c. c\<lparr>Issues := of_nat n1\<rparr>) st) = events_args hw st"
    by (rule events_args_cong) simp
  from x2 show thesis
  proof (rule exportEvents_success)
    fix rs cols
    assume q: "store_query E (events_query hw) (events_args hw (set_count (\<lambda>c. c\<lparr>Issues := of_nat n1\<rparr>) st)) = Some rs"
      and c: "rows_columns rs = Some cols" and ok: "\<not> row_failure L cols rs"
      and a: "rows_scans rs = [] \<Longrightarrow> st2 = set_count (\<lambda>c. c\<lparr>Issues := of_nat n1\<rparr>) st
          \<and> files w2 = files w1
          \<and> trace w2 = trace w1 @ [Query (events_query hw) (events_args hw (set_count (\<lambda>c. c\<lparr>Issues := of_nat n1\<rparr>) st))]"
      and b: "rows_scans rs \<noteq> [] \<Longrightarrow> st2 = set_count (\<lambda>c. c\<lparr>Issues := of_nat n1\<rparr>) st
              \<lparr>LastEventID := track_all L cols (rows_scans rs) 0\<rparr>
          \<and> (\<exists>e. trace w2 = trace w1 @ [Query (events_query hw) (events_args hw (set_count (\<lambda>c. c\<lparr>Issues := of_nat n1\<rparr>) st)), e]
              \<and> (e = AtomicWrite (filepath_Join dir ''events.jsonl'') (jsonl L cols (rows_scans rs)) NoFault
                 \<or> e = AppendFile (filepath_Join dir ''events.jsonl'') (jsonl L cols (rows_scans rs)) AppendOK))"
    show thesis
    proof (rule that [of rs cols])
      show "store_query E (events_query (has_wisps E)) (events_args (has_wisps E) st) = Some rs"
        using q args by (simp add: hw_def)
      show "rows_columns rs = Some cols" by (rule c)
      show "\<not> row_failure L cols rs" by (rule ok)
      show "rows_scans rs = [] \<Longrightarrow> LastEventID st' = LastEventID st"
        using a wm by simp
      show "rows_scans rs \<noteq> [] \<Longrightarrow> LastEventID st' = track_all L cols (rows_scans rs) 0"
        using b wm by simp
    qed
  qed
qed

text \<open>One run: the watermark of the state it returns against the one of the state it loaded.\<close>

lemma run_watermark:
  assumes run: "runBackupExport L E force w = (Inr st', w')"
    and dir: "fst (backupDir E w) = Inr dir"
    and load: "fst (loadBackupState L E dir w) = Inr st0"
    and honest: "honours_filter L E st0"
  shows "sint (LastEventID st0) \<le> sint (LastEventID st')"
    and "LastEventID st' \<noteq> LastEventID st0 \<Longrightarrow>
           0 < row_count E (events_query (has_wisps E)) (events_args (has_wisps E) st0)
         \<and> queries_of (new_events w w') \<noteq> []"
    and "queries_of (new_events w w') \<noteq> [] \<Longrightarrow>
         0 < row_count E (events_query (has_wisps E)) (events_args (has_wisps E) st0) \<Longrightarrow>
           \<exists>rs cols. store_query E (events_query (has_wisps E)) (events_args (has_wisps E) st0) = Some rs
             \<and> rows_columns rs = Some cols
             \<and> (\<forall>i \<in> set (event_ids L cols (rows_scans rs)). sint i \<le> sint (LastEventID st'))
             \<and> (0 \<le> sint (LastEventID st0) \<longrightarrow> LastEventID st' \<in> set (event_ids L cols (rows_scans rs)))"
proof -
  define hw where "hw = has_wisps E"
  define rc where "rc = row_count E (events_query hw) (events_args hw st0)"
  have "sint (LastEventID st0) \<le> sint (LastEventID st')
      \<and> (LastEventID st' \<noteq> LastEventID st0 \<longrightarrow> 0 < rc \<and> queries_of (new_events w w') \<noteq> [])
      \<and> (queries_of (new_events w w') \<noteq> [] \<longrightarrow> 0 < rc \<longrightarrow>
           (\<exists>rs cols. store_query E (events_query hw) (events_args hw st0) = Some rs
             \<and> rows_columns rs = Some cols
             \<and> (\<forall>i \<in> set (event_ids L cols (rows_scans rs)). sint i \<le> sint (LastEventID st'))
             \<and> (0 \<le> sint (LastEventID st0) \<longrightarrow> LastEventID st' \<in> set (event_ids L cols (rows_scans rs)))))"
    using run
  proof (cases rule: runBackupExport_cases)
    case early
    from early(2) [OF dir load] have "st' = st0" by auto
    with early(1) show ?thesis by (simp add: step_new_events(1))
  next
    case (export_failed dir' st0' w3 err)
    then show ?thesis by simp
  next
    case (exported dir' st0' w3 st4 w4)
    with dir load have eq: "dir' = dir" "st0' = st0" by simp_all
    from update_watermarks_Inr [OF exported(5)] obtain c data where
      wm: "LastEventID st' = LastEventID st4"
      and tr: "trace w' = trace w4 @ [GetCurrentCommit, AtomicWrite (state_path dir') data NoFault]"
      by auto
    from export_entities_step [OF exported(4)] obtain qs where
      qs: "step qs (data_path dir') w3 w4" "qs = export_order (has_wisps E)"
      by blast
    from step_trans [OF step_mono [OF exported(3), of "data_path dir'"] qs(1)]
    have s: "step qs (data_path dir') w w4" by simp
    have "new_events w w' = new_events w w4 @ [GetCurrentCommit, AtomicWrite (state_path dir') data NoFault]"
      using step_new_events(3) [OF s] tr by (rule new_events_trans)
    then have q: "queries_of (new_events w w') \<noteq> []"
      using step_new_events(1) [OF s] qs(2) by (simp add: export_order_def)
    from exported(4) [unfolded eq] show ?thesis
    proof (rule export_entities_watermark)
      fix rs cols
      assume rs: "store_query E (events_query (has_wisps E)) (events_args (has_wisps E) st0) = Some rs"
        and c: "rows_columns rs = Some cols" and ok: "\<not> row_failure L cols rs"
        and a: "rows_scans rs = [] \<Longrightarrow> LastEventID st4 = LastEventID st0"
        and b: "rows_scans rs \<noteq> [] \<Longrightarrow> LastEventID st4 = track_all L cols (rows_scans rs) 0"
      have rc: "rc = length (rows_scans rs)"
        using rs by (simp add: rc_def row_count_def hw_def)
      show ?thesis
      proof (cases "rows_scans rs = []")
        case True
        with a wm rc show ?thesis by simp
      next
        case False
        from honest rs c have newer: "list_all (\<lambda>sc. case row_id L cols sc of None \<Rightarrow> False
              | Some i \<Rightarrow> sint (LastEventID st0) < sint i) (rows_scans rs)"
          by (simp add: honours_filter_def newer_rows_def)
        from ok have rok: "list_all (row_ok L cols) (rows_scans rs)"
          by (simp add: row_failure_def)
        note t = track_all_newer [OF rok newer False]
        from b [OF False] wm have w: "LastEventID st' = track_all L cols (rows_scans rs) 0" by simp
        from t w rs c q rc False show ?thesis
          by (auto simp: hw_def)
      qed
    qed
  qed
  then show "sint (LastEventID st0) \<le> sint (LastEventID st')"
    and "LastEventID st' \<noteq> LastEventID st0 \<Longrightarrow>
           0 < row_count E (events_query (has_wisps E)) (events_args (has_wisps E) st0)
         \<and> queries_of (new_events w w') \<noteq> []"
    and "queries_of (new_events w w') \<noteq> [] \<Longrightarrow>
         0 < row_count E (events_query (has_wisps E)) (events_args (has_wisps E) st0) \<Longrightarrow>
           \<exists>rs cols. store_query E (events_query (has_wisps E)) (events_args (has_wisps E) st0) = Some rs
             \<and> rows_columns rs = Some cols
             \<and> (\<forall>i \<in> set (event_ids L cols (rows_scans rs)). sint i \<le> sint (LastEventID st'))
             \<and> (0 \<le> sint (LastEventID st0) \<longrightarrow> LastEventID st' \<in> set (event_ids L cols (rows_scans rs)))"
    by (simp_all add: rc_def hw_def)
qed

lemma load_Inr_file:
  "fst (loadBackupState L E dir w) = Inr st \<Longrightarrow> files w (state_path dir) = Some data \<Longrightarrow>
   json_Unmarshal L data = Some st"
  by (auto simp: loadBackupState_def Let_def split: option.splits if_splits)

lemma load_Inr_absent:
  "fst (loadBackupState L E dir w) = Inr st \<Longrightarrow> files w (state_path dir) = None \<Longrightarrow> st = zero_state"
  by (auto simp: loadBackupState_def Let_def split: option.splits if_splits)

text \<open>The state that a run returns is the state that the next run loads.\<close>

lemma run_then_load:
  assumes run1: "runBackupExport L E1 f1 w0 = (Inr s1, w1)"
    and dir: "fst (backupDir E1 w0) = Inr dir"
    and rt: "\<forall>data. json_MarshalIndent L s1 = Some data \<longrightarrow> json_Unmarshal L data = Some s1"
    and load2: "fst (loadBackupState L E2 dir w1) = Inr st"
  shows "st = s1"
proof -
  from run_Inr_loaded [OF run1] dir obtain st01 where load1: "fst (loadBackupState L E1 dir w0) = Inr st01"
    by auto
  from run1 show ?thesis
  proof (cases rule: runBackupExport_cases)
    case early
    from early(2) [OF dir load1] have s1: "s1 = st01" and ne: "LastDoltCommit st01 \<noteq> []"
      by auto
    have f: "files w1 = files w0"
      using early(1) by (rule step_files)
    show ?thesis
    proof (cases "files w0 (state_path dir)")
      case None
      from load_Inr_absent [OF load1 None] ne show ?thesis
        by (simp add: zero_state_def)
    next
      case (Some data)
      from load_Inr_file [OF load1 Some] load_Inr_file [OF load2, of data] Some f s1
      show ?thesis by simp
    qed
  next
    case (export_failed dir' st0' w3 err)
    then show ?thesis by simp
  next
    case (exported dir' st0' w3 st4 w4)
    with dir have d: "dir' = dir" by simp
    from update_watermarks_Inr [OF exported(5)] obtain data where
      m: "json_MarshalIndent L s1 = Some data" and f: "files w1 = (files w4)(state_path dir \<mapsto> data)"
      unfolding d by auto
    from rt m have "json_Unmarshal L data = Some s1" by simp
    moreover from f have "files w1 (state_path dir) = Some data" by simp
    from load_Inr_file [OF load2 this] have "json_Unmarshal L data = Some st" .
    ultimately show ?thesis by simp
  qed
qed

lemma marshal_first_state:
  "sample_MarshalIndent
     \<lparr>LastDoltCommit = ''c1'', LastEventID = 2, Timestamp = sample_time,
      Counts = \<lparr>Issues = 2, Events = 2, Comments = 0, Dependencies = 0, Labels = 0, Config = 0\<rparr>\<rparr>
   = Some first_doc"
  by code_simp

lemmas table_run_defs = run_defs query_defs sample_env_def sample_lib_def world_with_def
  empty_rows_def zero_state_def zero_counts_def zero_time_def sample_dir_def build_row_def
  track_max_def table_store_def two_issues_def marshal_two_issues sample_event_def newer_than_def
  marshal_events

lemma first_run:
  "runBackupExport (sample_lib [(first_doc, first_state)]) first_env False (world_with [])
     = (Inr first_state, first_world)"
  \<open>files first_world ''/repo/.beads/backup/backup_state.json'' = Some first_doc\<close>
  \<open>files first_world ''/repo/.beads/backup/events.jsonl''
     = Some (''{"event_type":"created","id":1}'' @ [newline] @ ''{"event_type":"created","id":2}'' @ [newline])\<close>
  unfolding first_world_def
  by (simp_all add: table_run_defs first_env_def first_state_def marshal_first_state prod_eq_iff)

lemma marshal_second_state:
  "sample_MarshalIndent
     \<lparr>LastDoltCommit = ''c2'', LastEventID = 4, Timestamp = sample_time,
      Counts = \<lparr>Issues = 2, Events = 4, Comments = 0, Dependencies = 0, Labels = 0, Config = 0\<rparr>\<rparr>
   \<noteq> None"
  by (simp add: sample_MarshalIndent_def sample_now_year)

lemma second_run:
  "fst (runBackupExport (sample_lib [(first_doc, first_state)]) second_env False first_world) = Inr second_state"
  \<open>files (snd (runBackupExport (sample_lib [(first_doc, first_state)]) second_env False first_world))
      ''/repo/.beads/backup/events.jsonl''
     = Some (''{"event_type":"created","id":1}'' @ [newline] @ ''{"event_type":"created","id":2}'' @ [newline] @
             ''{"event_type":"created","id":3}'' @ [newline] @ ''{"event_type":"created","id":4}'' @ [newline])\<close>
  using marshal_second_state
  by (auto simp: table_run_defs second_env_def second_state_def first_state_def first_run(2,3))

lemma has_wisps_table_store [simp]: "has_wisps (sample_env (table_store issues events) c) = False"
  by (simp add: has_wisps_def tableExistsCheck_def sample_env_def table_store_def empty_rows_def Let_def)

lemma second_answer:
  "store_query second_env (events_query False) (events_args False first_state)
     = Some (Rows (Some [''id'', ''event_type'']) [Some (sample_event 3), Some (sample_event 4)] False)"
  by (simp add: second_env_def sample_env_def table_store_def query_defs events_args_def first_state_def
      sample_event_def newer_than_def)

lemma sample_event_id: "row_id (sample_lib docs) [''id'', ''event_type''] (Some (sample_event i)) = Some i"
  by (simp add: row_id_def build_row_def sample_event_def)

lemma second_honest: "honours_filter (sample_lib [(first_doc, first_state)]) second_env first_state"
  using second_answer
  by (simp add: honours_filter_def second_env_def newer_rows_def sample_event_id first_state_def)

lemma first_run_events:
  \<open>new_events (world_with []) first_world =
     [MkdirAll sample_dir, ReadFile (state_path sample_dir), GetCurrentCommit,
      Query table_exists_query [VString ''wisps''],
      Query (issues_query False) [],
      AtomicWrite (filepath_Join sample_dir ''issues.jsonl'')
        (''{"id":"bd-1","title":"First"}'' @ [newline] @ ''{"id":"bd-2","title":"Second"}'' @ [newline]) NoFault,
      Query (events_query False) [VInt64 0],
      AtomicWrite (filepath_Join sample_dir ''events.jsonl'')
        (''{"event_type":"created","id":1}'' @ [newline] @ ''{"event_type":"created","id":2}'' @ [newline]) NoFault,
      Query (comments_query False) [],
      AtomicWrite (filepath_Join sample_dir ''comments.jsonl'') [] NoFault,
      Query (deps_query False) [],
      AtomicWrite (filepath_Join sample_dir ''dependencies.jsonl'') [] NoFault,
      Query (labels_query False) [],
      AtomicWrite (filepath_Join sample_dir ''labels.jsonl'') [] NoFault,
      Query config_query [],
      AtomicWrite (filepath_Join sample_dir ''config.jsonl'') [] NoFault,
      GetCurrentCommit,
      AtomicWrite (state_path sample_dir) first_doc NoFault]\<close>
  unfolding first_world_def
  by (simp add: table_run_defs first_env_def first_state_def marshal_first_state new_events_def)

lemma first_run_state_writes:
  "filter writes_state_file (new_events (world_with []) first_world)
     = [AtomicWrite (state_path sample_dir) first_doc NoFault]"
  unfolding first_run_events
  by (simp add: writes_state_file_def base_name_Join state_path_def)

text \<open>A run, read off the results of its steps.\<close>

lemma export_entities_by_steps:
  assumes "tableExistsCheck E ''wisps'' w3 = (hw, w4)"
    and "exportTable L E dir ''issues.jsonl'' (issues_query hw) w4 = ((n1, e1), w5)"
    and "exportEventsIncremental L E dir (set_count (\<lambda>c. c\<lparr>Issues := of_nat n1\<rparr>) st) hw w5 = ((n2, e2), st2, w6)"
    and "exportTable L E dir ''comments.jsonl'' (comments_query hw) w6 = ((n3, e3), w7)"
    and "exportTable L E dir ''dependencies.jsonl'' (deps_query hw) w7 = ((n4, e4), w8)"
    and "exportTable L E dir ''labels.jsonl'' (labels_query hw) w8 = ((n5, e5), w9)"
    and "exportTable L E dir ''config.jsonl'' config_query w9 = ((n6, e6), w10)"
  shows "export_entities L E dir st w3 =
     (case e1 of Some err \<Rightarrow> (Inl (ErrBackup ''issues'' err), w5) | None \<Rightarrow>
     (case e2 of Some err \<Rightarrow> (Inl (ErrBackup ''events'' err), w6) | None \<Rightarrow>
     (case e3 of Some err \<Rightarrow> (Inl (ErrBackup ''comments'' err), w7) | None \<Rightarrow>
     (case e4 of Some err \<Rightarrow> (Inl (ErrBackup ''dependencies'' err), w8) | None \<Rightarrow>
     (case e5 of Some err \<Rightarrow> (Inl (ErrBackup ''labels'' err), w9) | None \<Rightarrow>
     (case e6 of Some err \<Rightarrow> (Inl (ErrBackup ''config'' err), w10) | None \<Rightarrow>
        (Inr (with_counts n2 n3 n4 n5 n6 st2), w10)))))))"
  using assms
  by (simp add: export_entities_def set_count_def with_counts_def Let_def split: option.splits)

lemma run_by_steps:
  assumes "backupDir E w = (Inr dir, w1)"
    and "loadBackupState L E dir w1 = (Inr st, w2)"
    and "change_detection E force st w2 = (None, w3)"
    and "tableExistsCheck E ''wisps'' w3 = (hw, w4)"
    and "exportTable L E dir ''issues.jsonl'' (issues_query hw) w4 = ((n1, e1), w5)"
    and "exportEventsIncremental L E dir (set_count (\<lambda>c. c\<lparr>Issues := of_nat n1\<rparr>) st) hw w5 = ((n2, e2), st2, w6)"
    and "exportTable L E dir ''comments.jsonl'' (comments_query hw) w6 = ((n3, e3), w7)"
    and "exportTable L E dir ''dependencies.jsonl'' (deps_query hw) w7 = ((n4, e4), w8)"
    and "exportTable L E dir ''labels.jsonl'' (labels_query hw) w8 = ((n5, e5), w9)"
    and "exportTable L E dir ''config.jsonl'' config_query w9 = ((n6, e6), w10)"
  shows "runBackupExport L E force w =
     (case e1 of Some err \<Rightarrow> (Inl (ErrBackup ''issues'' err), w5) | None \<Rightarrow>
     (case e2 of Some err \<Rightarrow> (Inl (ErrBackup ''events'' err), w6) | None \<Rightarrow>
     (case e3 of Some err \<Rightarrow> (Inl (ErrBackup ''comments'' err), w7) | None \<Rightarrow>
     (case e4 of Some err \<Rightarrow> (Inl (ErrBackup ''dependencies'' err), w8) | None \<Rightarrow>
     (case e5 of Some err \<Rightarrow> (Inl (ErrBackup ''labels'' err), w9) | None \<Rightarrow>
     (case e6 of Some err \<Rightarrow> (Inl (ErrBackup ''config'' err), w10) | None \<Rightarrow>
        update_watermarks L E dir (with_counts n2 n3 n4 n5 n6 st2) w10))))))"
  using export_entities_by_steps [OF assms(4-10)] assms(1-3)
  by (simp add: runBackupExport_def split: option.splits)

text \<open>The worlds between the steps of a run.\<close>

lemma steps_of_run:
  assumes "backupDir E w = (rd, w1)"
    and "loadBackupState L E dir w1 = (rl, w2)"
    and "change_detection E force st w2 = (rc, w3)"
    and "tableExistsCheck E ''wisps'' w3 = (hw, w4)"
    and "exportTable L E dir ''issues.jsonl'' q1 w4 = (r1, w5)"
    and "exportEventsIncremental L E dir st1 hw w5 = (r2, st2, w6)"
    and "exportTable L E dir ''comments.jsonl'' q3 w6 = (r3, w7)"
    and "exportTable L E dir ''dependencies.jsonl'' q4 w7 = (r4, w8)"
    and "exportTable L E dir ''labels.jsonl'' q5 w8 = (r5, w9)"
    and "exportTable L E dir ''config.jsonl'' q6 w9 = (r6, w10)"
  shows "step [] (data_path dir) w w1" "step [] (data_path dir) w w2" "step [] (data_path dir) w w3"
    "step [table_exists_query] (data_path dir) w w4"
    "step [table_exists_query, q1] (data_path dir) w w5"
    "step [table_exists_query, q1, events_query hw] (data_path dir) w w6"
    "step [table_exists_query, q1, events_query hw, q3] (data_path dir) w w7"
    "step [table_exists_query, q1, events_query hw, q3, q4] (data_path dir) w w8"
    "step [table_exists_query, q1, events_query hw, q3, q4, q5] (data_path dir) w w9"
    "step [table_exists_query, q1, events_query hw, q3, q4, q5, q6] (data_path dir) w w10"
proof -
  let ?P = "data_path dir"
  show t1: "step [] ?P w w1"
    using step_backupDir [of ?P w E] assms(1) by simp
  have "step [] ?P w1 w2"
    using step_loadBackupState [of ?P w1 L E dir] assms(2) by simp
  from step_trans [OF t1 this] show t2: "step [] ?P w w2" by simp
  have "step [] ?P w2 w3"
    using step_change_detection [of ?P w2 E force st] assms(3) by simp
  from step_trans [OF t2 this] show t3: "step [] ?P w w3" by simp
  have "step [table_exists_query] ?P w3 w4"
    using step_tableExistsCheck [of ?P w3 E] assms(4) by simp
  from step_trans [OF t3 this] show t4: "step [table_exists_query] ?P w w4" by simp
  have "''issues.jsonl'' \<in> set data_files"
    by (simp add: data_files_def)
  from step_exportTable_data [OF this, of q1 dir w4 L E] assms(5) have "step [q1] ?P w4 w5"
    by simp
  from step_trans [OF t4 this] show t5: "step [table_exists_query, q1] ?P w w5" by simp
  have "step [events_query hw] ?P w5 w6"
    using step_exportEvents_data [of hw dir w5 L E st1] assms(6) by simp
  from step_trans [OF t5 this] show t6: "step [table_exists_query, q1, events_query hw] ?P w w6" by simp
  have "''comments.jsonl'' \<in> set data_files"
    by (simp add: data_files_def)
  from step_exportTable_data [OF this, of q3 dir w6 L E] assms(7) have "step [q3] ?P w6 w7"
    by simp
  from step_trans [OF t6 this] show t7: "step [table_exists_query, q1, events_query hw, q3] ?P w w7" by simp
  have "''dependencies.jsonl'' \<in> set data_files"
    by (simp add: data_files_def)
  from step_exportTable_data [OF this, of q4 dir w7 L E] assms(8) have "step [q4] ?P w7 w8"
    by simp
  from step_trans [OF t7 this] show t8: "step [table_exists_query, q1, events_query hw, q3, q4] ?P w w8" by simp
  have "''labels.jsonl'' \<in> set data_files"
    by (simp add: data_files_def)
  from step_exportTable_data [OF this, of q5 dir w8 L E] assms(9) have "step [q5] ?P w8 w9"
    by simp
  from step_trans [OF t8 this] show t9: "step [table_exists_query, q1, events_query hw, q3, q4, q5] ?P w w9" by simp
  have "''config.jsonl'' \<in> set data_files"
    by (simp add: data_files_def)
  from step_exportTable_data [OF this, of q6 dir w9 L E] assms(10) have "step [q6] ?P w9 w10"
    by simp
  from step_trans [OF t9 this] show "step [table_exists_query, q1, events_query hw, q3, q4, q5, q6] ?P w w10" by simp
qed

lemma step_kept:
  assumes "step qs (data_path dir) w v"
  shows "filter writes_state_file (new_events w v) = []" "trace v = trace w @ new_events w v"
    "base_name p = ''backup_state.json'' \<Longrightarrow> files v p = files w p"
proof -
  show "filter writes_state_file (new_events w v) = []"
    by (rule step_no_state_write(1) [OF assms]) (rule data_path_not_state)
  show "trace v = trace w @ new_events w v"
    by (rule step_new_events(3) [OF assms])
  show "base_name p = ''backup_state.json'' \<Longrightarrow> files v p = files w p"
    by (rule step_no_state_write(2) [OF assms]) (rule data_path_not_state)
qed

text \<open>What a run does to the state file.\<close>

lemma run_state_file:
  assumes run: "runBackupExport L E force w = (r, w')"
  shows "((\<exists>err. r = Inl err) \<longrightarrow>
            (\<forall>p. base_name p = ''backup_state.json'' \<longrightarrow> files w' p = files w p)
          \<and> (\<forall>E' d. fst (loadBackupState L E' d w') = fst (loadBackupState L E' d w)))
       \<and> length (filter writes_state_file (new_events w w')) \<le> 1
       \<and> (list_ex writes_state_file (new_events w w') \<longrightarrow>
            (\<exists>dir st0 w3 st4 w4 data.
                fst (backupDir E w) = Inr dir
              \<and> fst (loadBackupState L E dir w) = Inr st0
              \<and> files w3 = files w
              \<and> export_entities L E dir st0 w3 = (Inr st4, w4)
              \<and> queries_of (new_events w w4) = export_order (has_wisps E)
              \<and> \<not> list_ex writes_state_file (new_events w w4)
              \<and> new_events w w' = new_events w w4 @
                   [GetCurrentCommit, AtomicWrite (state_path dir) data (write_fault E (state_path dir))]))"
  using run
proof (cases rule: runBackupExport_cases)
  case early
  have "filter writes_state_file (new_events w w') = []"
    and "\<And>p. base_name p = ''backup_state.json'' \<Longrightarrow> files w' p = files w p"
    using step_no_state_write [OF early(1)] by simp_all
  then show ?thesis
    using load_depends_on_file [of w' _ w] by (simp add: list_ex_iff filter_empty_conv)
next
  case (export_failed dir st0 w3 err)
  from export_entities_step [OF export_failed(4)] obtain qs where
    qs: "step qs (data_path dir) w3 w'"
    by blast
  from step_trans [OF step_mono [OF export_failed(3), of "data_path dir"] qs]
  have s: "step qs (data_path dir) w w'" by simp
  have "filter writes_state_file (new_events w w') = []"
    and "\<And>p. base_name p = ''backup_state.json'' \<Longrightarrow> files w' p = files w p"
    using step_no_state_write [OF s] data_path_not_state by simp_all
  then show ?thesis
    using load_depends_on_file [of w' _ w] by (simp add: list_ex_iff filter_empty_conv)
next
  case (exported dir st0 w3 st4 w4)
  from export_entities_step [OF exported(4)] obtain qs where
    qs: "step qs (data_path dir) w3 w4" "qs = export_order (has_wisps E)"
    by blast
  from step_trans [OF step_mono [OF exported(3), of "data_path dir"] qs(1)]
  have s: "step qs (data_path dir) w w4" by simp
  have nw: "filter writes_state_file (new_events w w4) = []"
    and fr: "\<And>p. base_name p = ''backup_state.json'' \<Longrightarrow> files w4 p = files w p"
    using step_no_state_write [OF s] data_path_not_state by simp_all
  have tr: "trace w4 = trace w @ new_events w w4"
    using s by (rule step_new_events)
  have f3: "files w3 = files w"
    using exported(3) by (rule step_files)
  from exported(5) show ?thesis
  proof (cases rule: update_watermarks_cases)
    case (no_write err)
    from new_events_trans [OF tr no_write(2)] have "new_events w w' = new_events w w4 @ [GetCurrentCommit]" .
    with nw fr no_write show ?thesis
      using load_depends_on_file [of w' _ w] by (simp add: list_ex_iff filter_empty_conv)
  next
    case (attempt c data)
    from new_events_trans [OF tr attempt(3)]
    have ne: "new_events w w' = new_events w w4 @
        [GetCurrentCommit, AtomicWrite (state_path dir) data (write_fault E (state_path dir))]" .
    have a: "(\<exists>err. r = Inl err) \<longrightarrow>
            (\<forall>p. base_name p = ''backup_state.json'' \<longrightarrow> files w' p = files w p)
          \<and> (\<forall>E' d. fst (loadBackupState L E' d w') = fst (loadBackupState L E' d w))"
      using attempt(4,5) fr load_depends_on_file [of w' _ w]
      by (cases "write_fault E (state_path dir) = NoFault") auto
    have b: "length (filter writes_state_file (new_events w w')) \<le> 1"
      using ne nw by simp
    have c: "\<exists>dir st0 w3 st4 w4 data.
                fst (backupDir E w) = Inr dir
              \<and> fst (loadBackupState L E dir w) = Inr st0
              \<and> files w3 = files w
              \<and> export_entities L E dir st0 w3 = (Inr st4, w4)
              \<and> queries_of (new_events w w4) = export_order (has_wisps E)
              \<and> \<not> list_ex writes_state_file (new_events w w4)
              \<and> new_events w w' = new_events w w4 @
                   [GetCurrentCommit, AtomicWrite (state_path dir) data (write_fault E (state_path dir))]"
      using exported(1,2,4) f3 ne nw qs(2) step_new_events(1) [OF s]
      by (intro exI [of _ dir] exI [of _ st0] exI [of _ w3] exI [of _ st4] exI [of _ w4] exI [of _ data])
        (simp add: list_ex_iff filter_empty_conv)
    from a b c show ?thesis by blast
  qed
qed

lemma run_steps_exist:
  obtains rd w1 rl w2 rc w3 hw w4 n1 e1 w5 n2 e2 st2 w6 n3 e3 w7 n4 e4 w8 n5 e5 w9 n6 e6 w10 e7 w11 where
    "backupDir E w = (rd, w1)"
    "loadBackupState L E dir w1 = (rl, w2)"
    "change_detection E force st w2 = (rc, w3)"
    "tableExistsCheck E ''wisps'' w3 = (hw, w4)"
    "exportTable L E dir ''issues.jsonl'' (issues_query hw) w4 = ((n1, e1), w5)"
    "exportEventsIncremental L E dir (set_count (\<lambda>c. c\<lparr>Issues := of_nat n1\<rparr>) st) hw w5 = ((n2, e2), st2, w6)"
    "exportTable L E dir ''comments.jsonl'' (comments_query hw) w6 = ((n3, e3), w7)"
    "exportTable L E dir ''dependencies.jsonl'' (deps_query hw) w7 = ((n4, e4), w8)"
    "exportTable L E dir ''labels.jsonl'' (labels_query hw) w8 = ((n5, e5), w9)"
    "exportTable L E dir ''config.jsonl'' config_query w9 = ((n6, e6), w10)"
    "saveBackupState L E dir ((with_counts n2 n3 n4 n5 n6 st2)\<lparr>LastDoltCommit := c, Timestamp := now_utc E\<rparr>)
                (emit GetCurrentCommit w10) = (e7, w11)"
proof -
  obtain rd w1 where s1: "backupDir E w = (rd, w1)" by (cases "backupDir E w")
  obtain rl w2 where s2: "loadBackupState L E dir w1 = (rl, w2)" by (cases "loadBackupState L E dir w1")
  obtain rc w3 where s3: "change_detection E force st w2 = (rc, w3)" by (cases "change_detection E force st w2")
  obtain hw w4 where s4: "tableExistsCheck E ''wisps'' w3 = (hw, w4)" by (cases "tableExistsCheck E ''wisps'' w3")
  obtain n1 e1 w5 where s5: "exportTable L E dir ''issues.jsonl'' (issues_query hw) w4 = ((n1, e1), w5)"
    by (metis surj_pair)
  obtain n2 e2 st2 w6 where
    s6: "exportEventsIncremental L E dir (set_count (\<lambda>c. c\<lparr>Issues := of_nat n1\<rparr>) st) hw w5 = ((n2, e2), st2, w6)"
    by (metis surj_pair)
  obtain n3 e3 w7 where s7: "exportTable L E dir ''comments.jsonl'' (comments_query hw) w6 = ((n3, e3), w7)"
    by (metis surj_pair)
  obtain n4 e4 w8 where s8: "exportTable L E dir ''dependencies.jsonl'' (deps_query hw) w7 = ((n4, e4), w8)"
    by (metis surj_pair)
  obtain n5 e5 w9 where s9: "exportTable L E dir ''labels.jsonl'' (labels_query hw) w8 = ((n5, e5), w9)"
    by (metis surj_pair)
  obtain n6 e6 w10 where s10: "exportTable L E dir ''config.jsonl'' config_query w9 = ((n6, e6), w10)"
    by (metis surj_pair)
  obtain e7 w11 where
    s11: "saveBackupState L E dir ((with_counts n2 n3 n4 n5 n6 st2)\<lparr>LastDoltCommit := c, Timestamp := now_utc E\<rparr>)
                (emit GetCurrentCommit w10) = (e7, w11)"
    by (metis surj_pair)
  show thesis
    by (rule that [OF s1 s2 s3 s4 s5 s6 s7 s8 s9 s10 s11])
qed

lemma aborted_steps:
  defines "L \<equiv> sample_lib [(recorded_doc, recorded_state)]" and "E \<equiv> sample_env comments_fail_store ''def456''"
  shows "backupDir E aborted_start = (Inr sample_dir, emit (MkdirAll sample_dir) aborted_start)"
    "loadBackupState L E sample_dir (emit (MkdirAll sample_dir) aborted_start)
       = (Inr recorded_state, emit (ReadFile (state_path sample_dir)) (emit (MkdirAll sample_dir) aborted_start))"
    "change_detection E False recorded_state (emit (ReadFile (state_path sample_dir)) (emit (MkdirAll sample_dir) aborted_start))
       = (None, emit GetCurrentCommit (emit (ReadFile (state_path sample_dir)) (emit (MkdirAll sample_dir) aborted_start)))"
    "tableExistsCheck E ''wisps'' (emit GetCurrentCommit (emit (ReadFile (state_path sample_dir)) (emit (MkdirAll sample_dir) aborted_start)))
       = (False, aborted_probed)"
    "exportTable L E sample_dir ''issues.jsonl'' (issues_query False) aborted_probed = ((2, None), aborted_issues)"
    "exportEventsIncremental L E sample_dir (set_count (\<lambda>c. c\<lparr>Issues := of_nat 2\<rparr>) recorded_state) False aborted_issues
       = ((0, None), set_count (\<lambda>c. c\<lparr>Issues := of_nat 2\<rparr>) recorded_state,
          emit (Query (events_query False) [VInt64 2]) aborted_issues)"
    "exportTable L E sample_dir ''comments.jsonl'' (comments_query False)
         (emit (Query (events_query False) [VInt64 2]) aborted_issues)
       = ((0, Some ErrQuery), aborted_end)"
  unfolding L_def E_def aborted_start_def aborted_probed_def aborted_issues_def aborted_end_def
  by (simp_all add: run_defs query_defs sample_env_def sample_lib_def comments_fail_store_def world_with_def
      empty_rows_def recorded_state_def recorded_doc_def zero_state_def zero_counts_def zero_time_def
      sample_dir_def two_issues_def build_row_def marshal_two_issues)






lemma update_watermarks_frame:
  assumes "update_watermarks L E dir st w = (r, w')" and "p \<noteq> state_path dir"
  shows "files w' p = files w p"
  using step_update_watermarks [of "\<lambda>p'. p' = state_path dir" dir w L E st] assms
  by (simp add: step_def)





lemma marshal_reset_state:
  "sample_MarshalIndent
     \<lparr>LastDoltCommit = ''c2'', LastEventID = 0, Timestamp = sample_time,
      Counts = \<lparr>Issues = 2, Events = 3, Comments = 0, Dependencies = 0, Labels = 0, Config = 0\<rparr>\<rparr>
   \<noteq> None"
  by (simp add: sample_MarshalIndent_def sample_now_year)

lemma marshal_byte_id_event:
  \<open>sample_Marshal [(''id'', VString ''3''), (''event_type'', VString ''created'')] = Some ''{"event_type":"created","id":"3"}''\<close>
  by code_simp

lemma byte_id_run:
  "fst (runBackupExport (sample_lib [(first_doc, first_state)]) byte_id_env False first_world) = Inr reset_state"
  \<open>files (snd (runBackupExport (sample_lib [(first_doc, first_state)]) byte_id_env False first_world))
      ''/repo/.beads/backup/events.jsonl''
     = Some (''{"event_type":"created","id":1}'' @ [newline] @ ''{"event_type":"created","id":2}'' @ [newline] @
             ''{"event_type":"created","id":"3"}'' @ [newline])\<close>
  using marshal_reset_state
  by (auto simp: table_run_defs byte_id_env_def byte_id_store_def reset_state_def first_state_def first_run(2,3)
      marshal_byte_id_event)

section \<open>Properties of the export engine\<close>

subsection \<open>The row normalizer\<close>

text \<open>
  C6. \<^verbatim>\<open>normalizeValue\<close> returns a value on every input and has no error result: a
  byte sequence becomes the string of its bytes, a zero time becomes nil, a time that is
  not zero becomes the string that \<^verbatim>\<open>Format(time.RFC3339)\<close> gives, nil stays nil, and
  a value of any other type is returned as it is.
\<close>

theorem normalizeValue_cases:
  "normalizeValue L (VBytes b) = VString b
   \<and> (IsZero t \<longrightarrow> normalizeValue L (VTime t) = VNil)
   \<and> (\<not> IsZero t \<longrightarrow> normalizeValue L (VTime t) = VString (time_Format_RFC3339 L t))
   \<and> normalizeValue L VNil = VNil
   \<and> ((\<forall>b'. v \<noteq> VBytes b') \<and> (\<forall>t'. v \<noteq> VTime t') \<longrightarrow> normalizeValue L v = v)"
  by (cases v) simp_all

lemma format_sample_time: "format_time False sample_time = ''2006-01-02T15:04:05Z''"
  by code_simp

theorem normalizeValue_cases_witness:
  "normalizeValue (sample_lib []) (VBytes ''bd-1'') = VString ''bd-1''
   \<and> IsZero zero_time \<and> normalizeValue (sample_lib []) (VTime zero_time) = VNil
   \<and> \<not> IsZero sample_time
   \<and> normalizeValue (sample_lib []) (VTime sample_time) = VString ''2006-01-02T15:04:05Z''
   \<and> normalizeValue (sample_lib []) VNil = VNil
   \<and> normalizeValue (sample_lib []) (VInt64 7) = VInt64 7"
  using normalizeValue_cases [of "sample_lib []" "''bd-1''" zero_time "VInt64 7"]
    normalizeValue_cases [of "sample_lib []" "''bd-1''" sample_time "VInt64 7"]
  by (simp add: IsZero_def zero_time_def format_sample_time sample_lib_def) (simp add: sample_time_def)

subsection \<open>The backup state store\<close>

text \<open>
  C9. When the state file exists, can be read and does not parse,
  \<^verbatim>\<open>loadBackupState\<close> returns the parse error and the run ends with it, before any
  query and any write; the zero state is returned when the file is absent, and a state
  that is returned for a file that exists is the one its content parses to.
\<close>

theorem unparsable_state_file_aborts:
  "(files w (state_path dir) = Some data \<and> \<not> read_fault E (state_path dir) \<and> json_Unmarshal L data = None
      \<longrightarrow> fst (loadBackupState L E dir w) = Inl ErrParseState
        \<and> (fst (backupDir E w) = Inr dir
             \<longrightarrow> fst (runBackupExport L E force w) = Inl ErrParseState
               \<and> files (snd (runBackupExport L E force w)) = files w
               \<and> queries_of (new_events w (snd (runBackupExport L E force w))) = []
               \<and> \<not> list_ex is_file_write (new_events w (snd (runBackupExport L E force w)))))
   \<and> (files w (state_path dir) = None \<longrightarrow> fst (loadBackupState L E dir w) = Inr zero_state)
   \<and> (fst (loadBackupState L E dir w) = Inr st
      \<longrightarrow> (files w (state_path dir) = None \<and> st = zero_state)
        \<or> (\<exists>content. files w (state_path dir) = Some content \<and> json_Unmarshal L content = Some st))"
proof (intro conjI impI)
  assume a: "files w (state_path dir) = Some data \<and> \<not> read_fault E (state_path dir) \<and> json_Unmarshal L data = None"
  then show "fst (loadBackupState L E dir w) = Inl ErrParseState"
    by (simp add: loadBackupState_def Let_def)
  assume d: "fst (backupDir E w) = Inr dir"
  define w1 where "w1 = snd (backupDir E w)"
  have bd: "backupDir E w = (Inr dir, w1)"
    using d by (simp add: w1_def prod_eq_iff)
  have s1: "step [] (\<lambda>p. False) w w1"
    unfolding w1_def by (rule step_backupDir)
  then have f1: "files w1 = files w"
    by (rule step_files)
  define w2 where "w2 = snd (loadBackupState L E dir w1)"
  have ld: "loadBackupState L E dir w1 = (Inl ErrParseState, w2)"
    using a f1 by (simp add: loadBackupState_def Let_def w2_def)
  have s2: "step [] (\<lambda>p. False) w1 w2"
    unfolding w2_def by (rule step_loadBackupState)
  from step_trans [OF s1 s2] have s: "step [] (\<lambda>p. False) w w2"
    by simp
  have run: "runBackupExport L E force w = (Inl ErrParseState, w2)"
    by (simp add: runBackupExport_def bd ld)
  show "fst (runBackupExport L E force w) = Inl ErrParseState"
    by (simp add: run)
  show "files (snd (runBackupExport L E force w)) = files w"
    using step_files [OF s] by (simp add: run)
  show "queries_of (new_events w (snd (runBackupExport L E force w))) = []"
    using step_new_events(1) [OF s] by (simp add: run)
  show "\<not> list_ex is_file_write (new_events w (snd (runBackupExport L E force w)))"
    using step_no_writes [OF s] by (simp add: run)
next
  assume "files w (state_path dir) = None"
  then show "fst (loadBackupState L E dir w) = Inr zero_state"
    by (simp add: loadBackupState_def Let_def)
next
  assume "fst (loadBackupState L E dir w) = Inr st"
  then show "(files w (state_path dir) = None \<and> st = zero_state)
        \<or> (\<exists>content. files w (state_path dir) = Some content \<and> json_Unmarshal L content = Some st)"
    by (auto simp: loadBackupState_def Let_def split: option.splits if_splits)
qed


lemma backupDir_sample: "backupDir (sample_env store c) w = (Inr sample_dir, emit (MkdirAll sample_dir) w)"
  by (simp add: backupDir_def sample_env_def sample_dir_def sample_paths Let_def)

lemma state_path_sample: "state_path sample_dir = ''/repo/.beads/backup/backup_state.json''"
  by (simp add: state_path_def sample_dir_def sample_paths)

theorem unparsable_state_file_aborts_witness:
  "fst (runBackupExport (sample_lib [(''{}'', zero_state)]) (sample_env (\<lambda>q args. None) ''abc123'') False
          (world_with [(state_path sample_dir, ''{not json'')])) = Inl ErrParseState
   \<and> files (snd (runBackupExport (sample_lib [(''{}'', zero_state)]) (sample_env (\<lambda>q args. None) ''abc123'') False
          (world_with [(state_path sample_dir, ''{not json'')]))) (state_path sample_dir) = Some ''{not json''
   \<and> fst (loadBackupState (sample_lib [(''{}'', zero_state)]) (sample_env (\<lambda>q args. None) ''abc123'') sample_dir
          (world_with [])) = Inr zero_state
   \<and> fst (loadBackupState (sample_lib [(''{}'', zero_state)]) (sample_env (\<lambda>q args. None) ''abc123'') sample_dir
          (world_with [(state_path sample_dir, ''{}'')])) = Inr zero_state
   \<and> json_Unmarshal (sample_lib [(''{}'', zero_state)]) ''{}'' = Some zero_state"
  using
    unparsable_state_file_aborts [of "world_with [(state_path sample_dir, ''{not json'')]" sample_dir "''{not json''"
      "sample_env (\<lambda>q args. None) ''abc123''" "sample_lib [(''{}'', zero_state)]" False zero_state]
    unparsable_state_file_aborts [of "world_with []" sample_dir "[]"
      "sample_env (\<lambda>q args. None) ''abc123''" "sample_lib [(''{}'', zero_state)]" False zero_state]
    unparsable_state_file_aborts [of "world_with [(state_path sample_dir, ''{}'')]" sample_dir "''{}''"
      "sample_env (\<lambda>q args. None) ''abc123''" "sample_lib [(''{}'', zero_state)]" False zero_state]
  by (simp add: backupDir_sample world_with_def sample_lib_def)
    (simp add: sample_env_def loadBackupState_def Let_def)

subsection \<open>The probe for the shadow tables\<close>

text \<open>
  C10. When the query of the probe for the table \<^verbatim>\<open>wisps\<close> fails,
  \<^verbatim>\<open>tableExistsCheck\<close> returns false and no error: the run is the run against a store
  that answers the probe with no row, and every query it makes is of the form without the
  shadow tables.
\<close>

theorem failed_probe_runs_primary_only:
  assumes "store_query E table_exists_query [VString ''wisps''] = None"
  shows "fst (tableExistsCheck E ''wisps'' w) = False
       \<and> runBackupExport L E force w = runBackupExport L (without_wisps E) force w
       \<and> prefix (queries_of (new_events w (snd (runBackupExport L E force w)))) (export_order False)"
proof -
  have hw: "has_wisps E = False"
    using assms by (rule has_wisps_failed_probe)
  have "fst (tableExistsCheck E ''wisps'' w) = False"
    using hw by (simp add: tableExistsCheck_eq)
  moreover have "runBackupExport L E force w = runBackupExport L (without_wisps E) force w"
    by (simp add: runBackupExport_def without_wisps_ops without_wisps_update_watermarks
        without_wisps_export_entities [OF hw]
        cong: prod.case_cong sum.case_cong option.case_cong)
  moreover have "prefix (queries_of (new_events w (snd (runBackupExport L E force w)))) (export_order False)"
    using run_queries [of L E force w "fst (runBackupExport L E force w)" "snd (runBackupExport L E force w)"] hw
    by simp
  ultimately show ?thesis by simp
qed

theorem failed_probe_runs_primary_only_witness:
  "store_query (sample_env probe_fails_store ''abc123'') table_exists_query [VString ''wisps''] = None
   \<and> fst (tableExistsCheck (sample_env probe_fails_store ''abc123'') ''wisps'' (world_with [])) = False
   \<and> runBackupExport (sample_lib []) (sample_env probe_fails_store ''abc123'') False (world_with [])
       = runBackupExport (sample_lib []) (without_wisps (sample_env probe_fails_store ''abc123'')) False (world_with [])
   \<and> queries_of (new_events (world_with [])
        (snd (runBackupExport (sample_lib []) (sample_env probe_fails_store ''abc123'') False (world_with []))))
       = export_order False"
proof -
  have p: "store_query (sample_env probe_fails_store ''abc123'') table_exists_query [VString ''wisps''] = None"
    by (simp add: sample_env_def probe_fails_store_def)
  have q: "queries_of (new_events (world_with [])
        (snd (runBackupExport (sample_lib []) (sample_env probe_fails_store ''abc123'') False (world_with []))))
       = export_order False"
    by (simp add: run_defs query_defs sample_env_def sample_lib_def probe_fails_store_def world_with_def
        empty_rows_def zero_state_def zero_counts_def zero_time_def new_events_def export_order_def
        sample_MarshalIndent_def sample_now_year)
  from failed_probe_runs_primary_only [OF p, of "world_with []" "sample_lib []" False] p q
  show ?thesis by simp
qed

subsection \<open>The exporters and the change detection\<close>

text \<open>
  C5. When the events query succeeds and delivers no row,
  \<^verbatim>\<open>exportEventsIncremental\<close> returns the count 0 and no error, the state (and so the
  watermark) is the one it was given, no file has changed, and the only call it has made
  is the query: the events file is neither opened nor written.
\<close>

theorem no_new_events_no_effect:
  assumes "store_query E (events_query hw) (events_args hw st) = Some rs"
    and "rows_columns rs = Some cols"
    and "rows_scans rs = []"
    and "\<not> rows_err rs"
  shows "\<exists>w'. exportEventsIncremental L E dir st hw w = ((0, None), st, w')
           \<and> files w' = files w
           \<and> new_events w w' = [Query (events_query hw) (events_args hw st)]
           \<and> \<not> list_ex is_file_write (new_events w w')"
  using assms by (simp add: exportEventsIncremental_def Let_def)

theorem no_new_events_no_effect_witness:
  "exportEventsIncremental (sample_lib []) (sample_env no_events_store ''abc123'') sample_dir
      (zero_state\<lparr>LastEventID := 7\<rparr>) False (world_with [(filepath_Join sample_dir ''events.jsonl'', ''old'')])
    = ((0, None), zero_state\<lparr>LastEventID := 7\<rparr>,
       \<lparr>files = map_of [(filepath_Join sample_dir ''events.jsonl'', ''old'')],
         trace = [Query (events_query False) [VInt64 7]]\<rparr>)"
  using no_new_events_no_effect [of "sample_env no_events_store ''abc123''" False "zero_state\<lparr>LastEventID := 7\<rparr>"
      "empty_rows [''id'', ''event_type'']" "[''id'', ''event_type'']" "sample_lib []" sample_dir
      "world_with [(filepath_Join sample_dir ''events.jsonl'', ''old'')]"]
  by (auto simp: sample_env_def no_events_store_def empty_rows_def events_args_def world_with_def
      exportEventsIncremental_def Let_def emit_def)

text \<open>
  C4. For a query that the store answers: when a scan fails, a row is rejected by
  \<^verbatim>\<open>json.Marshal\<close> or the iteration ends with an error, \<^verbatim>\<open>exportTable\<close> returns an
  error, leaves every file as it was and makes no file call; otherwise its only file call
  is one \<^verbatim>\<open>atomicWriteFile\<close> of the buffer of all rows to the output path, it returns
  the number of rows, and the output file holds that buffer when the write succeeds.
\<close>

theorem exportTable_all_or_nothing:
  assumes "store_query E q [] = Some rs"
    and "rows_columns rs = Some cols"
    and "exportTable L E dir fn q w = ((n, r), w')"
  shows "(row_failure L cols rs \<longrightarrow>
            r \<noteq> None \<and> n = 0 \<and> files w' = files w \<and> \<not> list_ex is_file_write (new_events w w'))
       \<and> (\<not> row_failure L cols rs \<longrightarrow>
            n = length (rows_scans rs)
          \<and> new_events w w' = [Query q [], AtomicWrite (filepath_Join dir fn) (jsonl L cols (rows_scans rs))
                                             (write_fault E (filepath_Join dir fn))]
          \<and> (r = None \<longleftrightarrow> write_fault E (filepath_Join dir fn) = NoFault)
          \<and> files w' = (if r = None then (files w)(filepath_Join dir fn \<mapsto> jsonl L cols (rows_scans rs))
                        else files w))"
proof (rule conjI; rule impI)
  assume f: "row_failure L cols rs"
  from exportTable_row_failure [OF assms(1,2) f, of dir fn w] assms(3)
  show "r \<noteq> None \<and> n = 0 \<and> files w' = files w \<and> \<not> list_ex is_file_write (new_events w w')"
    by auto
next
  assume ok: "\<not> row_failure L cols rs"
  define p where "p = filepath_Join dir fn"
  define buf where "buf = jsonl L cols (rows_scans rs)"
  obtain r0 w0 where aw: "atomicWriteFile E p buf (emit (Query q []) w) = (r0, w0)"
    by (metis prod.exhaust)
  from exportTable_rows_ok [OF assms(1,2) ok, of dir fn w] assms(3) aw
  have eq: "n = length (rows_scans rs)" "r = r0" "w' = w0"
    by (simp_all add: p_def buf_def)
  have w0: "trace w0 = trace w @ [Query q [], AtomicWrite p buf (write_fault E p)]"
    "files w0 = (if write_fault E p = NoFault then (files w)(p \<mapsto> buf) else files w)"
    "r0 = None \<longleftrightarrow> write_fault E p = NoFault"
    using aw by (auto simp: atomicWriteFile_def Let_def split: write_fault.splits)
  show "n = length (rows_scans rs)
      \<and> new_events w w' = [Query q [], AtomicWrite (filepath_Join dir fn) (jsonl L cols (rows_scans rs))
                                             (write_fault E (filepath_Join dir fn))]
      \<and> (r = None \<longleftrightarrow> write_fault E (filepath_Join dir fn) = NoFault)
      \<and> files w' = (if r = None then (files w)(filepath_Join dir fn \<mapsto> jsonl L cols (rows_scans rs))
                        else files w)"
    using eq w0 by (simp add: p_def buf_def)
qed

theorem exportTable_all_or_nothing_witness:
  \<open>row_failure (sample_lib []) [''id'', ''title''] (Rows (Some [''id'', ''title'']) [Some [VBytes ''bd-1'', VBytes ''First''], None] False)
   \<and> exportTable (sample_lib []) (sample_env (issues_store [Some [VBytes ''bd-1'', VBytes ''First''], None]) ''abc123'')
         sample_dir ''issues.jsonl'' (issues_query False) (world_with [(filepath_Join sample_dir ''issues.jsonl'', ''old'')])
       = ((0, Some ErrScan),
          \<lparr>files = map_of [(filepath_Join sample_dir ''issues.jsonl'', ''old'')], trace = [Query (issues_query False) []]\<rparr>)
   \<and> \<not> row_failure (sample_lib []) [''id'', ''title''] (Rows (Some [''id'', ''title'']) two_issues False)
   \<and> fst (exportTable (sample_lib []) (sample_env (issues_store two_issues) ''abc123'')
         sample_dir ''issues.jsonl'' (issues_query False) (world_with [(filepath_Join sample_dir ''issues.jsonl'', ''old'')]))
       = (2, None)
   \<and> files (snd (exportTable (sample_lib []) (sample_env (issues_store two_issues) ''abc123'')
         sample_dir ''issues.jsonl'' (issues_query False) (world_with [(filepath_Join sample_dir ''issues.jsonl'', ''old'')])))
         (filepath_Join sample_dir ''issues.jsonl'')
       = Some (''{"id":"bd-1","title":"First"}'' @ [newline] @ ''{"id":"bd-2","title":"Second"}'' @ [newline])\<close>
proof -
  let ?L = "sample_lib []"
  let ?w = "world_with [(filepath_Join sample_dir ''issues.jsonl'', ''old'')]"
  let ?bad = "[Some [VBytes ''bd-1'', VBytes ''First''], None]"
  let ?E1 = "sample_env (issues_store ?bad) ''abc123''"
  let ?E2 = "sample_env (issues_store two_issues) ''abc123''"
  have f: "row_failure ?L [''id'', ''title''] (Rows (Some [''id'', ''title'']) ?bad False)"
    by (simp add: row_failure_def row_ok_def)
  have ok: "\<not> row_failure ?L [''id'', ''title''] (Rows (Some [''id'', ''title'']) two_issues False)"
    by (simp add: row_failure_def two_issues_ok)
  have q1: "store_query ?E1 (issues_query False) [] = Some (Rows (Some [''id'', ''title'']) ?bad False)"
    and q2: "store_query ?E2 (issues_query False) [] = Some (Rows (Some [''id'', ''title'']) two_issues False)"
    and wf: "write_fault ?E2 (filepath_Join sample_dir ''issues.jsonl'') = NoFault"
    by (simp_all add: sample_env_def issues_store_def)
  obtain n1 r1 w1 where x1: "exportTable ?L ?E1 sample_dir ''issues.jsonl'' (issues_query False) ?w = ((n1, r1), w1)"
    by (metis prod.exhaust)
  obtain n2 r2 w2 where x2: "exportTable ?L ?E2 sample_dir ''issues.jsonl'' (issues_query False) ?w = ((n2, r2), w2)"
    by (metis prod.exhaust)
  have e1: "exportTable ?L ?E1 sample_dir ''issues.jsonl'' (issues_query False) ?w
       = ((0, Some ErrScan), \<lparr>files = map_of [(filepath_Join sample_dir ''issues.jsonl'', ''old'')], trace = [Query (issues_query False) []]\<rparr>)"
    by (simp add: exportTable_def q1 Let_def emit_def world_with_def sample_lib_def build_row_def,
        simp add: sample_Marshal_def json_string_def)
  have c: "rows_columns (Rows (Some [''id'', ''title'']) scs False) = Some [''id'', ''title'']" for scs
    by simp
  from exportTable_all_or_nothing [OF q1 c x1] f
  have "r1 \<noteq> None \<and> n1 = 0 \<and> files w1 = files ?w"
    by simp
  moreover from exportTable_all_or_nothing [OF q2 c x2] ok wf
  have "n2 = 2" "r2 = None" "files w2 (filepath_Join sample_dir ''issues.jsonl'')
      = Some (jsonl ?L [''id'', ''title''] two_issues)"
    by (simp_all add: two_issues_def)
  ultimately show ?thesis
    using f ok e1 x2 by (simp add: jsonl_two_issues)
qed



subsection \<open>The orchestrator: failure leaves the state file\<close>

text \<open>
  C1. The steps of a run are \<^verbatim>\<open>backupDir\<close>, \<^verbatim>\<open>loadBackupState\<close>, the change detection,
  the probe, the six exports, the second reading of the commit and \<^verbatim>\<open>saveBackupState\<close>,
  each made on the world that the step before has left. The first step that returns an
  error ends the run: the run returns that error (wrapped with the name of the entity for
  an export) and the world is the one that this step has left; no later step is made. A
  run that returns an error leaves every file named \<^verbatim>\<open>backup_state.json\<close> with the bytes
  it had, so that the state which a later run loads, and with it the recorded commit and
  watermark, is the one from before the run. In every run the state file is the target of
  at most one file call; when there is one, none of the six exports has returned an error,
  and the call is the last of the run, right after the second reading of the commit.
\<close>

theorem failing_step_aborts_run:
  assumes run: "runBackupExport L E force w = (r, w')"
    and s1: "backupDir E w = (rd, w1)"
    and s2: "loadBackupState L E dir w1 = (rl, w2)"
    and s3: "change_detection E force st w2 = (rc, w3)"
    and s4: "tableExistsCheck E ''wisps'' w3 = (hw, w4)"
    and s5: "exportTable L E dir ''issues.jsonl'' (issues_query hw) w4 = ((n1, e1), w5)"
    and s6: "exportEventsIncremental L E dir (set_count (\<lambda>c. c\<lparr>Issues := of_nat n1\<rparr>) st) hw w5 = ((n2, e2), st2, w6)"
    and s7: "exportTable L E dir ''comments.jsonl'' (comments_query hw) w6 = ((n3, e3), w7)"
    and s8: "exportTable L E dir ''dependencies.jsonl'' (deps_query hw) w7 = ((n4, e4), w8)"
    and s9: "exportTable L E dir ''labels.jsonl'' (labels_query hw) w8 = ((n5, e5), w9)"
    and s10: "exportTable L E dir ''config.jsonl'' config_query w9 = ((n6, e6), w10)"
    and s11: "saveBackupState L E dir ((with_counts n2 n3 n4 n5 n6 st2)\<lparr>LastDoltCommit := c, Timestamp := now_utc E\<rparr>)
                (emit GetCurrentCommit w10) = (e7, w11)"
  shows "(\<forall>err. rd = Inl err \<longrightarrow> r = Inl err \<and> w' = w1)
       \<and> (rd = Inr dir \<longrightarrow>
            (\<forall>err. rl = Inl err \<longrightarrow> r = Inl err \<and> w' = w2)
          \<and> (rl = Inr st \<longrightarrow>
               (\<forall>err. rc = Some (Inl err) \<longrightarrow> r = Inl err \<and> w' = w3)
             \<and> (rc = None \<longrightarrow>
                  (\<forall>err. e1 = Some err \<longrightarrow> r = Inl (ErrBackup ''issues'' err) \<and> w' = w5)
                \<and> (\<forall>err. e1 = None \<and> e2 = Some err \<longrightarrow> r = Inl (ErrBackup ''events'' err) \<and> w' = w6)
                \<and> (\<forall>err. e1 = None \<and> e2 = None \<and> e3 = Some err \<longrightarrow>
                      r = Inl (ErrBackup ''comments'' err) \<and> w' = w7)
                \<and> (\<forall>err. e1 = None \<and> e2 = None \<and> e3 = None \<and> e4 = Some err \<longrightarrow>
                      r = Inl (ErrBackup ''dependencies'' err) \<and> w' = w8)
                \<and> (\<forall>err. e1 = None \<and> e2 = None \<and> e3 = None \<and> e4 = None \<and> e5 = Some err \<longrightarrow>
                      r = Inl (ErrBackup ''labels'' err) \<and> w' = w9)
                \<and> (\<forall>err. e1 = None \<and> e2 = None \<and> e3 = None \<and> e4 = None \<and> e5 = None \<and> e6 = Some err \<longrightarrow>
                      r = Inl (ErrBackup ''config'' err) \<and> w' = w10)
                \<and> (e1 = None \<and> e2 = None \<and> e3 = None \<and> e4 = None \<and> e5 = None \<and> e6 = None \<longrightarrow>
                      (commit_at_save E = None \<longrightarrow> r = Inl ErrGetCommitForState \<and> w' = emit GetCurrentCommit w10)
                    \<and> (commit_at_save E = Some c \<longrightarrow>
                          (\<forall>err. e7 = Some err \<longrightarrow> r = Inl err \<and> w' = w11)
                        \<and> (e7 = None \<longrightarrow>
                              r = Inr ((with_counts n2 n3 n4 n5 n6 st2)\<lparr>LastDoltCommit := c, Timestamp := now_utc E\<rparr>)
                            \<and> w' = w11))))))
       \<and> ((\<exists>err. r = Inl err) \<longrightarrow>
            (\<forall>p. base_name p = ''backup_state.json'' \<longrightarrow> files w' p = files w p)
          \<and> (\<forall>E' d. fst (loadBackupState L E' d w') = fst (loadBackupState L E' d w)))
       \<and> length (filter writes_state_file (new_events w w')) \<le> 1
       \<and> (list_ex writes_state_file (new_events w w') \<and> rd = Inr dir \<and> rl = Inr st \<longrightarrow>
            rc = None \<and> e1 = None \<and> e2 = None \<and> e3 = None \<and> e4 = None \<and> e5 = None \<and> e6 = None
          \<and> (\<exists>data. new_events w w' = new_events w w10 @
                [GetCurrentCommit, AtomicWrite (state_path dir) data (write_fault E (state_path dir))]))"
  (is "?A \<and> (_ \<longrightarrow> ?B \<and> (_ \<longrightarrow> ?C \<and> (_ \<longrightarrow> ?DF))) \<and> ?G1 \<and> ?G2 \<and> (?h \<longrightarrow> ?H)")
proof -
  note steps = steps_of_run [OF s1 s2 s3 s4 s5 s6 s7 s8 s9 s10]
  have A: ?A
    using run s1 by (auto simp: runBackupExport_def)
  have B: ?B if "rd = Inr dir"
    using run s1 s2 that by (auto simp: runBackupExport_def)
  have C: ?C if "rd = Inr dir" "rl = Inr st"
    using run s1 s2 s3 that by (auto simp: runBackupExport_def)
  have early: "w' = w3" if "rd = Inr dir" "rl = Inr st" "rc = Some res" for res
    using run s1 s2 s3 that by (auto simp: runBackupExport_def)
  have eq: "(r, w') =
     (case e1 of Some err \<Rightarrow> (Inl (ErrBackup ''issues'' err), w5) | None \<Rightarrow>
     (case e2 of Some err \<Rightarrow> (Inl (ErrBackup ''events'' err), w6) | None \<Rightarrow>
     (case e3 of Some err \<Rightarrow> (Inl (ErrBackup ''comments'' err), w7) | None \<Rightarrow>
     (case e4 of Some err \<Rightarrow> (Inl (ErrBackup ''dependencies'' err), w8) | None \<Rightarrow>
     (case e5 of Some err \<Rightarrow> (Inl (ErrBackup ''labels'' err), w9) | None \<Rightarrow>
     (case e6 of Some err \<Rightarrow> (Inl (ErrBackup ''config'' err), w10) | None \<Rightarrow>
        update_watermarks L E dir (with_counts n2 n3 n4 n5 n6 st2) w10))))))"
    if "rd = Inr dir" "rl = Inr st" "rc = None"
    using run_by_steps [OF s1 [unfolded that(1)] s2 [unfolded that(2)] s3 [unfolded that(3)] s4 s5 s6 s7 s8 s9 s10] run
    by simp
  have upd: "update_watermarks L E dir (with_counts n2 n3 n4 n5 n6 st2) w10 = (r, w')"
    if "rd = Inr dir" "rl = Inr st" "rc = None"
      "e1 = None \<and> e2 = None \<and> e3 = None \<and> e4 = None \<and> e5 = None \<and> e6 = None"
    using eq [OF that(1-3)] that(4) by simp
  have DF: ?DF if "rd = Inr dir" "rl = Inr st" "rc = None"
  proof (intro conjI)
    show "e1 = None \<and> e2 = None \<and> e3 = None \<and> e4 = None \<and> e5 = None \<and> e6 = None \<longrightarrow>
          (commit_at_save E = None \<longrightarrow> r = Inl ErrGetCommitForState \<and> w' = emit GetCurrentCommit w10)
        \<and> (commit_at_save E = Some c \<longrightarrow>
               (\<forall>err. e7 = Some err \<longrightarrow> r = Inl err \<and> w' = w11)
             \<and> (e7 = None \<longrightarrow>
                   r = Inr ((with_counts n2 n3 n4 n5 n6 st2)\<lparr>LastDoltCommit := c, Timestamp := now_utc E\<rparr>)
                 \<and> w' = w11))"
    proof (rule impI)
      assume "e1 = None \<and> e2 = None \<and> e3 = None \<and> e4 = None \<and> e5 = None \<and> e6 = None"
      from upd [OF that this] s11
      show "(commit_at_save E = None \<longrightarrow> r = Inl ErrGetCommitForState \<and> w' = emit GetCurrentCommit w10)
        \<and> (commit_at_save E = Some c \<longrightarrow>
               (\<forall>err. e7 = Some err \<longrightarrow> r = Inl err \<and> w' = w11)
             \<and> (e7 = None \<longrightarrow>
                   r = Inr ((with_counts n2 n3 n4 n5 n6 st2)\<lparr>LastDoltCommit := c, Timestamp := now_utc E\<rparr>)
                 \<and> w' = w11))"
        by (auto simp: update_watermarks_def Let_def)
    qed
  qed (use eq [OF that] in auto)
  have G: ?G1 ?G2
    using run_state_file [OF run] by blast+
  have H: ?H
    if wr: "list_ex writes_state_file (new_events w w')" and d: "rd = Inr dir" and l: "rl = Inr st"
  proof -
    have no: "v \<noteq> w'" if "step qs (data_path dir) w v" for qs v
      using step_kept(1) [OF that] wr by (auto simp: list_ex_iff filter_empty_conv)
    have rc: "rc = None"
    proof (cases rc)
      case (Some res)
      from early [OF d l this] no [OF steps(3)] show ?thesis by simp
    qed simp
    note eq' = eq [OF d l rc]
    have e1: "e1 = None"
    proof (cases e1)
      case (Some err)
      with eq' no [OF steps(5)] show ?thesis by simp
    qed simp
    have e2: "e2 = None"
    proof (cases e2)
      case (Some err)
      with eq' e1 no [OF steps(6)] show ?thesis by simp
    qed simp
    have e3: "e3 = None"
    proof (cases e3)
      case (Some err)
      with eq' e1 e2 no [OF steps(7)] show ?thesis by simp
    qed simp
    have e4: "e4 = None"
    proof (cases e4)
      case (Some err)
      with eq' e1 e2 e3 no [OF steps(8)] show ?thesis by simp
    qed simp
    have e5: "e5 = None"
    proof (cases e5)
      case (Some err)
      with eq' e1 e2 e3 e4 no [OF steps(9)] show ?thesis by simp
    qed simp
    have e6: "e6 = None"
    proof (cases e6)
      case (Some err)
      with eq' e1 e2 e3 e4 e5 no [OF steps(10)] show ?thesis by simp
    qed simp
    from e1 e2 e3 e4 e5 e6 have all: "e1 = None \<and> e2 = None \<and> e3 = None \<and> e4 = None \<and> e5 = None \<and> e6 = None"
      by simp
    note tr = step_kept(2) [OF steps(10)]
    from upd [OF d l rc all]
    have "\<exists>data. new_events w w' = new_events w w10 @
                [GetCurrentCommit, AtomicWrite (state_path dir) data (write_fault E (state_path dir))]"
    proof (cases rule: update_watermarks_cases)
      case (no_write err)
      from new_events_trans [OF tr no_write(2)] step_kept(1) [OF steps(10)] wr show ?thesis
        by (simp add: list_ex_iff filter_empty_conv)
    next
      case (attempt c' data)
      from new_events_trans [OF tr attempt(3)] show ?thesis
        by blast
    qed
    with rc all show ?thesis by simp
  qed
  have "rd = Inr dir \<longrightarrow> ?B \<and> (rl = Inr st \<longrightarrow> ?C \<and> (rc = None \<longrightarrow> ?DF))"
  proof (rule impI, rule conjI)
    assume d: "rd = Inr dir"
    show ?B by (rule B [OF d])
    show "rl = Inr st \<longrightarrow> ?C \<and> (rc = None \<longrightarrow> ?DF)"
    proof (rule impI, rule conjI)
      assume l: "rl = Inr st"
      show ?C by (rule C [OF d l])
      show "rc = None \<longrightarrow> ?DF"
        by (rule impI) (rule DF [OF d l])
    qed
  qed
  moreover have "?h \<longrightarrow> ?H"
    using H by blast
  ultimately show ?thesis
    using A G by (intro conjI)
qed

theorem failing_step_aborts_run_witness:
  "exportTable (sample_lib [(recorded_doc, recorded_state)]) (sample_env comments_fail_store ''def456'') sample_dir
       ''issues.jsonl'' (issues_query False) aborted_probed = ((2, None), aborted_issues)
   \<and> fst (exportEventsIncremental (sample_lib [(recorded_doc, recorded_state)]) (sample_env comments_fail_store ''def456'')
         sample_dir (set_count (\<lambda>c. c\<lparr>Issues := of_nat 2\<rparr>) recorded_state) False aborted_issues) = (0, None)
   \<and> exportTable (sample_lib [(recorded_doc, recorded_state)]) (sample_env comments_fail_store ''def456'') sample_dir
       ''comments.jsonl'' (comments_query False) (emit (Query (events_query False) [VInt64 2]) aborted_issues)
       = ((0, Some ErrQuery), aborted_end)
   \<and> runBackupExport (sample_lib [(recorded_doc, recorded_state)]) (sample_env comments_fail_store ''def456'') False
       aborted_start = (Inl (ErrBackup ''comments'' ErrQuery), aborted_end)
   \<and> files aborted_start (state_path sample_dir) = Some recorded_doc
   \<and> files aborted_end (state_path sample_dir) = Some recorded_doc
   \<and> fst (loadBackupState (sample_lib [(recorded_doc, recorded_state)]) (sample_env comments_fail_store ''def456'')
         sample_dir aborted_end) = Inr recorded_state
   \<and> files aborted_start (filepath_Join sample_dir ''issues.jsonl'') \<noteq> files aborted_end (filepath_Join sample_dir ''issues.jsonl'')
   \<and> \<not> list_ex writes_state_file (new_events aborted_start aborted_end)
   \<and> runBackupExport (sample_lib [(first_doc, first_state)]) first_env False (world_with [])
       = (Inr first_state, first_world)
   \<and> filter writes_state_file (new_events (world_with []) first_world)
       = [AtomicWrite (state_path sample_dir) first_doc NoFault]
   \<and> last (new_events (world_with []) first_world) = AtomicWrite (state_path sample_dir) first_doc NoFault
   \<and> queries_of (new_events (world_with []) first_world) = export_order False"
proof -
  let ?L = "sample_lib [(recorded_doc, recorded_state)]"
  let ?E = "sample_env comments_fail_store ''def456''"
  obtain r w' where run: "runBackupExport ?L ?E False aborted_start = (r, w')"
    by (cases "runBackupExport ?L ?E False aborted_start")
  obtain n4 e4 w8 where s8: "exportTable ?L ?E sample_dir ''dependencies.jsonl'' (deps_query False) aborted_end = ((n4, e4), w8)"
    by (metis surj_pair)
  obtain n5 e5 w9 where s9: "exportTable ?L ?E sample_dir ''labels.jsonl'' (labels_query False) w8 = ((n5, e5), w9)"
    by (metis surj_pair)
  obtain n6 e6 w10 where s10: "exportTable ?L ?E sample_dir ''config.jsonl'' config_query w9 = ((n6, e6), w10)"
    by (metis surj_pair)
  obtain e7 w11 where
    s11: "saveBackupState ?L ?E sample_dir
            ((with_counts 0 0 n4 n5 n6 (set_count (\<lambda>c. c\<lparr>Issues := of_nat 2\<rparr>) recorded_state))
               \<lparr>LastDoltCommit := ''def456'', Timestamp := now_utc ?E\<rparr>)
            (emit GetCurrentCommit w10) = (e7, w11)"
    by (metis surj_pair)
  note T = failing_step_aborts_run [OF run aborted_steps s8 s9 s10 s11]
  from T have res: "r = Inl (ErrBackup ''comments'' ErrQuery)" "w' = aborted_end"
    by simp_all
  with T have kept: "files aborted_end (state_path sample_dir) = files aborted_start (state_path sample_dir)"
    "fst (loadBackupState ?L ?E sample_dir aborted_end) = fst (loadBackupState ?L ?E sample_dir aborted_start)"
    "length (filter writes_state_file (new_events aborted_start aborted_end)) \<le> 1"
    by simp_all
  have before: "files aborted_start (state_path sample_dir) = Some recorded_doc"
    "fst (loadBackupState ?L ?E sample_dir aborted_start) = Inr recorded_state"
    "files aborted_start (filepath_Join sample_dir ''issues.jsonl'') \<noteq> files aborted_end (filepath_Join sample_dir ''issues.jsonl'')"
    "\<not> list_ex writes_state_file (new_events aborted_start aborted_end)"
    by (simp_all add: aborted_start_def aborted_end_def aborted_issues_def aborted_probed_def world_with_def
        loadBackupState_def sample_lib_def sample_env_def Let_def new_events_def writes_state_file_def
        base_name_def sample_paths sample_dir_def state_path_def)
  obtain rd w1 rl w2 rc w3 hw w4 m1 f1 w5 m2 f2 st2 w6 m3 f3 w7 m4 f4 v8 m5 f5 v9 m6 f6 v10 f7 v11 where
    "backupDir first_env (world_with []) = (rd, w1)"
    "loadBackupState (sample_lib [(first_doc, first_state)]) first_env sample_dir w1 = (rl, w2)"
    "change_detection first_env False zero_state w2 = (rc, w3)"
    "tableExistsCheck first_env ''wisps'' w3 = (hw, w4)"
    "exportTable (sample_lib [(first_doc, first_state)]) first_env sample_dir ''issues.jsonl'' (issues_query hw) w4 = ((m1, f1), w5)"
    "exportEventsIncremental (sample_lib [(first_doc, first_state)]) first_env sample_dir
       (set_count (\<lambda>c. c\<lparr>Issues := of_nat m1\<rparr>) zero_state) hw w5 = ((m2, f2), st2, w6)"
    "exportTable (sample_lib [(first_doc, first_state)]) first_env sample_dir ''comments.jsonl'' (comments_query hw) w6 = ((m3, f3), w7)"
    "exportTable (sample_lib [(first_doc, first_state)]) first_env sample_dir ''dependencies.jsonl'' (deps_query hw) w7 = ((m4, f4), v8)"
    "exportTable (sample_lib [(first_doc, first_state)]) first_env sample_dir ''labels.jsonl'' (labels_query hw) v8 = ((m5, f5), v9)"
    "exportTable (sample_lib [(first_doc, first_state)]) first_env sample_dir ''config.jsonl'' config_query v9 = ((m6, f6), v10)"
    "saveBackupState (sample_lib [(first_doc, first_state)]) first_env sample_dir
       ((with_counts m2 m3 m4 m5 m6 st2)\<lparr>LastDoltCommit := ''c1'', Timestamp := now_utc first_env\<rparr>)
       (emit GetCurrentCommit v10) = (f7, v11)"
    by (rule run_steps_exist)
  from failing_step_aborts_run [OF first_run(1) this]
  have "length (filter writes_state_file (new_events (world_with []) first_world)) \<le> 1"
    by simp
  moreover have "last (new_events (world_with []) first_world) = AtomicWrite (state_path sample_dir) first_doc NoFault"
    "queries_of (new_events (world_with []) first_world) = export_order False"
    unfolding first_run_events by (simp_all add: export_order_def)
  ultimately show ?thesis
    using aborted_steps run res kept before first_run(1) first_run_state_writes by simp
qed

subsection \<open>The orchestrator: order of the exports and counts\<close>

text \<open>
  C7, as the specification has it: all full snapshots before the incremental export.
  In a run over a store without rows the query of the events is the third query, and the
  queries of the comments, the dependencies, the labels and the configuration follow it.
\<close>

theorem snapshots_before_incremental_counterexample:
  "\<not> snapshots_before_incremental False
       (queries_of (new_events (world_with [])
          (snd (runBackupExport (sample_lib []) (sample_env no_rows_store ''abc123'') False (world_with [])))))"
  unfolding no_rows_run_queries
  by (simp add: snapshots_before_incremental_def snapshot_queries_def query_defs)

text \<open>
  C7, amended. The queries of a run are a prefix of the fixed order: the probe, then the
  issues, the events, the comments, the dependencies, the labels and the configuration; so
  the incremental export of the events comes second among the exports, after the issues
  and before the other full snapshots. A run that has made queries and returns a state has
  made all of them, the count of the events is the loaded count plus the number of rows
  exported now, and the count of each full snapshot is the number of rows of its export.
\<close>

theorem exports_in_source_order:
  assumes run: "runBackupExport L E force w = (r, w')"
  shows "prefix (queries_of (new_events w w'))
           [table_exists_query, issues_query (has_wisps E), events_query (has_wisps E),
            comments_query (has_wisps E), deps_query (has_wisps E), labels_query (has_wisps E), config_query]
       \<and> (r = Inr st' \<and> queries_of (new_events w w') \<noteq> [] \<longrightarrow>
            queries_of (new_events w w') =
              [table_exists_query, issues_query (has_wisps E), events_query (has_wisps E),
               comments_query (has_wisps E), deps_query (has_wisps E), labels_query (has_wisps E), config_query]
          \<and> (\<exists>dir st0. fst (backupDir E w) = Inr dir \<and> fst (loadBackupState L E dir w) = Inr st0
               \<and> Issues (Counts st') = of_nat (row_count E (issues_query (has_wisps E)) [])
               \<and> Events (Counts st') = Events (Counts st0)
                    + of_nat (row_count E (events_query (has_wisps E)) (events_args (has_wisps E) st0))
               \<and> Comments (Counts st') = of_nat (row_count E (comments_query (has_wisps E)) [])
               \<and> Dependencies (Counts st') = of_nat (row_count E (deps_query (has_wisps E)) [])
               \<and> Labels (Counts st') = of_nat (row_count E (labels_query (has_wisps E)) [])
               \<and> Config (Counts st') = of_nat (row_count E config_query [])))"
proof (rule conjI)
  show "prefix (queries_of (new_events w w'))
           [table_exists_query, issues_query (has_wisps E), events_query (has_wisps E),
            comments_query (has_wisps E), deps_query (has_wisps E), labels_query (has_wisps E), config_query]"
    using run_queries [OF run] by (simp add: export_order_def)
  show "r = Inr st' \<and> queries_of (new_events w w') \<noteq> [] \<longrightarrow>
            queries_of (new_events w w') =
              [table_exists_query, issues_query (has_wisps E), events_query (has_wisps E),
               comments_query (has_wisps E), deps_query (has_wisps E), labels_query (has_wisps E), config_query]
          \<and> (\<exists>dir st0. fst (backupDir E w) = Inr dir \<and> fst (loadBackupState L E dir w) = Inr st0
               \<and> Issues (Counts st') = of_nat (row_count E (issues_query (has_wisps E)) [])
               \<and> Events (Counts st') = Events (Counts st0)
                    + of_nat (row_count E (events_query (has_wisps E)) (events_args (has_wisps E) st0))
               \<and> Comments (Counts st') = of_nat (row_count E (comments_query (has_wisps E)) [])
               \<and> Dependencies (Counts st') = of_nat (row_count E (deps_query (has_wisps E)) [])
               \<and> Labels (Counts st') = of_nat (row_count E (labels_query (has_wisps E)) [])
               \<and> Config (Counts st') = of_nat (row_count E config_query []))"
  proof
    assume a: "r = Inr st' \<and> queries_of (new_events w w') \<noteq> []"
    from run show "queries_of (new_events w w') =
              [table_exists_query, issues_query (has_wisps E), events_query (has_wisps E),
               comments_query (has_wisps E), deps_query (has_wisps E), labels_query (has_wisps E), config_query]
          \<and> (\<exists>dir st0. fst (backupDir E w) = Inr dir \<and> fst (loadBackupState L E dir w) = Inr st0
               \<and> Issues (Counts st') = of_nat (row_count E (issues_query (has_wisps E)) [])
               \<and> Events (Counts st') = Events (Counts st0)
                    + of_nat (row_count E (events_query (has_wisps E)) (events_args (has_wisps E) st0))
               \<and> Comments (Counts st') = of_nat (row_count E (comments_query (has_wisps E)) [])
               \<and> Dependencies (Counts st') = of_nat (row_count E (deps_query (has_wisps E)) [])
               \<and> Labels (Counts st') = of_nat (row_count E (labels_query (has_wisps E)) [])
               \<and> Config (Counts st') = of_nat (row_count E config_query []))"
    proof (cases rule: runBackupExport_cases)
      case early
      with a show ?thesis by (simp add: step_new_events(1))
    next
      case (export_failed dir st0 w3 err)
      with a show ?thesis by simp
    next
      case (exported dir st0 w3 st4 w4)
      from a exported(5) have uw: "update_watermarks L E dir st4 w4 = (Inr st', w')" by simp
      from update_watermarks_Inr [OF uw] obtain c data where
        cnt: "Counts st' = Counts st4"
        and tr: "trace w' = trace w4 @ [GetCurrentCommit, AtomicWrite (state_path dir) data NoFault]"
        by auto
      from export_entities_step [OF exported(4)] obtain qs where
        qs: "step qs (data_path dir) w3 w4" "qs = export_order (has_wisps E)"
        by blast
      from step_trans [OF step_mono [OF exported(3), of "data_path dir"] qs(1)]
      have s: "step qs (data_path dir) w w4" by simp
      have "new_events w w' = new_events w w4 @ [GetCurrentCommit, AtomicWrite (state_path dir) data NoFault]"
        using step_new_events(3) [OF s] tr by (rule new_events_trans)
      then have q: "queries_of (new_events w w') = export_order (has_wisps E)"
        using step_new_events(1) [OF s] qs(2) by simp
      note k = export_entities_counts [OF exported(4)]
      have "fst (backupDir E w) = Inr dir \<and> fst (loadBackupState L E dir w) = Inr st0
               \<and> Issues (Counts st') = of_nat (row_count E (issues_query (has_wisps E)) [])
               \<and> Events (Counts st') = Events (Counts st0)
                    + of_nat (row_count E (events_query (has_wisps E)) (events_args (has_wisps E) st0))
               \<and> Comments (Counts st') = of_nat (row_count E (comments_query (has_wisps E)) [])
               \<and> Dependencies (Counts st') = of_nat (row_count E (deps_query (has_wisps E)) [])
               \<and> Labels (Counts st') = of_nat (row_count E (labels_query (has_wisps E)) [])
               \<and> Config (Counts st') = of_nat (row_count E config_query [])"
        using exported(1,2) k by (simp add: cnt)
      then have "\<exists>dir st0. fst (backupDir E w) = Inr dir \<and> fst (loadBackupState L E dir w) = Inr st0
               \<and> Issues (Counts st') = of_nat (row_count E (issues_query (has_wisps E)) [])
               \<and> Events (Counts st') = Events (Counts st0)
                    + of_nat (row_count E (events_query (has_wisps E)) (events_args (has_wisps E) st0))
               \<and> Comments (Counts st') = of_nat (row_count E (comments_query (has_wisps E)) [])
               \<and> Dependencies (Counts st') = of_nat (row_count E (deps_query (has_wisps E)) [])
               \<and> Labels (Counts st') = of_nat (row_count E (labels_query (has_wisps E)) [])
               \<and> Config (Counts st') = of_nat (row_count E config_query [])"
        by (intro exI [of _ dir] exI [of _ st0])
      with q show ?thesis
        by (simp add: export_order_def)
    qed
  qed
qed

theorem exports_in_source_order_witness:
  \<open>fst (runBackupExport (sample_lib [(recorded_doc, recorded_state)])
       (sample_env (table_store two_issues (map sample_event [1, 2, 3, 4])) ''def456'') False
       (world_with [(state_path sample_dir, recorded_doc)]))
   = Inr \<lparr>LastDoltCommit = ''def456'', LastEventID = 4, Timestamp = sample_time,
           Counts = \<lparr>Issues = 2, Events = 7, Comments = 0, Dependencies = 0, Labels = 0, Config = 0\<rparr>\<rparr>
   \<and> queries_of (new_events (world_with [(state_path sample_dir, recorded_doc)])
     (snd (runBackupExport (sample_lib [(recorded_doc, recorded_state)])
       (sample_env (table_store two_issues (map sample_event [1, 2, 3, 4])) ''def456'') False
       (world_with [(state_path sample_dir, recorded_doc)]))))
     = [table_exists_query, issues_query False, events_query False, comments_query False,
        deps_query False, labels_query False, config_query]
   \<and> Events (Counts recorded_state) = 5
   \<and> row_count (sample_env (table_store two_issues (map sample_event [1, 2, 3, 4])) ''def456'')
        (events_query False) (events_args False recorded_state) = 2
   \<and> row_count (sample_env (table_store two_issues (map sample_event [1, 2, 3, 4])) ''def456'')
        (issues_query False) [] = 2\<close>
proof -
  let ?L = "sample_lib [(recorded_doc, recorded_state)]"
  let ?E = "sample_env (table_store two_issues (map sample_event [1, 2, 3, 4])) ''def456''"
  let ?w = "world_with [(state_path sample_dir, recorded_doc)]"
  let ?st = "\<lparr>LastDoltCommit = ''def456'', LastEventID = 4, Timestamp = sample_time,
           Counts = \<lparr>Issues = 2, Events = 7, Comments = 0, Dependencies = 0, Labels = 0, Config = 0\<rparr>\<rparr>"
  have run: "runBackupExport ?L ?E False ?w = (fst (runBackupExport ?L ?E False ?w), snd (runBackupExport ?L ?E False ?w))"
    by simp
  have rc: "Events (Counts recorded_state) = 5"
    "row_count ?E (events_query False) (events_args False recorded_state) = 2"
    "row_count ?E (issues_query False) [] = 2"
    by (simp_all add: recorded_state_def row_count_def sample_env_def table_store_def query_defs
        events_args_def sample_event_def newer_than_def two_issues_def)
  from exports_in_source_order [OF run, of ?st] accumulating_run rc
  show ?thesis by simp
qed

subsection \<open>The merge of primary and shadow rows\<close>

text \<open>
  C8, as the specification has it: the export of a merged entity is the stable merge of
  the primary and the shadow rows, the primary row first where keys are equal. The code
  sends one statement \<^verbatim>\<open>... UNION ALL ... ORDER BY id\<close> and writes the rows as the store
  returns them. For primary keys 1, 3, 5 and shadow keys 2, 3, 4 the answer 1, 2, 3
  (shadow), 3 (primary), 4, 5 holds all rows in ascending order, and the file that
  \<^verbatim>\<open>exportTable\<close> writes has the shadow row with key 3 before the primary one.
\<close>

theorem primary_before_shadow_counterexample:
  \<open>answers_union_order_by id_key primary_rows shadow_rows tie_answer
   \<and> store_query (sample_env union_store ''abc123'') (issues_query True) []
        = Some (Rows (Some [''id'', ''title'']) tie_answer False)
   \<and> files (snd (exportTable (sample_lib []) (sample_env union_store ''abc123'') sample_dir ''issues.jsonl''
                    (issues_query True) (world_with [])))
        (filepath_Join sample_dir ''issues.jsonl'')
       = Some (''{"id":1,"title":"p1"}'' @ [newline] @ ''{"id":2,"title":"s2"}'' @ [newline] @
               ''{"id":3,"title":"s3"}'' @ [newline] @ ''{"id":3,"title":"p3"}'' @ [newline] @
               ''{"id":4,"title":"s4"}'' @ [newline] @ ''{"id":5,"title":"p5"}'' @ [newline])
   \<and> files (snd (exportTable (sample_lib []) (sample_env union_store ''abc123'') sample_dir ''issues.jsonl''
                    (issues_query True) (world_with [])))
        (filepath_Join sample_dir ''issues.jsonl'')
       \<noteq> Some (jsonl (sample_lib []) [''id'', ''title''] (spec_stable_merge id_key primary_rows shadow_rows))\<close>
  by (simp add: tie_answer_contract union_export jsonl_spec_merge)
    (simp add: sample_env_def union_store_def)

text \<open>
  C8, amended. For an entity with a primary and a shadow query the code sends one
  statement and writes one line per row, in the order in which the store returns the rows:
  \<^verbatim>\<open>exportTable\<close> replaces the file by these lines, \<^verbatim>\<open>exportEventsIncremental\<close> does
  the same on a first export and puts them after the old content otherwise. So the output
  is ascending by key and holds the rows of both tables when the answer of the store does;
  rows with the same key both appear, in the order the store gives them.
\<close>

theorem merged_export_keeps_store_order:
  assumes "answers_union_order_by key primary shadow answer"
    and "list_all (row_ok L cols) answer"
    and "write_fault E (filepath_Join dir fn) = NoFault"
    and "write_fault E (filepath_Join dir ''events.jsonl'') = NoFault"
    and "append_fault E (filepath_Join dir ''events.jsonl'') = AppendOK"
  shows "(store_query E q [] = Some (Rows (Some cols) answer False) \<longrightarrow>
            fst (exportTable L E dir fn q w) = (length answer, None)
          \<and> files (snd (exportTable L E dir fn q w)) (filepath_Join dir fn)
              = Some (concat (map (json_line L cols) answer)))
       \<and> (store_query E (events_query True) (events_args True st) = Some (Rows (Some cols) answer False)
            \<and> answer \<noteq> [] \<longrightarrow>
            fst (exportEventsIncremental L E dir st True w) = (length answer, None)
          \<and> files (snd (snd (exportEventsIncremental L E dir st True w))) (filepath_Join dir ''events.jsonl'')
              = Some ((if LastEventID st = 0 then []
                       else (case files w (filepath_Join dir ''events.jsonl'') of None \<Rightarrow> [] | Some c \<Rightarrow> c))
                      @ concat (map (json_line L cols) answer)))
       \<and> sorted (map key answer) \<and> mset answer = mset primary + mset shadow"
proof (intro conjI impI)
  assume q: "store_query E q [] = Some (Rows (Some cols) answer False)"
  have ok: "\<not> row_failure L cols (Rows (Some cols) answer False)"
    using assms(2) by (simp add: row_failure_def)
  from exportTable_rows_ok [OF q _ ok, of dir fn w] assms(3)
  show "fst (exportTable L E dir fn q w) = (length answer, None)"
    and "files (snd (exportTable L E dir fn q w)) (filepath_Join dir fn)
              = Some (concat (map (json_line L cols) answer))"
    by (simp_all add: atomicWriteFile_NoFault jsonl_def)
next
  assume q: "store_query E (events_query True) (events_args True st) = Some (Rows (Some cols) answer False)
            \<and> answer \<noteq> []"
  have ok: "\<not> row_failure L cols (Rows (Some cols) answer False)"
    using assms(2) by (simp add: row_failure_def)
  from q exportEvents_rows_ok [OF _ _ ok, of E True st dir w] assms(4,5)
  show "fst (exportEventsIncremental L E dir st True w) = (length answer, None)"
    and "files (snd (snd (exportEventsIncremental L E dir st True w))) (filepath_Join dir ''events.jsonl'')
              = Some ((if LastEventID st = 0 then []
                       else (case files w (filepath_Join dir ''events.jsonl'') of None \<Rightarrow> [] | Some c \<Rightarrow> c))
                      @ concat (map (json_line L cols) answer))"
    by (simp_all add: atomicWriteFile_NoFault appendFile_def Let_def jsonl_def)
next
  show "sorted (map key answer)" and "mset answer = mset primary + mset shadow"
    using assms(1) by (simp_all add: answers_union_order_by_def)
qed

theorem merged_export_keeps_store_order_witness:
  \<open>answers_union_order_by id_key primary_rows shadow_rows tie_answer
   \<and> fst (exportTable (sample_lib []) (sample_env union_store ''abc123'') sample_dir ''issues.jsonl''
             (issues_query True) (world_with [(filepath_Join sample_dir ''events.jsonl'', ''old'')]))
       = (6, None)
   \<and> files (snd (exportTable (sample_lib []) (sample_env union_store ''abc123'') sample_dir ''issues.jsonl''
             (issues_query True) (world_with [(filepath_Join sample_dir ''events.jsonl'', ''old'')])))
         (filepath_Join sample_dir ''issues.jsonl'')
       = Some (''{"id":1,"title":"p1"}'' @ [newline] @ ''{"id":2,"title":"s2"}'' @ [newline] @
               ''{"id":3,"title":"s3"}'' @ [newline] @ ''{"id":3,"title":"p3"}'' @ [newline] @
               ''{"id":4,"title":"s4"}'' @ [newline] @ ''{"id":5,"title":"p5"}'' @ [newline])
   \<and> fst (exportEventsIncremental (sample_lib []) (sample_env union_store ''abc123'') sample_dir recorded_state True
             (world_with [(filepath_Join sample_dir ''events.jsonl'', ''old'')]))
       = (6, None)
   \<and> files (snd (snd (exportEventsIncremental (sample_lib []) (sample_env union_store ''abc123'') sample_dir
             recorded_state True (world_with [(filepath_Join sample_dir ''events.jsonl'', ''old'')]))))
         (filepath_Join sample_dir ''events.jsonl'')
       = Some (''old'' @
               ''{"id":1,"title":"p1"}'' @ [newline] @ ''{"id":2,"title":"s2"}'' @ [newline] @
               ''{"id":3,"title":"s3"}'' @ [newline] @ ''{"id":3,"title":"p3"}'' @ [newline] @
               ''{"id":4,"title":"s4"}'' @ [newline] @ ''{"id":5,"title":"p5"}'' @ [newline])\<close>
proof -
  let ?E = "sample_env union_store ''abc123''"
  let ?w = "world_with [(filepath_Join sample_dir ''events.jsonl'', ''old'')]"
  have f: "write_fault ?E (filepath_Join sample_dir ''issues.jsonl'') = NoFault"
    "write_fault ?E (filepath_Join sample_dir ''events.jsonl'') = NoFault"
    "append_fault ?E (filepath_Join sample_dir ''events.jsonl'') = AppendOK"
    by (simp_all add: sample_env_def)
  have q: "store_query ?E (issues_query True) [] = Some (Rows (Some [''id'', ''title'']) tie_answer False)"
    "store_query ?E (events_query True) (events_args True recorded_state)
       = Some (Rows (Some [''id'', ''title'']) tie_answer False)"
    "tie_answer \<noteq> []" "LastEventID recorded_state \<noteq> 0" "length tie_answer = 6"
    "files ?w (filepath_Join sample_dir ''events.jsonl'') = Some ''old''"
    by (simp_all add: sample_env_def union_store_def tie_answer_def recorded_state_def world_with_def)
  have j: "concat (map (json_line (sample_lib []) [''id'', ''title'']) tie_answer)
      = jsonl (sample_lib []) [''id'', ''title''] tie_answer"
    by (simp add: jsonl_def)
  from merged_export_keeps_store_order [OF tie_answer_contract tie_answer_ok f,
      of "issues_query True" ?w recorded_state] q
  show ?thesis
    unfolding j jsonl_tie_answer by (simp add: tie_answer_contract)
qed

subsection \<open>The watermark across runs\<close>

text \<open>
  C2. The watermark after a successful run against the one after the successful run
  before it. \<^verbatim>\<open>exportEventsIncremental\<close> starts \<^verbatim>\<open>maxID\<close> at 0, raises it only at rows
  whose \<^verbatim>\<open>id\<close> is an \<^verbatim>\<open>int64\<close>, and stores it as the new watermark whenever rows were
  exported. A first run exports the events 1 and 2 and saves the watermark 2. For the
  second run the store answers the events query with one row whose \<^verbatim>\<open>id\<close> comes as
  the bytes \<^verbatim>\<open>3\<close>, which \<^verbatim>\<open>normalizeValue\<close> turns into a string: the run succeeds, appends
  the row to the events file, counts it, and returns the watermark 0, below the 2 of the
  run before and not the key of the row.
\<close>

theorem watermark_falls_on_byte_ids:
  \<open>runBackupExport (sample_lib [(first_doc, first_state)]) first_env False (world_with [])
     = (Inr first_state, first_world)
   \<and> LastEventID first_state = 2
   \<and> store_query byte_id_env (events_query False) (events_args False first_state)
       = Some (Rows (Some [''id'', ''event_type'']) [Some [VBytes ''3'', VBytes ''created'']] False)
   \<and> fst (runBackupExport (sample_lib [(first_doc, first_state)]) byte_id_env False first_world) = Inr reset_state
   \<and> files (snd (runBackupExport (sample_lib [(first_doc, first_state)]) byte_id_env False first_world))
        (filepath_Join sample_dir ''events.jsonl'')
       = Some (''{"event_type":"created","id":1}'' @ [newline] @ ''{"event_type":"created","id":2}'' @ [newline] @
               ''{"event_type":"created","id":"3"}'' @ [newline])
   \<and> LastEventID reset_state = 0
   \<and> Events (Counts reset_state) = Events (Counts first_state) + 1
   \<and> sint (LastEventID reset_state) < sint (LastEventID first_state)\<close>
  using first_run(1) byte_id_run
  by (simp add: first_state_def reset_state_def byte_id_env_def sample_env_def byte_id_store_def query_defs
      events_args_def sample_paths sample_dir_def)

text \<open>
  With a store that answers the events query with rows whose \<^verbatim>\<open>int64\<close> keys are above
  the watermark it was passed, two successive runs that both return a state, in the same
  backup directory and with a state file that reads back as it was saved: the watermark
  after the second run is at least the watermark after the first; it differs only when the
  events query has delivered rows; and it is then at least every key among them and, the
  old watermark being non-negative, one of these keys.
\<close>

lemma watermark_with_int64_keys:
  assumes run1: "runBackupExport L E1 force1 w0 = (Inr s1, w1)"
    and run2: "runBackupExport L E2 force2 w1 = (Inr s2, w2)"
    and same_dir: "fst (backupDir E2 w1) = fst (backupDir E1 w0)"
    and roundtrip: "\<forall>data. json_MarshalIndent L s1 = Some data \<longrightarrow> json_Unmarshal L data = Some s1"
    and honest: "honours_filter L E2 s1"
  shows "sint (LastEventID s1) \<le> sint (LastEventID s2)
       \<and> (LastEventID s2 \<noteq> LastEventID s1 \<longrightarrow>
            0 < row_count E2 (events_query (has_wisps E2)) (events_args (has_wisps E2) s1)
          \<and> queries_of (new_events w1 w2) \<noteq> [])
       \<and> (queries_of (new_events w1 w2) \<noteq> []
            \<and> 0 < row_count E2 (events_query (has_wisps E2)) (events_args (has_wisps E2) s1) \<longrightarrow>
            (\<exists>rs cols. store_query E2 (events_query (has_wisps E2)) (events_args (has_wisps E2) s1) = Some rs
               \<and> rows_columns rs = Some cols
               \<and> (\<forall>i \<in> set (event_ids L cols (rows_scans rs)). sint i \<le> sint (LastEventID s2))
               \<and> (0 \<le> sint (LastEventID s1) \<longrightarrow> LastEventID s2 \<in> set (event_ids L cols (rows_scans rs)))))"
proof -
  from run_Inr_loaded [OF run1] obtain dir where dir1: "fst (backupDir E1 w0) = Inr dir"
    by auto
  with same_dir have dir2: "fst (backupDir E2 w1) = Inr dir" by simp
  from run_Inr_loaded [OF run2] dir2 obtain st where load2: "fst (loadBackupState L E2 dir w1) = Inr st"
    by auto
  from run_then_load [OF run1 dir1 roundtrip load2] load2
  have load: "fst (loadBackupState L E2 dir w1) = Inr s1" by simp
  from run_watermark [OF run2 dir2 load honest] show ?thesis
    by blast
qed

lemma watermark_with_int64_keys_sample:
  "runBackupExport (sample_lib [(first_doc, first_state)]) first_env False (world_with [])
     = (Inr first_state, first_world)
   \<and> fst (runBackupExport (sample_lib [(first_doc, first_state)]) second_env False first_world) = Inr second_state
   \<and> fst (backupDir second_env first_world) = fst (backupDir first_env (world_with []))
   \<and> json_MarshalIndent (sample_lib [(first_doc, first_state)]) first_state = Some first_doc
   \<and> json_Unmarshal (sample_lib [(first_doc, first_state)]) first_doc = Some first_state
   \<and> honours_filter (sample_lib [(first_doc, first_state)]) second_env first_state
   \<and> sint (LastEventID first_state) = 2
   \<and> sint (LastEventID second_state) = 4
   \<and> row_count second_env (events_query False) (events_args False first_state) = 2
   \<and> event_ids (sample_lib [(first_doc, first_state)]) [''id'', ''event_type'']
        [Some (sample_event 3), Some (sample_event 4)] = [3, 4]"
proof -
  let ?L = "sample_lib [(first_doc, first_state)]"
  have run2: "runBackupExport ?L second_env False first_world
      = (Inr second_state, snd (runBackupExport ?L second_env False first_world))"
    using second_run(1) by (simp add: prod_eq_iff)
  have same_dir: "fst (backupDir second_env first_world) = fst (backupDir first_env (world_with []))"
    by (simp add: first_env_def second_env_def backupDir_sample)
  have m: "json_MarshalIndent ?L first_state = Some first_doc"
    by (simp add: sample_lib_def first_state_def marshal_first_state)
  have u: "json_Unmarshal ?L first_doc = Some first_state"
    by (simp add: sample_lib_def)
  have roundtrip: "\<forall>data. json_MarshalIndent ?L first_state = Some data \<longrightarrow> json_Unmarshal ?L data = Some first_state"
    using m u by simp
  have v: "sint (LastEventID first_state) = 2" "sint (LastEventID second_state) = 4"
    "row_count second_env (events_query False) (events_args False first_state) = 2"
    "event_ids ?L [''id'', ''event_type''] [Some (sample_event 3), Some (sample_event 4)] = [3, 4]"
    by (simp_all add: row_count_def second_answer event_ids_def List.map_filter_simps sample_event_id)
      (simp_all add: first_state_def second_state_def)
  from watermark_with_int64_keys [OF first_run(1) run2 same_dir roundtrip second_honest]
    first_run(1) second_run(1) same_dir m u second_honest v
  show ?thesis by simp
qed

end
